(* ===== verification/Prelude.thy ===== *)
theory Prelude
  imports Main "HOL-Library.Word"
begin

text \<open>
  Shared vocabulary of the development: the machine integers of the Rust sources, the checked
  arithmetic of \<open>core\<close>, \<open>Result\<close> as a sum type, operations that take \<open>&mut self\<close> as functions
  from a state to a result and a new state, and the generic lemmas on words and lists that the
  component theories use.

  \<^item> An unsigned Rust integer of width \<open>w\<close> is a \<open>w word\<close>.  An array index (\<open>usize\<close>) is a \<open>nat\<close>.
  \<^item> \<open>Result<T, E>\<close> is \<open>'e + 't\<close>: \<open>Inl\<close> is \<open>Err\<close>, \<open>Inr\<close> is \<open>Ok\<close>.
  \<^item> A method \<open>fn f(&mut self) -> Result<T, E>\<close> is a function \<open>'s \<Rightarrow> ('e + 't) \<times> 's\<close>: the
    state after the call is part of the result on the error path as well, because the Rust code
    keeps whatever it had already written when an early return happens.
\<close>

unbundle bit_operations_syntax

type_synonym u8 = "8 word"
type_synonym u16 = "16 word"
type_synonym u32 = "32 word"
type_synonym u64 = "64 word"

text \<open>Facts that evaluate the combinators below, and facts that unfold constants of the sources.\<close>

named_theorems action_simps
named_theorems const_simps


section \<open>Checked arithmetic\<close>

definition u64_MAX :: u64 where
  "u64_MAX = -1"

definition checked_add :: "'a::len word \<Rightarrow> 'a word \<Rightarrow> 'a word option" where
  "checked_add a b = (if unat a + unat b < 2 ^ LENGTH('a) then Some (a + b) else None)"

definition checked_mul :: "'a::len word \<Rightarrow> 'a word \<Rightarrow> 'a word option" where
  "checked_mul a b = (if unat a * unat b < 2 ^ LENGTH('a) then Some (a * b) else None)"

definition checked_sub :: "'a::len word \<Rightarrow> 'a word \<Rightarrow> 'a word option" where
  "checked_sub a b = (if b \<le> a then Some (a - b) else None)"

definition saturating_add :: "'a::len word \<Rightarrow> 'a word \<Rightarrow> 'a word" where
  "saturating_add a b = (if unat a + unat b < 2 ^ LENGTH('a) then a + b else -1)"

definition is_multiple_of :: "'a::len word \<Rightarrow> 'a word \<Rightarrow> bool" where
  "is_multiple_of a b = (if b = 0 then a = 0 else a mod b = 0)"

lemma checked_add_SomeD:
  "checked_add a b = Some c \<Longrightarrow> c = a + b \<and> unat c = unat a + unat b"
  by (auto simp: checked_add_def unat_word_ariths split: if_splits)

lemma checked_add_None_iff:
  "checked_add (a :: 'a::len word) b = None \<longleftrightarrow> 2 ^ LENGTH('a) \<le> unat a + unat b"
  by (auto simp: checked_add_def)

lemma checked_mul_SomeD:
  "checked_mul a b = Some c \<Longrightarrow> c = a * b \<and> unat c = unat a * unat b"
  by (auto simp: checked_mul_def unat_word_ariths split: if_splits)

lemma checked_mul_None_iff:
  "checked_mul (a :: 'a::len word) b = None \<longleftrightarrow> 2 ^ LENGTH('a) \<le> unat a * unat b"
  by (auto simp: checked_mul_def)

lemma checked_sub_SomeD:
  "checked_sub a b = Some c \<Longrightarrow> c = a - b \<and> unat c = unat a - unat b \<and> b \<le> a"
  by (auto simp: checked_sub_def unat_sub split: if_splits)

lemma checked_add_one_None: "checked_add (a :: u64) 1 = None \<longleftrightarrow> a = u64_MAX"
proof -
  have "unat a < 2 ^ 64" using unsigned_less [of a] by simp
  moreover have "a = -1 \<longleftrightarrow> unat a = 2 ^ 64 - 1"
    by (simp add: word_unat_eq_iff unsigned_minus_1_eq_mask mask_eq_exp_minus_1)
  ultimately show ?thesis
    by (auto simp: checked_add_None_iff u64_MAX_def)
qed

lemma is_multiple_of_iff_dvd:
  "b \<noteq> 0 \<Longrightarrow> is_multiple_of a b \<longleftrightarrow> unat b dvd unat a"
  by (simp add: is_multiple_of_def word_unat_eq_iff unat_mod dvd_eq_mod_eq_0)


section \<open>Results\<close>

definition ok_or :: "'a option \<Rightarrow> 'e \<Rightarrow> 'e + 'a" where
  "ok_or x e = (case x of None \<Rightarrow> Inl e | Some a \<Rightarrow> Inr a)"

definition is_ok :: "'e + 'a \<Rightarrow> bool" where
  "is_ok r = (case r of Inl _ \<Rightarrow> False | Inr _ \<Rightarrow> True)"

definition is_err :: "'e + 'a \<Rightarrow> bool" where
  "is_err r = (\<not> is_ok r)"

definition map_err :: "('e \<Rightarrow> 'f) \<Rightarrow> 'e + 'a \<Rightarrow> 'f + 'a" where
  "map_err f r = (case r of Inl e \<Rightarrow> Inl (f e) | Inr a \<Rightarrow> Inr a)"

text \<open>The question mark operator on a pure result: continue on \<open>Ok\<close>, return the error otherwise.\<close>

definition and_then :: "'e + 'a \<Rightarrow> ('a \<Rightarrow> 'e + 'b) \<Rightarrow> 'e + 'b" where
  "and_then r f = (case r of Inl e \<Rightarrow> Inl e | Inr a \<Rightarrow> f a)"

lemma is_ok_simps [simp]: "is_ok (Inr a)" "\<not> is_ok (Inl e)"
  by (simp_all add: is_ok_def)

lemma is_err_simps [simp]: "is_err (Inl e)" "\<not> is_err (Inr a)"
  by (simp_all add: is_err_def)

lemma and_then_simps [simp]:
  "and_then (Inl e) f = Inl e" "and_then (Inr a) f = f a"
  by (simp_all add: and_then_def)

lemma map_err_simps [simp]:
  "map_err f (Inl e) = Inl (f e)" "map_err f (Inr a) = Inr a"
  by (simp_all add: map_err_def)

lemma ok_or_simps [simp]:
  "ok_or None e = Inl e" "ok_or (Some a) e = Inr a"
  by (simp_all add: ok_or_def)

lemma ok_or_eq_Inr [simp]: "ok_or x e = Inr a \<longleftrightarrow> x = Some a"
  by (cases x) auto

lemma ok_or_eq_Inl [simp]: "ok_or x e = Inl e' \<longleftrightarrow> x = None \<and> e' = e"
  by (cases x) auto

lemma map_err_eq_Inr [simp]: "map_err f r = Inr a \<longleftrightarrow> r = Inr a"
  by (cases r) auto

lemma and_then_eq_Inr: "and_then r f = Inr b \<longleftrightarrow> (\<exists>a. r = Inr a \<and> f a = Inr b)"
  by (cases r) auto

lemma is_ok_unit [simp]: "is_ok (r :: 'e + unit) \<longleftrightarrow> r = Inr ()"
  by (cases r) auto

lemma is_ok_iff: "is_ok r \<longleftrightarrow> (\<exists>a. r = Inr a)"
  by (cases r) auto

lemma result_unit_cases: "(r :: 'e + unit) = Inr () \<or> (\<exists>e. r = Inl e)"
  by (cases r) auto


section \<open>Actions: methods on a mutable receiver\<close>

type_synonym ('s, 'e, 'a) action = "'s \<Rightarrow> ('e + 'a) \<times> 's"

definition act_return :: "'a \<Rightarrow> ('s, 'e, 'a) action" where
  "act_return a s = (Inr a, s)"

definition act_fail :: "'e \<Rightarrow> ('s, 'e, 'a) action" where
  "act_fail e s = (Inl e, s)"

definition act_bind :: "('s, 'e, 'a) action \<Rightarrow> ('a \<Rightarrow> ('s, 'e, 'b) action) \<Rightarrow> ('s, 'e, 'b) action" where
  "act_bind m f s = (case m s of (Inl e, s') \<Rightarrow> (Inl e, s') | (Inr a, s') \<Rightarrow> f a s')"

definition act_then :: "('s, 'e, 'a) action \<Rightarrow> ('s, 'e, 'b) action \<Rightarrow> ('s, 'e, 'b) action" where
  "act_then m k = act_bind m (\<lambda>_. k)"

definition act_modify :: "('s \<Rightarrow> 's) \<Rightarrow> ('s, 'e, unit) action" where
  "act_modify f s = (Inr (), f s)"

text \<open>A method on \<open>&self\<close>: it reads the state and changes nothing.\<close>

definition act_read :: "('s \<Rightarrow> 'e + 'a) \<Rightarrow> ('s, 'e, 'a) action" where
  "act_read f s = (f s, s)"

text \<open>
  The idiom \<open>let before = *self; let result = ...; if result.is_err() { *self = before; } result\<close>.
\<close>

definition act_restoring :: "('s, 'e, 'a) action \<Rightarrow> ('s, 'e, 'a) action" where
  "act_restoring m s = (case m s of (Inl e, s') \<Rightarrow> (Inl e, s) | (Inr a, s') \<Rightarrow> (Inr a, s'))"

lemma act_return_apply [simp, action_simps]: "act_return a s = (Inr a, s)"
  by (simp add: act_return_def)

lemma act_fail_apply [simp, action_simps]: "act_fail e s = (Inl e, s)"
  by (simp add: act_fail_def)

lemma act_modify_apply [simp, action_simps]: "act_modify f s = (Inr (), f s)"
  by (simp add: act_modify_def)

lemma act_read_apply [simp, action_simps]: "act_read f s = (f s, s)"
  by (simp add: act_read_def)

lemma act_bind_Inr [action_simps]: "m s = (Inr a, s') \<Longrightarrow> act_bind m f s = f a s'"
  by (simp add: act_bind_def)

lemma act_bind_Inl [action_simps]: "m s = (Inl e, s') \<Longrightarrow> act_bind m f s = (Inl e, s')"
  by (simp add: act_bind_def)

lemma act_then_Inr [action_simps]: "m s = (Inr a, s') \<Longrightarrow> act_then m k s = k s'"
  by (simp add: act_then_def act_bind_def)

lemma act_then_Inl [action_simps]: "m s = (Inl e, s') \<Longrightarrow> act_then m k s = (Inl e, s')"
  by (simp add: act_then_def act_bind_def)

lemma act_bind_eq_Inr:
  "act_bind m f s = (Inr b, t) \<longleftrightarrow> (\<exists>a s'. m s = (Inr a, s') \<and> f a s' = (Inr b, t))"
  by (auto simp: act_bind_def split: prod.splits sum.splits)

lemma act_then_eq_Inr:
  "act_then m k s = (Inr b, t) \<longleftrightarrow> (\<exists>a s'. m s = (Inr a, s') \<and> k s' = (Inr b, t))"
  by (simp add: act_then_def act_bind_eq_Inr)

lemma act_restoring_eq_Inr:
  "act_restoring m s = (Inr a, t) \<longleftrightarrow> m s = (Inr a, t)"
  by (auto simp: act_restoring_def split: prod.splits sum.splits)

lemma act_restoring_Inl:
  "act_restoring m s = (Inl e, t) \<Longrightarrow> t = s"
  by (auto simp: act_restoring_def split: prod.splits sum.splits)


section \<open>Lists\<close>

text \<open>\<open>iter().position(p)\<close>.\<close>

fun position :: "('a \<Rightarrow> bool) \<Rightarrow> 'a list \<Rightarrow> nat option" where
  "position p [] = None"
| "position p (x # xs) = (if p x then Some 0 else map_option Suc (position p xs))"

lemma position_SomeD:
  "position p xs = Some i \<Longrightarrow> i < length xs \<and> p (xs ! i) \<and> (\<forall>j < i. \<not> p (xs ! j))"
proof (induction xs arbitrary: i)
  case Nil
  then show ?case by simp
next
  case (Cons x xs)
  then show ?case
    by (auto split: if_splits simp: less_Suc_eq_0_disj)
qed

lemma position_None_iff: "position p xs = None \<longleftrightarrow> (\<forall>x \<in> set xs. \<not> p x)"
  by (induction xs) auto

lemma list_update_set_iff:
  "i < length xs \<Longrightarrow> (\<forall>x \<in> set (xs[i := y]). P x) \<longleftrightarrow> P y \<and> (\<forall>j < length xs. j \<noteq> i \<longrightarrow> P (xs ! j))"
  by (auto simp: all_set_conv_all_nth nth_list_update)


section \<open>Bits\<close>

lemma and_not_zero_iff: "(a :: 'a::len word) AND NOT b = 0 \<longleftrightarrow> (\<forall>n. bit a n \<longrightarrow> bit b n)"
proof -
  have "a AND NOT b = 0 \<longleftrightarrow> (\<forall>n. \<not> bit (a AND NOT b) n)"
    by (metis bit_0_eq bit_eqI bot_apply bot_bool_def)
  also have "\<dots> \<longleftrightarrow> (\<forall>n. bit a n \<longrightarrow> bit b n)"
    by (auto simp: bit_and_iff bit_not_iff dest: bit_imp_le_length)
  finally show ?thesis .
qed

text \<open>Rights are bit sets; \<open>a AND NOT b = 0\<close> says that every right of \<open>a\<close> is one of \<open>b\<close>.\<close>

definition rights_subset :: "u64 \<Rightarrow> u64 \<Rightarrow> bool" where
  "rights_subset a b \<longleftrightarrow> a AND NOT b = 0"

lemma rights_subset_refl [simp]: "rights_subset a a"
  by (simp add: rights_subset_def)

lemma rights_subset_trans: "rights_subset a b \<Longrightarrow> rights_subset b c \<Longrightarrow> rights_subset a c"
  by (simp add: rights_subset_def and_not_zero_iff)

lemma rights_subset_and:
  assumes "rights_subset a b" "a AND r \<noteq> 0"
  shows "b AND r \<noteq> 0"
proof
  assume "b AND r = 0"
  then have "\<not> (bit b n \<and> bit r n)" for n
    by (metis bit_0_eq bit_and_iff bot_apply bot_bool_def)
  with assms(1) have "\<not> bit (a AND r) n" for n
    by (auto simp: rights_subset_def and_not_zero_iff bit_and_iff)
  then have "a AND r = 0"
    by (metis bit_0_eq bit_eqI bot_apply bot_bool_def)
  with assms(2) show False by simp
qed

end
