(* ===== verification/Runtime_Types.thy ===== *)
theory Runtime_Types
  imports Prelude
begin

text \<open>
  Constants, enumerations and small ABI functions of \<open>crates/task-runtime/src/lib.rs\<close> that the
  capability table, the effect journal and the runtime share.  Constructors carry the name of their
  Rust enum as a prefix, because several enums use the same variant names.
\<close>

section \<open>Constants\<close>

definition TASK_COUNT :: nat where [simp, const_simps]: "TASK_COUNT = 2"
definition SENDER_TASK_ID :: u64 where [simp, const_simps]: "SENDER_TASK_ID = 1"
definition RECEIVER_TASK_ID :: u64 where [simp, const_simps]: "RECEIVER_TASK_ID = 2"
definition ENDPOINT_ID :: u64 where [simp, const_simps]: "ENDPOINT_ID = 1"
definition ENDPOINT_GENERATION :: u64 where [simp, const_simps]: "ENDPOINT_GENERATION = 1"
definition CAPABILITY_SLOT_COUNT :: nat where [simp, const_simps]: "CAPABILITY_SLOT_COUNT = 16"
definition CAPABILITY_SLOT_BITS :: nat where [simp, const_simps]: "CAPABILITY_SLOT_BITS = 4"
definition CAPABILITY_GENERATION_MAX :: u64 where
  [const_simps]: "CAPABILITY_GENERATION_MAX = push_bit 60 1 - 1"
definition CAPABILITY_RIGHT_SEND :: u64 where [simp, const_simps]: "CAPABILITY_RIGHT_SEND = 1"
definition CAPABILITY_RIGHT_RECEIVE :: u64 where [simp, const_simps]: "CAPABILITY_RIGHT_RECEIVE = 2"
definition CAPABILITY_RIGHT_DUPLICATE :: u64 where [simp, const_simps]: "CAPABILITY_RIGHT_DUPLICATE = 4"
definition CAPABILITY_RIGHT_START :: u64 where [simp, const_simps]: "CAPABILITY_RIGHT_START = 8"
definition CAPABILITY_RIGHT_SUBMIT_APPROVAL :: u64 where
  [simp, const_simps]: "CAPABILITY_RIGHT_SUBMIT_APPROVAL = 16"
definition CAPABILITY_RIGHT_DECIDE_APPROVAL :: u64 where
  [simp, const_simps]: "CAPABILITY_RIGHT_DECIDE_APPROVAL = 32"
definition CAPABILITY_RIGHT_COMMIT_EFFECT :: u64 where
  [simp, const_simps]: "CAPABILITY_RIGHT_COMMIT_EFFECT = 64"
definition CAPABILITY_RIGHT_READ_EFFECT_JOURNAL :: u64 where
  [simp, const_simps]: "CAPABILITY_RIGHT_READ_EFFECT_JOURNAL = 128"
definition CAPABILITY_RIGHTS_V1 :: u64 where
  [const_simps]: "CAPABILITY_RIGHTS_V1 =
     CAPABILITY_RIGHT_SEND OR CAPABILITY_RIGHT_RECEIVE OR CAPABILITY_RIGHT_DUPLICATE
     OR CAPABILITY_RIGHT_START OR CAPABILITY_RIGHT_SUBMIT_APPROVAL
     OR CAPABILITY_RIGHT_DECIDE_APPROVAL OR CAPABILITY_RIGHT_COMMIT_EFFECT
     OR CAPABILITY_RIGHT_READ_EFFECT_JOURNAL"
definition INITIAL_CAPABILITY_HANDLE :: u64 where
  [const_simps]: "INITIAL_CAPABILITY_HANDLE = push_bit CAPABILITY_SLOT_BITS 1"
definition SUPERVISOR_TASK_CONTROL_HANDLE :: u64 where
  [const_simps]: "SUPERVISOR_TASK_CONTROL_HANDLE = INITIAL_CAPABILITY_HANDLE"
definition SUPERVISOR_DECISION_HANDLE :: u64 where
  [const_simps]: "SUPERVISOR_DECISION_HANDLE = INITIAL_CAPABILITY_HANDLE + 1"
definition SUPERVISOR_EFFECT_HANDLE :: u64 where
  [const_simps]: "SUPERVISOR_EFFECT_HANDLE = INITIAL_CAPABILITY_HANDLE + 2"
definition SUPERVISOR_JOURNAL_HANDLE :: u64 where
  [const_simps]: "SUPERVISOR_JOURNAL_HANDLE = INITIAL_CAPABILITY_HANDLE + 3"
definition WORKLOAD_APPROVAL_HANDLE :: u64 where
  [const_simps]: "WORKLOAD_APPROVAL_HANDLE = INITIAL_CAPABILITY_HANDLE"
definition SUPERVISOR_GENERATION :: u64 where [simp, const_simps]: "SUPERVISOR_GENERATION = 4"
definition WORKLOAD_GENERATION :: u64 where [simp, const_simps]: "WORKLOAD_GENERATION = 5"
definition MANIFEST_SCHEMA_VERSION :: u32 where [simp, const_simps]: "MANIFEST_SCHEMA_VERSION = 1"
definition MANIFEST_BYTE_SIZE :: u32 where [simp, const_simps]: "MANIFEST_BYTE_SIZE = 184"
definition MANIFEST_ROUTE_COUNT_MAX :: nat where [simp, const_simps]: "MANIFEST_ROUTE_COUNT_MAX = 4"
definition MANIFEST_ID :: u64 where [simp, const_simps]: "MANIFEST_ID = 1"
definition PRINCIPAL_ID :: u64 where [simp, const_simps]: "PRINCIPAL_ID = 1"
definition WORKLOAD_IMAGE_ID :: u64 where [simp, const_simps]: "WORKLOAD_IMAGE_ID = 1"
definition TASK_CONTROL_OBJECT_ID :: u64 where [simp, const_simps]: "TASK_CONTROL_OBJECT_ID = 1"
definition APPROVAL_BROKER_OBJECT_ID :: u64 where [simp, const_simps]: "APPROVAL_BROKER_OBJECT_ID = 1"
definition TEST_EFFECT_OBJECT_ID :: u64 where [simp, const_simps]: "TEST_EFFECT_OBJECT_ID = 1"
definition EFFECT_JOURNAL_OBJECT_ID :: u64 where [simp, const_simps]: "EFFECT_JOURNAL_OBJECT_ID = 1"
definition FIXED_OBJECT_GENERATION :: u64 where [simp, const_simps]: "FIXED_OBJECT_GENERATION = 1"
definition APPROVAL_REQUEST_KIND_COMMIT_SYNTHETIC_VALUE :: u64 where
  [simp, const_simps]: "APPROVAL_REQUEST_KIND_COMMIT_SYNTHETIC_VALUE = 1"
definition APPROVAL_ACTION_ID_COMMIT_SYNTHETIC_VALUE :: u64 where
  [simp, const_simps]: "APPROVAL_ACTION_ID_COMMIT_SYNTHETIC_VALUE = 1"
definition DECISION_DENY :: u64 where [simp, const_simps]: "DECISION_DENY = 0"
definition DECISION_APPROVE :: u64 where [simp, const_simps]: "DECISION_APPROVE = 1"
definition DECISION_EXPIRE :: u64 where [simp, const_simps]: "DECISION_EXPIRE = 2"
definition CR4_FSGSBASE :: u64 where [const_simps]: "CR4_FSGSBASE = push_bit 16 1"

definition OBJECT_TYPE_ENDPOINT :: u32 where [simp, const_simps]: "OBJECT_TYPE_ENDPOINT = 1"
definition OBJECT_TYPE_TASK_CONTROL :: u32 where [simp, const_simps]: "OBJECT_TYPE_TASK_CONTROL = 2"
definition OBJECT_TYPE_APPROVAL_BROKER :: u32 where
  [simp, const_simps]: "OBJECT_TYPE_APPROVAL_BROKER = 3"
definition OBJECT_TYPE_TEST_EFFECT :: u32 where [simp, const_simps]: "OBJECT_TYPE_TEST_EFFECT = 4"
definition OBJECT_TYPE_EFFECT_JOURNAL :: u32 where
  [simp, const_simps]: "OBJECT_TYPE_EFFECT_JOURNAL = 5"

definition version_one_cr4_allowed :: "u64 \<Rightarrow> bool" where
  "version_one_cr4_allowed cr4 \<longleftrightarrow> cr4 AND CR4_FSGSBASE = 0"


section \<open>Enumerations\<close>

datatype TaskState =
    TaskState_Staged
  | TaskState_Ready
  | TaskState_Running
  | TaskState_BlockedReceive
  | TaskState_BlockedApproval
  | TaskState_Exited
  | TaskState_Dead

datatype OwnerPhase =
    OwnerPhase_Inactive
  | OwnerPhase_Active
  | OwnerPhase_Teardown
  | OwnerPhase_Absent

fun owner_phase :: "TaskState \<Rightarrow> OwnerPhase" where
  "owner_phase TaskState_Staged = OwnerPhase_Inactive"
| "owner_phase TaskState_Ready = OwnerPhase_Inactive"
| "owner_phase TaskState_BlockedReceive = OwnerPhase_Inactive"
| "owner_phase TaskState_BlockedApproval = OwnerPhase_Inactive"
| "owner_phase TaskState_Running = OwnerPhase_Active"
| "owner_phase TaskState_Exited = OwnerPhase_Teardown"
| "owner_phase TaskState_Dead = OwnerPhase_Absent"

datatype TrapOperation =
    Op_Yield
  | Op_Send
  | Op_Receive
  | Op_Exit
  | Op_Duplicate
  | Op_Close
  | Op_StartWorkload
  | Op_SubmitApproval
  | Op_InspectApproval
  | Op_DecideApproval
  | Op_CommitEffect
  | Op_InspectEffectJournal
  | Op_ReadEffectRecord

definition TrapOperation_parse :: "u64 \<Rightarrow> TrapOperation option" where
  "TrapOperation_parse value =
     (if value = 0 then Some Op_Yield
      else if value = 1 then Some Op_Send
      else if value = 2 then Some Op_Receive
      else if value = 3 then Some Op_Exit
      else if value = 4 then Some Op_Duplicate
      else if value = 5 then Some Op_Close
      else if value = 6 then Some Op_StartWorkload
      else if value = 7 then Some Op_SubmitApproval
      else if value = 8 then Some Op_InspectApproval
      else if value = 9 then Some Op_DecideApproval
      else if value = 10 then Some Op_CommitEffect
      else if value = 11 then Some Op_InspectEffectJournal
      else if value = 12 then Some Op_ReadEffectRecord
      else None)"

datatype TrapStatus =
    Status_Ok
  | Status_InvalidOperation
  | Status_InvalidEndpoint
  | Status_WrongRole
  | Status_SlotFull
  | Status_PeerExited
  | Status_InvalidHandle
  | Status_WrongObject
  | Status_RightsDenied
  | Status_InvalidRights
  | Status_HandleTableFull
  | Status_GenerationExhausted
  | Status_InvalidManifest
  | Status_InvalidRequest
  | Status_BrokerFull
  | Status_ApprovalMismatch
  | Status_ApprovalDenied
  | Status_ApprovalExpired
  | Status_EffectUnavailable
  | Status_BrokerUnavailable
  | Status_AlreadyLaunched
  | Status_JournalFull
  | Status_JournalUnavailable
  | Status_InvalidRecord

text \<open>The discriminants: \<open>op as u64\<close> and \<open>status as u64\<close>.\<close>

fun operation_code :: "TrapOperation \<Rightarrow> u64" where
  "operation_code Op_Yield = 0"
| "operation_code Op_Send = 1"
| "operation_code Op_Receive = 2"
| "operation_code Op_Exit = 3"
| "operation_code Op_Duplicate = 4"
| "operation_code Op_Close = 5"
| "operation_code Op_StartWorkload = 6"
| "operation_code Op_SubmitApproval = 7"
| "operation_code Op_InspectApproval = 8"
| "operation_code Op_DecideApproval = 9"
| "operation_code Op_CommitEffect = 10"
| "operation_code Op_InspectEffectJournal = 11"
| "operation_code Op_ReadEffectRecord = 12"

fun status_number :: "TrapStatus \<Rightarrow> nat" where
  "status_number Status_Ok = 0"
| "status_number Status_InvalidOperation = 1"
| "status_number Status_InvalidEndpoint = 2"
| "status_number Status_WrongRole = 3"
| "status_number Status_SlotFull = 4"
| "status_number Status_PeerExited = 5"
| "status_number Status_InvalidHandle = 6"
| "status_number Status_WrongObject = 7"
| "status_number Status_RightsDenied = 8"
| "status_number Status_InvalidRights = 9"
| "status_number Status_HandleTableFull = 10"
| "status_number Status_GenerationExhausted = 11"
| "status_number Status_InvalidManifest = 12"
| "status_number Status_InvalidRequest = 13"
| "status_number Status_BrokerFull = 14"
| "status_number Status_ApprovalMismatch = 15"
| "status_number Status_ApprovalDenied = 16"
| "status_number Status_ApprovalExpired = 17"
| "status_number Status_EffectUnavailable = 18"
| "status_number Status_BrokerUnavailable = 19"
| "status_number Status_AlreadyLaunched = 20"
| "status_number Status_JournalFull = 21"
| "status_number Status_JournalUnavailable = 22"
| "status_number Status_InvalidRecord = 23"

definition status_code :: "TrapStatus \<Rightarrow> u64" where
  "status_code s = of_nat (status_number s)"

definition status_code32 :: "TrapStatus \<Rightarrow> u32" where
  "status_code32 s = of_nat (status_number s)"

datatype RuntimeError =
    Err_InvalidTask
  | Err_InvalidGeneration
  | Err_DuplicateGeneration
  | Err_WrongState
  | Err_NoRunningTask
  | Err_MultipleRunningTasks
  | Err_QueueFull
  | Err_DuplicateQueueMember
  | Err_InvalidQueueMember
  | Err_MissingQueueMember
  | Err_EndpointInvariant
  | Err_NoRunnableTask
  | Err_CapabilityInvariant
  | Err_ManifestInvariant
  | Err_BrokerInvariant
  | Err_EffectInvariant
  | Err_JournalInvariant
  | Err_PublicationFailure


section \<open>Facts about the ABI numbers\<close>

lemma parse_operation_code [simp]: "TrapOperation_parse (operation_code opn) = Some opn"
  by (cases opn) (simp_all add: TrapOperation_parse_def)

lemma parse_SomeD: "TrapOperation_parse v = Some opn \<Longrightarrow> v = operation_code opn"
  by (auto simp: TrapOperation_parse_def split: if_splits)

lemma status_number_less: "status_number s < 24"
  by (cases s) simp_all

lemma status_number_inj: "status_number s = status_number t \<Longrightarrow> s = t"
  by (cases s; cases t; simp)

lemma status_code_inj [simp]: "status_code s = status_code t \<longleftrightarrow> s = t"
proof
  assume "status_code s = status_code t"
  then have "unat (of_nat (status_number s) :: u64) = unat (of_nat (status_number t) :: u64)"
    by (simp add: status_code_def)
  then have "status_number s = status_number t"
    using status_number_less [of s] status_number_less [of t]
    by (simp add: unsigned_of_nat take_bit_nat_eq_self)
  then show "s = t" by (rule status_number_inj)
qed simp

lemma status_code_Ok [simp]: "status_code Status_Ok = 0"
  by (simp add: status_code_def)

lemma status_code_eq_0 [simp]: "status_code s = 0 \<longleftrightarrow> s = Status_Ok"
  using status_code_inj [of s Status_Ok] by simp

end
