(* ===== verification/Capability.thy ===== *)
theory Capability
  imports Runtime_Types
begin

text \<open>
  Task-local capability handles and tables: \<open>CapabilityHandleV1\<close>, \<open>CapabilitySlot\<close>,
  \<open>CapabilityTable\<close> and \<open>valid_rights\<close> of \<open>crates/task-runtime/src/lib.rs\<close>.
  The fixed array \<open>[CapabilitySlot; 16]\<close> is a list; \<open>table_shape\<close> states its length.
\<close>

section \<open>Handles\<close>

definition from_parts :: "nat \<Rightarrow> u64 \<Rightarrow> u64 option" where
  "from_parts slot generation =
     (if slot \<ge> CAPABILITY_SLOT_COUNT \<or> generation = 0 \<or> generation > CAPABILITY_GENERATION_MAX
      then None
      else Some (push_bit CAPABILITY_SLOT_BITS generation OR of_nat slot))"

definition handle_decode :: "u64 \<Rightarrow> (nat \<times> u64) option" where
  "handle_decode raw =
     (let generation = drop_bit CAPABILITY_SLOT_BITS raw
      in if generation = 0 then None else Some (unat (raw AND 15), generation))"


section \<open>Tables\<close>

datatype CapabilityTableState = Cap_Building | Cap_Live | Cap_Closing | Cap_Dead

record ObjectReference =
  or_id :: u64
  or_generation :: u64

record CapabilityEntry =
  ce_task_id :: u64
  ce_task_generation :: u64
  ce_object_type :: u32
  ce_rights :: u64
  ce_object :: ObjectReference

record CapabilitySlot =
  cs_generation :: u64
  cs_retired :: bool
  cs_entry :: "CapabilityEntry option"

definition CapabilitySlot_EMPTY :: CapabilitySlot where
  "CapabilitySlot_EMPTY = \<lparr>cs_generation = 1, cs_retired = False, cs_entry = None\<rparr>"

record CapabilityTable =
  ct_task_id :: u64
  ct_task_generation :: u64
  ct_state :: CapabilityTableState
  ct_slots :: "CapabilitySlot list"

record CapabilityTableSnapshot =
  cts_task_id :: u64
  cts_task_generation :: u64
  cts_state :: CapabilityTableState
  cts_live_slots :: nat
  cts_retired_slots :: nat

definition table_building :: "u64 \<Rightarrow> u64 \<Rightarrow> CapabilityTable" where
  "table_building task_id task_generation =
     \<lparr>ct_task_id = task_id, ct_task_generation = task_generation, ct_state = Cap_Building,
      ct_slots = replicate CAPABILITY_SLOT_COUNT CapabilitySlot_EMPTY\<rparr>"

definition table_dead :: CapabilityTable where
  "table_dead =
     \<lparr>ct_task_id = 0, ct_task_generation = 0, ct_state = Cap_Dead,
      ct_slots = replicate CAPABILITY_SLOT_COUNT CapabilitySlot_EMPTY\<rparr>"

definition table_snapshot :: "CapabilityTable \<Rightarrow> CapabilityTableSnapshot" where
  "table_snapshot t =
     \<lparr>cts_task_id = ct_task_id t, cts_task_generation = ct_task_generation t,
      cts_state = ct_state t,
      cts_live_slots = length (filter (\<lambda>s. cs_entry s \<noteq> None) (ct_slots t)),
      cts_retired_slots = length (filter cs_retired (ct_slots t))\<rparr>"

definition slot_available :: "CapabilitySlot \<Rightarrow> bool" where
  "slot_available s \<longleftrightarrow> cs_entry s = None \<and> \<not> cs_retired s"

definition available_slots :: "CapabilityTable \<Rightarrow> nat" where
  "available_slots t = length (filter slot_available (ct_slots t))"

definition valid_rights :: "u32 \<Rightarrow> u64 \<Rightarrow> bool" where
  "valid_rights object_type rights =
     (if rights = 0 \<or> rights AND NOT CAPABILITY_RIGHTS_V1 \<noteq> 0 then False
      else if object_type = OBJECT_TYPE_ENDPOINT then
        rights AND NOT (CAPABILITY_RIGHT_SEND OR CAPABILITY_RIGHT_RECEIVE OR CAPABILITY_RIGHT_DUPLICATE) = 0
      else if object_type = OBJECT_TYPE_TASK_CONTROL then rights = CAPABILITY_RIGHT_START
      else if object_type = OBJECT_TYPE_APPROVAL_BROKER then
        rights = CAPABILITY_RIGHT_SUBMIT_APPROVAL \<or> rights = CAPABILITY_RIGHT_DECIDE_APPROVAL
      else if object_type = OBJECT_TYPE_TEST_EFFECT then rights = CAPABILITY_RIGHT_COMMIT_EFFECT
      else if object_type = OBJECT_TYPE_EFFECT_JOURNAL then rights = CAPABILITY_RIGHT_READ_EFFECT_JOURNAL
      else False)"

definition table_allocate :: "CapabilityEntry \<Rightarrow> (CapabilityTable, TrapStatus, u64) action" where
  "table_allocate entry t =
     (case position slot_available (ct_slots t) of
        None \<Rightarrow>
          (Inl (if \<forall>s \<in> set (ct_slots t). cs_entry s \<noteq> None then Status_HandleTableFull
                else Status_GenerationExhausted), t)
      | Some index \<Rightarrow>
          (case from_parts index (cs_generation (ct_slots t ! index)) of
             None \<Rightarrow> (Inl Status_GenerationExhausted, t)
           | Some handle \<Rightarrow>
               (Inr handle,
                t\<lparr>ct_slots := (ct_slots t)[index := (ct_slots t ! index)\<lparr>cs_entry := Some entry\<rparr>]\<rparr>)))"

definition install_object_building ::
  "u32 \<Rightarrow> ObjectReference \<Rightarrow> u64 \<Rightarrow> (CapabilityTable, RuntimeError, u64) action" where
  "install_object_building object_type object rights t =
     (if ct_state t \<noteq> Cap_Building \<or> \<not> valid_rights object_type rights
         \<or> ct_task_id t = 0 \<or> ct_task_generation t = 0
         \<or> or_id object = 0 \<or> or_generation object = 0
      then (Inl Err_CapabilityInvariant, t)
      else
        (case table_allocate
                \<lparr>ce_task_id = ct_task_id t, ce_task_generation = ct_task_generation t,
                 ce_object_type = object_type, ce_rights = rights, ce_object = object\<rparr> t of
           (r, t') \<Rightarrow> (map_err (\<lambda>_. Err_CapabilityInvariant) r, t')))"

definition install_building :: "u64 \<Rightarrow> (CapabilityTable, RuntimeError, u64) action" where
  "install_building rights =
     install_object_building OBJECT_TYPE_ENDPOINT
       \<lparr>or_id = ENDPOINT_ID, or_generation = ENDPOINT_GENERATION\<rparr> rights"

definition table_publish :: "(CapabilityTable, RuntimeError, unit) action" where
  "table_publish t =
     (if ct_state t \<noteq> Cap_Building then (Inl Err_CapabilityInvariant, t)
      else (Inr (), t\<lparr>ct_state := Cap_Live\<rparr>))"

definition rollback_install :: "u64 \<Rightarrow> CapabilityTable \<Rightarrow> CapabilityTable" where
  "rollback_install raw t =
     (case handle_decode raw of
        None \<Rightarrow> t
      | Some (index, generation) \<Rightarrow>
          (if cs_generation (ct_slots t ! index) = generation
           then t\<lparr>ct_slots := (ct_slots t)[index := (ct_slots t ! index)\<lparr>cs_entry := None\<rparr>]\<rparr>
           else t))"

definition resolve_typed ::
  "CapabilityTable \<Rightarrow> u64 \<Rightarrow> u64 \<Rightarrow> u64 \<Rightarrow> u32 \<Rightarrow> u64 \<Rightarrow> TrapStatus + CapabilityEntry" where
  "resolve_typed t task_id task_generation raw object_type required_right =
     (if ct_state t \<noteq> Cap_Live \<or> ct_task_id t \<noteq> task_id \<or> ct_task_generation t \<noteq> task_generation
      then Inl Status_InvalidHandle
      else
        (case handle_decode raw of
           None \<Rightarrow> Inl Status_InvalidHandle
         | Some (index, generation) \<Rightarrow>
             (let slot = ct_slots t ! index
              in if cs_retired slot \<or> cs_generation slot \<noteq> generation then Inl Status_InvalidHandle
                 else
                   (case cs_entry slot of
                      None \<Rightarrow> Inl Status_InvalidHandle
                    | Some entry \<Rightarrow>
                        (if ce_task_id entry \<noteq> task_id \<or> ce_task_generation entry \<noteq> task_generation
                         then Inl Status_InvalidHandle
                         else if ce_object_type entry \<noteq> object_type then Inl Status_WrongObject
                         else if ce_rights entry AND required_right = 0 then Inl Status_RightsDenied
                         else Inr entry)))))"

definition resolve ::
  "CapabilityTable \<Rightarrow> u64 \<Rightarrow> u64 \<Rightarrow> u64 \<Rightarrow> u64 \<Rightarrow> TrapStatus + CapabilityEntry" where
  "resolve t task_id task_generation raw required_right =
     resolve_typed t task_id task_generation raw OBJECT_TYPE_ENDPOINT required_right"

definition table_duplicate ::
  "u64 \<Rightarrow> u64 \<Rightarrow> u64 \<Rightarrow> u64 \<Rightarrow> (CapabilityTable, TrapStatus, u64) action" where
  "table_duplicate task_id task_generation source requested_rights t =
     (case resolve_typed t task_id task_generation source OBJECT_TYPE_ENDPOINT
             CAPABILITY_RIGHT_DUPLICATE of
        Inl status \<Rightarrow> (Inl status, t)
      | Inr entry \<Rightarrow>
          (if \<not> valid_rights OBJECT_TYPE_ENDPOINT requested_rights
              \<or> requested_rights AND NOT (ce_rights entry) \<noteq> 0
           then (Inl Status_InvalidRights, t)
           else table_allocate (entry\<lparr>ce_rights := requested_rights\<rparr>) t))"

definition remove_entry :: "CapabilitySlot \<Rightarrow> CapabilitySlot" where
  "remove_entry slot =
     (if cs_generation slot = CAPABILITY_GENERATION_MAX
      then slot\<lparr>cs_entry := None, cs_retired := True\<rparr>
      else slot\<lparr>cs_entry := None, cs_generation := cs_generation slot + 1\<rparr>)"

definition table_close :: "u64 \<Rightarrow> u64 \<Rightarrow> u64 \<Rightarrow> (CapabilityTable, TrapStatus, unit) action" where
  "table_close task_id task_generation raw t =
     (if ct_state t \<noteq> Cap_Live \<or> ct_task_id t \<noteq> task_id \<or> ct_task_generation t \<noteq> task_generation
      then (Inl Status_InvalidHandle, t)
      else
        (case handle_decode raw of
           None \<Rightarrow> (Inl Status_InvalidHandle, t)
         | Some (index, generation) \<Rightarrow>
             (let slot = ct_slots t ! index
              in if cs_retired slot \<or> cs_generation slot \<noteq> generation \<or> cs_entry slot = None
                 then (Inl Status_InvalidHandle, t)
                 else (Inr (), t\<lparr>ct_slots := (ct_slots t)[index := remove_entry slot]\<rparr>))))"

definition mark_closing :: "(CapabilityTable, RuntimeError, unit) action" where
  "mark_closing t =
     (if ct_state t \<noteq> Cap_Live then (Inl Err_WrongState, t)
      else (Inr (), t\<lparr>ct_state := Cap_Closing\<rparr>))"

definition close_all :: "(CapabilityTable, RuntimeError, unit) action" where
  "close_all t =
     (if ct_state t \<noteq> Cap_Closing then (Inl Err_WrongState, t)
      else
        (let t' = t\<lparr>ct_slots := map (\<lambda>s. if cs_entry s \<noteq> None then remove_entry s else s) (ct_slots t)\<rparr>
         in if \<exists>s \<in> set (ct_slots t'). cs_entry s \<noteq> None then (Inl Err_CapabilityInvariant, t')
            else (Inr (), t')))"

definition begin_closing :: "(CapabilityTable, RuntimeError, unit) action" where
  "begin_closing = act_then mark_closing close_all"

definition finish_dead :: "(CapabilityTable, RuntimeError, unit) action" where
  "finish_dead t =
     (if ct_state t \<noteq> Cap_Closing \<or> (\<exists>s \<in> set (ct_slots t). cs_entry s \<noteq> None)
      then (Inl Err_WrongState, t)
      else (Inr (), table_dead))"

definition slot_invalid :: "CapabilityTable \<Rightarrow> CapabilitySlot \<Rightarrow> bool" where
  "slot_invalid t slot =
     (if cs_generation slot = 0 \<or> cs_generation slot > CAPABILITY_GENERATION_MAX then True
      else if cs_retired slot \<and> cs_entry slot \<noteq> None then True
      else
        (case cs_entry slot of
           None \<Rightarrow> False
         | Some entry \<Rightarrow>
             ce_task_id entry \<noteq> ct_task_id t
             \<or> ce_task_generation entry \<noteq> ct_task_generation t
             \<or> ce_object_type entry = 0
             \<or> \<not> valid_rights (ce_object_type entry) (ce_rights entry)
             \<or> or_id (ce_object entry) = 0
             \<or> or_generation (ce_object entry) = 0))"

definition table_validate :: "CapabilityTable \<Rightarrow> RuntimeError + unit" where
  "table_validate t =
     (if ct_state t = Cap_Dead then
        (if ct_task_id t \<noteq> 0 \<or> ct_task_generation t \<noteq> 0
            \<or> ct_slots t \<noteq> replicate CAPABILITY_SLOT_COUNT CapabilitySlot_EMPTY
         then Inl Err_CapabilityInvariant else Inr ())
      else if ct_task_id t = 0 \<or> ct_task_generation t = 0 then Inl Err_CapabilityInvariant
      else if ct_state t = Cap_Closing \<and> (\<exists>s \<in> set (ct_slots t). cs_entry s \<noteq> None)
      then Inl Err_CapabilityInvariant
      else if \<exists>s \<in> set (ct_slots t). slot_invalid t s then Inl Err_CapabilityInvariant
      else Inr ())"


lemma generation_max_unat: "unat CAPABILITY_GENERATION_MAX = 2 ^ 60 - 1"
  by (simp add: CAPABILITY_GENERATION_MAX_def)

lemma handle_index_less: "unat ((raw :: u64) AND 15) < 16"
proof -
  have "unat (raw AND 15) \<le> unat (15 :: u64)"
    by (rule word_and_le1 [THEN word_le_nat_alt [THEN iffD1]])
  then show ?thesis by simp
qed

lemma handle_decode_SomeD:
  "handle_decode raw = Some (i, g) \<Longrightarrow> i < 16 \<and> g \<noteq> 0 \<and> g = drop_bit 4 raw \<and> i = unat (raw AND 15)"
  by (auto simp: handle_decode_def Let_def handle_index_less split: if_splits)

lemma low_bits_of_nat: "i < 16 \<Longrightarrow> (of_nat i :: u64) = take_bit 4 (of_nat i)"
  by (simp add: take_bit_of_nat take_bit_nat_eq_self)

lemma and_15_take_bit: "(w :: u64) AND 15 = take_bit 4 w"
  by (simp add: take_bit_eq_mask mask_eq_exp_minus_1)

lemma generation_take_bit: "g \<le> CAPABILITY_GENERATION_MAX \<Longrightarrow> take_bit 60 g = g"
  by (simp add: word_unat_eq_iff unsigned_take_bit_eq word_le_nat_alt generation_max_unat
      take_bit_nat_eq_self)

lemma handle_decode_from_parts:
  assumes "from_parts i g = Some h"
  shows "handle_decode h = Some (i, g)"
proof -
  from assms have i: "i < 16" and g: "g \<noteq> 0" "g \<le> CAPABILITY_GENERATION_MAX"
    and h: "h = push_bit 4 g OR of_nat i"
    by (auto simp: from_parts_def split: if_splits)
  have "drop_bit 4 h = g"
  proof (rule bit_eqI)
    fix n
    have "bit (of_nat i :: u64) (4 + n) = False"
      by (subst low_bits_of_nat [OF i]) (simp add: bit_take_bit_iff)
    moreover have "bit g n \<longleftrightarrow> n < 60 \<and> bit g n"
      using generation_take_bit [OF g(2)] by (metis bit_take_bit_iff)
    ultimately show "bit (drop_bit 4 h) n = bit g n"
      by (auto simp: h bit_simps)
  qed
  moreover have "h AND 15 = of_nat i"
  proof (rule bit_eqI)
    fix n
    have "bit (of_nat i :: u64) n \<longleftrightarrow> n < 4 \<and> bit (of_nat i :: u64) n"
      by (subst (1 2) low_bits_of_nat [OF i]) (auto simp: bit_take_bit_iff)
    then show "bit (h AND 15) n = bit (of_nat i :: u64) n"
      unfolding and_15_take_bit h by (auto simp: bit_simps)
  qed
  ultimately show ?thesis
    using i g by (simp add: handle_decode_def unsigned_of_nat take_bit_nat_eq_self)
qed

lemma drop_bit_generation_max: "drop_bit 4 (raw :: u64) \<le> CAPABILITY_GENERATION_MAX"
proof -
  have "unat raw < 2 ^ 64" using unsigned_less [of raw] by simp
  then have "unat raw div 16 \<le> 2 ^ 60 - 1" by (simp add: less_mult_imp_div_less)
  then show ?thesis
    by (simp add: word_le_nat_alt generation_max_unat drop_bit_eq_div unat_div)
qed

lemma from_parts_handle_decode:
  assumes "handle_decode raw = Some (i, g)"
  shows "from_parts i g = Some raw"
proof -
  note d = handle_decode_SomeD [OF assms]
  have "push_bit 4 g OR of_nat i = raw"
  proof -
    have "push_bit 4 (drop_bit 4 raw) OR take_bit 4 raw = raw"
      by (rule bit_eqI) (auto simp: bit_simps)
    with d show ?thesis by (simp add: and_15_take_bit)
  qed
  moreover have "i < 16" "g \<noteq> 0" "g \<le> CAPABILITY_GENERATION_MAX"
    using d drop_bit_generation_max [of raw] by auto
  ultimately show ?thesis
    by (simp add: from_parts_def not_less)
qed

section \<open>Well-formed tables\<close>

definition table_shape :: "CapabilityTable \<Rightarrow> bool" where
  "table_shape t \<longleftrightarrow> length (ct_slots t) = CAPABILITY_SLOT_COUNT"

definition table_ok :: "CapabilityTable \<Rightarrow> bool" where
  "table_ok t \<longleftrightarrow> table_shape t \<and> table_validate t = Inr ()"

text \<open>The entry a raw handle designates, and the handles that have been closed.\<close>

definition live_entry :: "CapabilityTable \<Rightarrow> u64 \<Rightarrow> CapabilityEntry option" where
  "live_entry t raw =
     (case handle_decode raw of
        None \<Rightarrow> None
      | Some (i, g) \<Rightarrow>
          (if cs_retired (ct_slots t ! i) \<or> cs_generation (ct_slots t ! i) \<noteq> g then None
           else cs_entry (ct_slots t ! i)))"

definition spent_handle :: "CapabilityTable \<Rightarrow> u64 \<Rightarrow> bool" where
  "spent_handle t raw =
     (case handle_decode raw of
        None \<Rightarrow> False
      | Some (i, g) \<Rightarrow> cs_retired (ct_slots t ! i) \<or> g < cs_generation (ct_slots t ! i))"

lemma slot_invalid_cong:
  "ct_task_id t = ct_task_id u \<Longrightarrow> ct_task_generation t = ct_task_generation u \<Longrightarrow>
   slot_invalid t s = slot_invalid u s"
  by (simp add: slot_invalid_def split: option.splits)

lemma table_validate_live_iff:
  "ct_state t = Cap_Live \<or> ct_state t = Cap_Building \<Longrightarrow>
   table_validate t = Inr () \<longleftrightarrow>
     ct_task_id t \<noteq> 0 \<and> ct_task_generation t \<noteq> 0 \<and> (\<forall>s \<in> set (ct_slots t). \<not> slot_invalid t s)"
  by (auto simp: table_validate_def)

lemma table_validate_closing_iff:
  "ct_state t = Cap_Closing \<Longrightarrow>
   table_validate t = Inr () \<longleftrightarrow>
     ct_task_id t \<noteq> 0 \<and> ct_task_generation t \<noteq> 0 \<and> (\<forall>s \<in> set (ct_slots t). cs_entry s = None)
     \<and> (\<forall>s \<in> set (ct_slots t). \<not> slot_invalid t s)"
  by (auto simp: table_validate_def)

lemma table_validate_dead_iff:
  "ct_state t = Cap_Dead \<Longrightarrow> table_validate t = Inr () \<longleftrightarrow> t = table_dead"
  by (auto simp: table_validate_def table_dead_def)

lemma table_ok_dead [simp]: "table_ok table_dead"
  by (simp add: table_ok_def table_shape_def table_validate_def table_dead_def)

lemma table_ok_building:
  "task \<noteq> 0 \<Longrightarrow> generation \<noteq> 0 \<Longrightarrow> table_ok (table_building task generation)"
  by (auto simp: table_ok_def table_shape_def table_validate_def table_building_def slot_invalid_def
      CapabilitySlot_EMPTY_def CAPABILITY_GENERATION_MAX_def)

lemma table_okD_slot:
  assumes "table_ok t" "i < 16" "ct_state t \<noteq> Cap_Dead"
  shows "\<not> slot_invalid t (ct_slots t ! i)"
  using assms
  by (cases "ct_state t")
    (auto simp: table_ok_def table_shape_def table_validate_live_iff table_validate_closing_iff)

lemma slot_validD:
  assumes "\<not> slot_invalid t s"
  shows "cs_generation s \<noteq> 0" "cs_generation s \<le> CAPABILITY_GENERATION_MAX"
    and "cs_entry s = Some e \<Longrightarrow>
      \<not> cs_retired s \<and> ce_task_id e = ct_task_id t \<and> ce_task_generation e = ct_task_generation t
      \<and> valid_rights (ce_object_type e) (ce_rights e) \<and> or_id (ce_object e) \<noteq> 0
      \<and> or_generation (ce_object e) \<noteq> 0"
  using assms by (auto simp: slot_invalid_def not_less split: if_splits)

lemma remove_entry_valid: "\<not> slot_invalid t s \<Longrightarrow> \<not> slot_invalid t (remove_entry s)"
proof -
  assume s: "\<not> slot_invalid t s"
  note sv = slot_validD(1,2) [OF s]
  show ?thesis
  proof (cases "cs_generation s = CAPABILITY_GENERATION_MAX")
    case True
    with sv show ?thesis by (simp add: remove_entry_def slot_invalid_def)
  next
    case False
    with sv have lt: "unat (cs_generation s) < 2 ^ 60 - 1"
      by (simp add: word_le_nat_alt word_unat_eq_iff generation_max_unat)
    then have "unat (cs_generation s + 1) = unat (cs_generation s) + 1"
      by (simp add: unat_word_ariths)
    with lt have "cs_generation s + 1 \<noteq> 0" "cs_generation s + 1 \<le> CAPABILITY_GENERATION_MAX"
      by (auto simp: word_le_nat_alt word_unat_eq_iff generation_max_unat)
    with False show ?thesis by (simp add: remove_entry_def slot_invalid_def)
  qed
qed

lemma remove_entry_generation:
  assumes "\<not> slot_invalid t s"
  shows "cs_generation s \<le> cs_generation (remove_entry s)"
    and "cs_retired (remove_entry s) \<or> cs_generation s < cs_generation (remove_entry s)"
proof -
  note sv = slot_validD(1,2) [OF assms]
  have "cs_generation s \<noteq> CAPABILITY_GENERATION_MAX \<Longrightarrow> cs_generation s < cs_generation s + 1"
  proof -
    assume "cs_generation s \<noteq> CAPABILITY_GENERATION_MAX"
    with sv have "unat (cs_generation s) < 2 ^ 60 - 1"
      by (simp add: word_le_nat_alt word_unat_eq_iff generation_max_unat)
    then show ?thesis by (simp add: word_less_nat_alt unat_word_ariths)
  qed
  then show "cs_generation s \<le> cs_generation (remove_entry s)"
    and "cs_retired (remove_entry s) \<or> cs_generation s < cs_generation (remove_entry s)"
    by (auto simp: remove_entry_def)
qed

lemma remove_entry_entry [simp]: "cs_entry (remove_entry s) = None"
  by (simp add: remove_entry_def)

section \<open>Allocation\<close>

lemma table_allocate_InlD: "table_allocate e t = (Inl s, t') \<Longrightarrow> t' = t"
  by (auto simp: table_allocate_def split: option.splits)

lemma table_allocate_InrD:
  assumes "table_allocate e t = (Inr h, t')"
  obtains i where "i < length (ct_slots t)" "slot_available (ct_slots t ! i)"
    "handle_decode h = Some (i, cs_generation (ct_slots t ! i))"
    "t' = t\<lparr>ct_slots := (ct_slots t)[i := (ct_slots t ! i)\<lparr>cs_entry := Some e\<rparr>]\<rparr>"
  using assms
  by (auto simp: table_allocate_def dest!: position_SomeD handle_decode_from_parts split: option.splits)

lemma slot_update_ok:
  assumes "table_ok t" "ct_state t = Cap_Live \<or> ct_state t = Cap_Building" "i < 16"
    and "\<not> slot_invalid t s"
  shows "table_ok (t\<lparr>ct_slots := (ct_slots t)[i := s]\<rparr>)"
proof -
  let ?u = "t\<lparr>ct_slots := (ct_slots t)[i := s]\<rparr>"
  have "slot_invalid ?u x = slot_invalid t x" for x
    by (rule slot_invalid_cong) simp_all
  moreover have "\<forall>x \<in> set ((ct_slots t)[i := s]). \<not> slot_invalid t x"
    using assms set_update_subset_insert [of "ct_slots t" i s]
    by (auto simp: table_ok_def table_validate_live_iff)
  ultimately show ?thesis
    using assms by (simp add: table_ok_def table_shape_def table_validate_live_iff)
qed

lemma table_allocate_ok:
  assumes "table_ok t" "ct_state t = Cap_Live \<or> ct_state t = Cap_Building"
    and "ce_task_id e = ct_task_id t" "ce_task_generation e = ct_task_generation t"
    and "valid_rights (ce_object_type e) (ce_rights e)"
    and "or_id (ce_object e) \<noteq> 0" "or_generation (ce_object e) \<noteq> 0"
  shows "table_ok (snd (table_allocate e t))"
proof (cases "table_allocate e t")
  case (Pair r t')
  show ?thesis
  proof (cases r)
    case (Inl s)
    with Pair assms(1) show ?thesis by (auto dest: table_allocate_InlD)
  next
    case (Inr h)
    with Pair obtain i where i: "i < length (ct_slots t)" "slot_available (ct_slots t ! i)"
      and t': "t' = t\<lparr>ct_slots := (ct_slots t)[i := (ct_slots t ! i)\<lparr>cs_entry := Some e\<rparr>]\<rparr>"
      by (auto elim: table_allocate_InrD)
    from assms(1) i(1) have i16: "i < 16" by (simp add: table_ok_def table_shape_def)
    have "\<not> slot_invalid t (ct_slots t ! i)"
      using assms(2) table_okD_slot [OF assms(1) i16] by auto
    moreover have "ce_object_type e \<noteq> 0"
      using assms(5) by (simp add: valid_rights_def split: if_splits)
    ultimately have "\<not> slot_invalid t ((ct_slots t ! i)\<lparr>cs_entry := Some e\<rparr>)"
      using assms i(2) by (auto simp: slot_invalid_def slot_available_def split: if_splits)
    then show ?thesis
      using slot_update_ok [OF assms(1,2) i16] Pair t' by simp
  qed
qed


section \<open>Authority: the table as a map from handles to entries\<close>

lemma live_entry_update:
  "i < length (ct_slots t) \<Longrightarrow>
   live_entry (t\<lparr>ct_slots := (ct_slots t)[i := s]\<rparr>) raw =
     (case handle_decode raw of
        None \<Rightarrow> None
      | Some (j, g) \<Rightarrow>
          if j = i then (if cs_retired s \<or> cs_generation s \<noteq> g then None else cs_entry s)
          else live_entry t raw)"
  by (auto simp: live_entry_def split: option.splits)

lemma handle_decode_inj:
  "handle_decode h = Some p \<Longrightarrow> handle_decode h' = Some p \<Longrightarrow> h = h'"
  by (cases p) (metis from_parts_handle_decode option.inject)

lemma allocate_live_entry:
  assumes "table_allocate e t = (Inr h, t')" "table_ok t"
  shows "live_entry t h = None" "live_entry t' = (live_entry t)(h \<mapsto> e)"
proof -
  from assms(1) obtain i where i: "i < length (ct_slots t)" "slot_available (ct_slots t ! i)"
    and h: "handle_decode h = Some (i, cs_generation (ct_slots t ! i))"
    and t': "t' = t\<lparr>ct_slots := (ct_slots t)[i := (ct_slots t ! i)\<lparr>cs_entry := Some e\<rparr>]\<rparr>"
    by (rule table_allocate_InrD)
  show "live_entry t h = None"
    using i(2) h by (simp add: live_entry_def slot_available_def)
  show "live_entry t' = (live_entry t)(h \<mapsto> e)"
  proof
    fix raw
    show "live_entry t' raw = ((live_entry t)(h \<mapsto> e)) raw"
    proof (cases "handle_decode raw")
      case None
      then have "raw \<noteq> h" using h by auto
      with None show ?thesis by (simp add: live_entry_def)
    next
      case (Some p)
      then obtain j g where d: "handle_decode raw = Some (j, g)" by (cases p) auto
      show ?thesis
      proof (cases "j = i \<and> g = cs_generation (ct_slots t ! i)")
        case True
        then have "raw = h" using d h handle_decode_inj by blast
        with True d i show ?thesis by (simp add: t' live_entry_update slot_available_def)
      next
        case False
        then have "raw \<noteq> h" using d h by auto
        with False d i show ?thesis
          by (cases "j = i") (simp_all add: t' live_entry_update live_entry_def)
      qed
    qed
  qed
qed

lemma allocate_spent:
  assumes "table_allocate e t = (Inr h, t')" "table_ok t"
  shows "\<not> spent_handle t h" "spent_handle t' = spent_handle t"
proof -
  from assms(1) obtain i where i: "i < length (ct_slots t)" "slot_available (ct_slots t ! i)"
    and h: "handle_decode h = Some (i, cs_generation (ct_slots t ! i))"
    and t': "t' = t\<lparr>ct_slots := (ct_slots t)[i := (ct_slots t ! i)\<lparr>cs_entry := Some e\<rparr>]\<rparr>"
    by (rule table_allocate_InrD)
  show "\<not> spent_handle t h"
    using i(2) h by (simp add: spent_handle_def slot_available_def)
  show "spent_handle t' = spent_handle t"
    using i by (auto simp: t' spent_handle_def nth_list_update fun_eq_iff split: option.splits)
qed

lemma allocate_frame:
  assumes "table_allocate e t = (r, t')"
  shows "ct_state t' = ct_state t" "ct_task_id t' = ct_task_id t"
    "ct_task_generation t' = ct_task_generation t"
  using assms by (auto simp: table_allocate_def split: option.splits)

lemma resolve_typed_eq_Inr:
  "resolve_typed t task gen raw ty r = Inr e \<longleftrightarrow>
     ct_state t = Cap_Live \<and> ct_task_id t = task \<and> ct_task_generation t = gen
     \<and> live_entry t raw = Some e \<and> ce_task_id e = task \<and> ce_task_generation e = gen
     \<and> ce_object_type e = ty \<and> ce_rights e AND r \<noteq> 0"
  by (auto simp: resolve_typed_def live_entry_def Let_def split: option.splits if_splits)

lemma resolve_typed_dead_handle:
  "live_entry t raw = None \<Longrightarrow> resolve_typed t task gen raw ty r = Inl Status_InvalidHandle"
  by (auto simp: resolve_typed_def live_entry_def Let_def split: option.splits if_splits)

lemma duplicate_InlD: "table_duplicate task gen src rights t = (Inl s, t') \<Longrightarrow> t' = t"
  by (auto simp: table_duplicate_def dest: table_allocate_InlD split: sum.splits if_splits)

lemma duplicate_InrD:
  assumes "table_duplicate task gen src rights t = (Inr h, t')"
  obtains e where "resolve_typed t task gen src OBJECT_TYPE_ENDPOINT CAPABILITY_RIGHT_DUPLICATE = Inr e"
    "valid_rights OBJECT_TYPE_ENDPOINT rights" "rights_subset rights (ce_rights e)"
    "table_allocate (e\<lparr>ce_rights := rights\<rparr>) t = (Inr h, t')"
  using assms by (auto simp: table_duplicate_def rights_subset_def split: sum.splits if_splits)

lemma live_entry_slot:
  assumes "table_ok t" "ct_state t \<noteq> Cap_Dead" "live_entry t raw = Some e"
  shows "ce_task_id e = ct_task_id t" "ce_task_generation e = ct_task_generation t"
    "valid_rights (ce_object_type e) (ce_rights e)" "or_id (ce_object e) \<noteq> 0"
    "or_generation (ce_object e) \<noteq> 0"
proof -
  from assms(3) obtain i g where d: "handle_decode raw = Some (i, g)"
    and s: "cs_entry (ct_slots t ! i) = Some e"
    by (auto simp: live_entry_def split: option.splits if_splits)
  from d have "i < 16" by (auto dest: handle_decode_SomeD)
  with assms have "\<not> slot_invalid t (ct_slots t ! i)" by (simp add: table_okD_slot)
  from slot_validD(3) [OF this s]
  show "ce_task_id e = ct_task_id t" "ce_task_generation e = ct_task_generation t"
    "valid_rights (ce_object_type e) (ce_rights e)" "or_id (ce_object e) \<noteq> 0"
    "or_generation (ce_object e) \<noteq> 0" by auto
qed

lemma duplicate_ok:
  assumes "table_ok t" "table_duplicate task gen src rights t = (r, t')"
  shows "table_ok t'"
proof (cases r)
  case (Inl s)
  with assms show ?thesis by (auto dest: duplicate_InlD)
next
  case (Inr h)
  with assms(2) obtain e
    where e: "resolve_typed t task gen src OBJECT_TYPE_ENDPOINT CAPABILITY_RIGHT_DUPLICATE = Inr e"
    and v: "valid_rights OBJECT_TYPE_ENDPOINT rights"
    and a: "table_allocate (e\<lparr>ce_rights := rights\<rparr>) t = (Inr h, t')"
    by (auto elim: duplicate_InrD)
  from e have live: "ct_state t = Cap_Live" "live_entry t src = Some e"
    "ce_object_type e = OBJECT_TYPE_ENDPOINT"
    by (auto simp: resolve_typed_eq_Inr)
  have nd: "ct_state t \<noteq> Cap_Dead" using live by simp
  note le = live_entry_slot [OF assms(1) nd live(2)]
  have "table_ok (snd (table_allocate (e\<lparr>ce_rights := rights\<rparr>) t))"
    by (rule table_allocate_ok) (use assms(1) live le v in simp_all)
  with a show ?thesis by simp
qed

lemma close_InrD:
  assumes "table_close task gen raw t = (Inr (), t')"
  obtains i where "ct_state t = Cap_Live" "handle_decode raw = Some (i, cs_generation (ct_slots t ! i))"
    "\<not> cs_retired (ct_slots t ! i)" "cs_entry (ct_slots t ! i) \<noteq> None"
    "t' = t\<lparr>ct_slots := (ct_slots t)[i := remove_entry (ct_slots t ! i)]\<rparr>"
  using assms by (auto simp: table_close_def Let_def split: option.splits if_splits)

lemma close_InlD: "table_close task gen raw t = (Inl s, t') \<Longrightarrow> t' = t"
  by (auto simp: table_close_def Let_def split: option.splits if_splits)

lemma close_ok:
  assumes "table_ok t" "table_close task gen raw t = (r, t')"
  shows "table_ok t'"
proof (cases r)
  case (Inl s)
  with assms show ?thesis by (auto dest: close_InlD)
next
  case (Inr u)
  with assms(2) obtain i where i: "ct_state t = Cap_Live"
    "handle_decode raw = Some (i, cs_generation (ct_slots t ! i))"
    and t': "t' = t\<lparr>ct_slots := (ct_slots t)[i := remove_entry (ct_slots t ! i)]\<rparr>"
    by (auto elim: close_InrD)
  have i16: "i < 16" using i(2) by (auto dest: handle_decode_SomeD)
  have "\<not> slot_invalid t (remove_entry (ct_slots t ! i))"
    using table_okD_slot [OF assms(1) i16] i(1) by (simp add: remove_entry_valid)
  then show ?thesis
    using slot_update_ok [OF assms(1) _ i16] i(1) by (simp add: t')
qed

lemma close_live_entry:
  assumes "table_ok t" "table_close task gen raw t = (Inr (), t')"
  shows "live_entry t raw \<noteq> None" "live_entry t' = (live_entry t)(raw := None)"
    "spent_handle t' raw" "spent_handle t h \<Longrightarrow> spent_handle t' h"
proof -
  from assms(2) obtain i where i: "ct_state t = Cap_Live"
    "handle_decode raw = Some (i, cs_generation (ct_slots t ! i))"
    "\<not> cs_retired (ct_slots t ! i)" "cs_entry (ct_slots t ! i) \<noteq> None"
    and t': "t' = t\<lparr>ct_slots := (ct_slots t)[i := remove_entry (ct_slots t ! i)]\<rparr>"
    by (rule close_InrD)
  have i16: "i < 16" using i(2) by (auto dest: handle_decode_SomeD)
  then have il: "i < length (ct_slots t)" using assms(1) by (simp add: table_ok_def table_shape_def)
  have valid: "\<not> slot_invalid t (ct_slots t ! i)"
    using table_okD_slot [OF assms(1) i16] i(1) by simp
  note gen = remove_entry_generation [OF valid]
  show "live_entry t raw \<noteq> None" using i by (simp add: live_entry_def)
  show "live_entry t' = (live_entry t)(raw := None)"
  proof
    fix h
    show "live_entry t' h = ((live_entry t)(raw := None)) h"
    proof (cases "handle_decode h")
      case None
      then show ?thesis by (simp add: live_entry_def)
    next
      case (Some p)
      then obtain j g where d: "handle_decode h = Some (j, g)" by (cases p) auto
      show ?thesis
      proof (cases "j = i \<and> g = cs_generation (ct_slots t ! i)")
        case True
        then have "h = raw" using d i(2) handle_decode_inj by blast
        with True d il show ?thesis by (simp add: t' live_entry_update)
      next
        case False
        then have "h \<noteq> raw" using d i(2) by auto
        with False d il show ?thesis
          by (cases "j = i") (auto simp: t' live_entry_update live_entry_def)
      qed
    qed
  qed
  show "spent_handle t' raw" using i il gen by (auto simp: t' spent_handle_def)
  show "spent_handle t h \<Longrightarrow> spent_handle t' h"
    using i(3) il gen(1)
    by (auto simp: t' spent_handle_def nth_list_update split: option.splits intro: less_le_trans)
qed

lemma spent_not_live:
  "spent_handle t raw \<Longrightarrow> live_entry t raw = None"
  by (auto simp: spent_handle_def live_entry_def split: option.splits if_splits)

section \<open>The authority contract\<close>

text \<open>
  What a client of a capability store relies on: the store is a finite map from raw handles to
  entries together with a growing set of spent handles.  Duplication adds one fresh handle whose
  entry carries a subset of the rights of an existing entry; closing removes one handle and spends it.
\<close>

definition derived_entry :: "CapabilityEntry \<Rightarrow> CapabilityEntry \<Rightarrow> bool" where
  "derived_entry e0 e \<longleftrightarrow>
     ce_task_id e = ce_task_id e0 \<and> ce_task_generation e = ce_task_generation e0
     \<and> ce_object_type e = ce_object_type e0 \<and> ce_object e = ce_object e0
     \<and> rights_subset (ce_rights e) (ce_rights e0)"

lemma derived_entry_refl [simp]: "derived_entry e e"
  by (simp add: derived_entry_def)

lemma derived_entry_trans: "derived_entry e0 e1 \<Longrightarrow> derived_entry e1 e2 \<Longrightarrow> derived_entry e0 e2"
  by (auto simp: derived_entry_def intro: rights_subset_trans)

datatype authority_command = Authority_Duplicate u64 u64 | Authority_Close u64

locale authority_store =
  fixes invar :: "'t \<Rightarrow> bool"
    and entry_of :: "'t \<Rightarrow> u64 \<Rightarrow> CapabilityEntry option"
    and spent :: "'t \<Rightarrow> u64 \<Rightarrow> bool"
    and dup :: "u64 \<Rightarrow> u64 \<Rightarrow> ('t, TrapStatus, u64) action"
    and cls :: "u64 \<Rightarrow> ('t, TrapStatus, unit) action"
  assumes dup_Inr: "invar t \<Longrightarrow> dup src rights t = (Inr h, t') \<Longrightarrow>
      invar t' \<and> entry_of t h = None \<and> \<not> spent t h \<and> spent t' = spent t
      \<and> (\<exists>e. entry_of t src = Some e \<and> rights_subset rights (ce_rights e)
             \<and> entry_of t' = (entry_of t)(h \<mapsto> e\<lparr>ce_rights := rights\<rparr>))"
    and dup_Inl: "dup src rights t = (Inl s, t') \<Longrightarrow> t' = t"
    and cls_Inr: "invar t \<Longrightarrow> cls h t = (Inr (), t') \<Longrightarrow>
      invar t' \<and> entry_of t h \<noteq> None \<and> entry_of t' = (entry_of t)(h := None)
      \<and> spent t' h \<and> (\<forall>k. spent t k \<longrightarrow> spent t' k)"
    and cls_Inl: "cls h t = (Inl s, t') \<Longrightarrow> t' = t"
    and spent_dead: "spent t h \<Longrightarrow> entry_of t h = None"
begin

definition attenuates :: "'t \<Rightarrow> 't \<Rightarrow> bool" where
  "attenuates t t' \<longleftrightarrow>
     (\<forall>raw e. entry_of t' raw = Some e \<longrightarrow>
        (\<exists>raw0 e0. entry_of t raw0 = Some e0 \<and> derived_entry e0 e))"

primrec exec :: "authority_command \<Rightarrow> 't \<Rightarrow> 't" where
  "exec (Authority_Duplicate src rights) t = snd (dup src rights t)"
| "exec (Authority_Close h) t = snd (cls h t)"

lemma attenuates_refl: "attenuates t t"
  unfolding attenuates_def by (metis derived_entry_refl)

lemma attenuates_trans: "attenuates t u \<Longrightarrow> attenuates u v \<Longrightarrow> attenuates t v"
  unfolding attenuates_def by (metis derived_entry_trans)

lemma dup_preserves:
  assumes "invar t" "dup src rights t = (r, t')"
  shows "invar t' \<and> attenuates t t' \<and> spent t' = spent t"
proof (cases r)
  case (Inl s)
  with assms dup_Inl have "t' = t" by blast
  with assms show ?thesis by (simp add: attenuates_refl)
next
  case (Inr h)
  with assms have eq: "dup src rights t = (Inr h, t')" by simp
  from dup_Inr [OF assms(1) eq] obtain e where e: "entry_of t src = Some e"
    "rights_subset rights (ce_rights e)" "entry_of t' = (entry_of t)(h \<mapsto> e\<lparr>ce_rights := rights\<rparr>)"
    and inv: "invar t'" "spent t' = spent t"
    by blast
  have "derived_entry e (e\<lparr>ce_rights := rights\<rparr>)"
    using e(2) by (simp add: derived_entry_def)
  then have "attenuates t t'"
    unfolding attenuates_def e(3) using e(1) by (metis derived_entry_refl fun_upd_apply option.inject)
  with inv show ?thesis by simp
qed

lemma cls_preserves:
  assumes "invar t" "cls h t = (r, t')"
  shows "invar t' \<and> attenuates t t' \<and> (\<forall>k. spent t k \<longrightarrow> spent t' k)"
proof (cases r)
  case (Inl s)
  with assms cls_Inl have "t' = t" by blast
  with assms show ?thesis by (simp add: attenuates_refl)
next
  case (Inr u)
  with assms have eq: "cls h t = (Inr (), t')" by simp
  have "attenuates t t'"
    using cls_Inr [OF assms(1) eq] unfolding attenuates_def
    by (metis derived_entry_refl fun_upd_apply option.distinct(1))
  with cls_Inr [OF assms(1) eq] show ?thesis by blast
qed

lemma exec_preserves:
  assumes "invar t"
  shows "invar (exec c t) \<and> attenuates t (exec c t) \<and> (\<forall>k. spent t k \<longrightarrow> spent (exec c t) k)"
proof (cases c)
  case (Authority_Duplicate src rights)
  then show ?thesis
    using dup_preserves [OF assms, of src rights] by (cases "dup src rights t") auto
next
  case (Authority_Close h)
  then show ?thesis
    using cls_preserves [OF assms, of h] by (cases "cls h t") auto
qed

lemma run_preserves:
  "invar t \<Longrightarrow> invar (fold exec cs t) \<and> attenuates t (fold exec cs t)
     \<and> (\<forall>k. spent t k \<longrightarrow> spent (fold exec cs t) k)"
proof (induction cs arbitrary: t)
  case Nil
  then show ?case by (simp add: attenuates_refl)
next
  case (Cons c cs)
  note step = exec_preserves [OF Cons.prems, of c]
  then have "invar (exec c t)" by simp
  from Cons.IH [OF this] step show ?case
    by (auto intro: attenuates_trans)
qed

lemma closed_stays_dead:
  assumes "invar t" "cls h t = (Inr (), t')"
  shows "entry_of (fold exec cs t') h = None"
proof -
  have "invar t'" "spent t' h" using cls_Inr [OF assms] by auto
  then have "spent (fold exec cs t') h" using run_preserves by blast
  then show ?thesis by (rule spent_dead)
qed

end

text \<open>The capability table of the runtime, while it is live, is such a store.\<close>

definition table_live_ok :: "CapabilityTable \<Rightarrow> bool" where
  "table_live_ok t \<longleftrightarrow> table_ok t \<and> ct_state t = Cap_Live"

interpretation cap: authority_store table_live_ok live_entry spent_handle
  "table_duplicate task generation" "table_close task generation" for task generation
proof unfold_locales
  fix t src rights h t'
  assume inv: "table_live_ok t" and dup: "table_duplicate task generation src rights t = (Inr h, t')"
  from dup obtain e where
    e: "resolve_typed t task generation src OBJECT_TYPE_ENDPOINT CAPABILITY_RIGHT_DUPLICATE = Inr e"
    and sub: "rights_subset rights (ce_rights e)"
    and al: "table_allocate (e\<lparr>ce_rights := rights\<rparr>) t = (Inr h, t')"
    by (rule duplicate_InrD)
  from inv have ok: "table_ok t" "ct_state t = Cap_Live" by (simp_all add: table_live_ok_def)
  have "table_live_ok t'"
    using duplicate_ok [OF ok(1) dup] allocate_frame(1) [OF al] ok(2) by (simp add: table_live_ok_def)
  moreover have "live_entry t src = Some e" using e by (simp add: resolve_typed_eq_Inr)
  ultimately show "table_live_ok t' \<and> live_entry t h = None \<and> \<not> spent_handle t h
      \<and> spent_handle t' = spent_handle t
      \<and> (\<exists>e. live_entry t src = Some e \<and> rights_subset rights (ce_rights e)
             \<and> live_entry t' = (live_entry t)(h \<mapsto> e\<lparr>ce_rights := rights\<rparr>))"
    using allocate_live_entry [OF al ok(1)] allocate_spent [OF al ok(1)] sub by blast
next
  fix t h t'
  assume inv: "table_live_ok t" and cl: "table_close task generation h t = (Inr (), t')"
  from inv have ok: "table_ok t" "ct_state t = Cap_Live" by (simp_all add: table_live_ok_def)
  have "ct_state t' = Cap_Live" using cl ok(2) by (auto elim!: close_InrD)
  then show "table_live_ok t' \<and> live_entry t h \<noteq> None \<and> live_entry t' = (live_entry t)(h := None)
      \<and> spent_handle t' h \<and> (\<forall>k. spent_handle t k \<longrightarrow> spent_handle t' k)"
    using close_ok [OF ok(1) cl] close_live_entry [OF ok(1) cl] by (auto simp: table_live_ok_def)
qed (auto dest: duplicate_InlD close_InlD spent_not_live)


section \<open>Every operation on a table\<close>

inductive table_step :: "CapabilityTable \<Rightarrow> CapabilityTable \<Rightarrow> bool" where
  step_install: "install_object_building ty ob rights t = (r, t') \<Longrightarrow> table_step t t'"
| step_publish: "table_publish t = (r, t') \<Longrightarrow> table_step t t'"
| step_duplicate: "table_duplicate task gen src rights t = (r, t') \<Longrightarrow> table_step t t'"
| step_close: "table_close task gen raw t = (r, t') \<Longrightarrow> table_step t t'"
| step_begin_closing: "begin_closing t = (r, t') \<Longrightarrow> table_step t t'"
| step_finish_dead: "finish_dead t = (r, t') \<Longrightarrow> table_step t t'"

inductive_cases table_stepE: "table_step t u"

lemma install_ok:
  assumes "table_ok t" "install_object_building ty ob rights t = (r, t')"
  shows "table_ok t'"
proof (cases "ct_state t \<noteq> Cap_Building \<or> \<not> valid_rights ty rights
         \<or> ct_task_id t = 0 \<or> ct_task_generation t = 0 \<or> or_id ob = 0 \<or> or_generation ob = 0")
  case True
  then have "t' = t" using assms(2) by (simp add: install_object_building_def split: if_splits)
  with assms(1) show ?thesis by simp
next
  case False
  let ?e = "\<lparr>ce_task_id = ct_task_id t, ce_task_generation = ct_task_generation t,
               ce_object_type = ty, ce_rights = rights, ce_object = ob\<rparr>"
  have "t' = snd (table_allocate ?e t)"
    using False assms(2) by (simp add: install_object_building_def split: prod.splits)
  moreover have "table_ok (snd (table_allocate ?e t))"
    by (rule table_allocate_ok) (use False assms(1) in auto)
  ultimately show ?thesis by simp
qed

lemma publish_ok:
  assumes "table_ok t" "table_publish t = (r, t')"
  shows "table_ok t'"
proof (cases "ct_state t = Cap_Building")
  case True
  with assms(2) have t': "t' = t\<lparr>ct_state := Cap_Live\<rparr>" by (simp add: table_publish_def)
  have "slot_invalid t' s = slot_invalid t s" for s
    by (rule slot_invalid_cong) (simp_all add: t')
  with assms(1) True show ?thesis
    by (simp add: table_ok_def table_shape_def table_validate_live_iff t')
next
  case False
  with assms show ?thesis by (simp add: table_publish_def)
qed

lemma begin_closing_eq:
  "begin_closing t =
     (if ct_state t \<noteq> Cap_Live then (Inl Err_WrongState, t)
      else (Inr (), t\<lparr>ct_state := Cap_Closing,
              ct_slots := map (\<lambda>s. if cs_entry s \<noteq> None then remove_entry s else s) (ct_slots t)\<rparr>))"
proof (cases "ct_state t = Cap_Live")
  case False
  then show ?thesis by (simp add: begin_closing_def act_then_def act_bind_def mark_closing_def)
next
  case True
  define g where "g = (\<lambda>s. if cs_entry s \<noteq> None then remove_entry s else s)"
  have g: "cs_entry (g s) = None" for s by (simp add: g_def)
  have "close_all (t\<lparr>ct_state := Cap_Closing\<rparr>) =
      (Inr (), t\<lparr>ct_state := Cap_Closing, ct_slots := map g (ct_slots t)\<rparr>)"
    unfolding close_all_def Let_def g_def [symmetric] by (simp add: g)
  with True show ?thesis 
    unfolding g_def [symmetric] by (simp add: begin_closing_def act_then_def act_bind_def mark_closing_def)
qed

lemma begin_closing_ok:
  assumes "table_ok t" "begin_closing t = (r, t')"
  shows "table_ok t'"
proof (cases "ct_state t = Cap_Live")
  case True
  with assms(2) have t': "t' = t\<lparr>ct_state := Cap_Closing,
      ct_slots := map (\<lambda>s. if cs_entry s \<noteq> None then remove_entry s else s) (ct_slots t)\<rparr>"
    by (simp add: begin_closing_eq)
  have inv: "slot_invalid t' s = slot_invalid t s" for s
    by (rule slot_invalid_cong) (simp_all add: t')
  from assms(1) True have "\<forall>s \<in> set (ct_slots t). \<not> slot_invalid t s"
    by (simp add: table_ok_def table_validate_live_iff)
  then have "\<forall>s \<in> set (ct_slots t'). \<not> slot_invalid t' s"
    unfolding inv by (auto simp: t' remove_entry_valid)
  moreover have "\<forall>s \<in> set (ct_slots t'). cs_entry s = None" by (auto simp: t')
  moreover have "ct_state t' = Cap_Closing" by (simp add: t')
  moreover have "table_shape t'" "ct_task_id t' \<noteq> 0" "ct_task_generation t' \<noteq> 0"
    using assms(1) True by (simp_all add: t' table_ok_def table_shape_def table_validate_live_iff)
  ultimately show ?thesis by (simp add: table_ok_def table_validate_closing_iff)
next
  case False
  with assms show ?thesis by (simp add: begin_closing_eq)
qed

lemma finish_dead_ok:
  "table_ok t \<Longrightarrow> finish_dead t = (r, t') \<Longrightarrow> table_ok t'"
  by (auto simp: finish_dead_def split: if_splits)

lemmas table_operation_ok = install_ok publish_ok duplicate_ok close_ok begin_closing_ok finish_dead_ok

lemma table_step_ok: "table_step t u \<Longrightarrow> table_ok t \<Longrightarrow> table_ok u"
  by (auto elim!: table_stepE intro: table_operation_ok)

text \<open>A published table only attenuates, keeps its spent handles, or stops being live for good.\<close>

lemma table_step_live:
  assumes "table_step t u" "table_ok t" "ct_state t = Cap_Live"
  shows "(ct_state u = Cap_Live \<and> cap.attenuates t u \<and> (\<forall>h. spent_handle t h \<longrightarrow> spent_handle u h))
         \<or> ct_state u = Cap_Closing"
  using assms(1)
proof (cases rule: table_step.cases)
  case (step_duplicate task gen src rights r)
  then show ?thesis
    using cap.dup_preserves [of t task gen src rights r u] assms(2,3) by (auto simp: table_live_ok_def)
next
  case (step_close task gen raw r)
  then show ?thesis
    using cap.cls_preserves [of t task gen raw r u] assms(2,3) by (auto simp: table_live_ok_def)
qed (use assms in \<open>auto simp: install_object_building_def table_publish_def begin_closing_eq
        finish_dead_def cap.attenuates_refl split: if_splits\<close>)

lemma table_step_closed:
  assumes "table_step t u" "ct_state t = Cap_Closing \<or> ct_state t = Cap_Dead"
  shows "ct_state u = Cap_Closing \<or> ct_state u = Cap_Dead"
  using assms
  by (auto simp: install_object_building_def table_publish_def begin_closing_eq finish_dead_def
      table_duplicate_def table_close_def resolve_typed_def table_dead_def
      elim!: table_stepE split: if_splits)

lemma table_steps_live:
  assumes "table_step\<^sup>*\<^sup>* t u" "table_ok t" "ct_state t = Cap_Live"
  shows "table_ok u
         \<and> ((ct_state u = Cap_Live \<and> cap.attenuates t u \<and> (\<forall>h. spent_handle t h \<longrightarrow> spent_handle u h))
            \<or> ct_state u = Cap_Closing \<or> ct_state u = Cap_Dead)"
  using assms(1)
proof (induction rule: rtranclp_induct)
  case base
  show ?case using assms by (simp add: cap.attenuates_refl)
next
  case (step u v)
  then have "table_ok v" by (blast intro: table_step_ok)
  moreover have "ct_state v = Cap_Live \<and> cap.attenuates t v \<and> (\<forall>h. spent_handle t h \<longrightarrow> spent_handle v h)
      \<or> ct_state v = Cap_Closing \<or> ct_state v = Cap_Dead"
    using step.IH table_step_live [OF step.hyps(2)] table_step_closed [OF step.hyps(2)]
    by (metis cap.attenuates_trans)
  ultimately show ?case by blast
qed

section \<open>Properties of the capability table\<close>

text \<open>A live table holding one endpoint capability, for the concrete instances below.\<close>

definition example_table :: CapabilityTable where
  "example_table =
     snd (act_then (install_building (CAPABILITY_RIGHT_SEND OR CAPABILITY_RIGHT_DUPLICATE))
            table_publish (table_building 1 1))"

lemma example_table_ok: "table_ok example_table" "ct_state example_table = Cap_Live"
  by code_simp+

text \<open>C38: a raw handle is produced from a slot index and a generation exactly when decoding that
  handle gives the same index and generation back: packing and unpacking are inverse bijections
  between the valid (index, generation) pairs and the decodable raw handles.\<close>

theorem handle_roundtrip: "from_parts i g = Some h \<longleftrightarrow> handle_decode h = Some (i, g)"
  using handle_decode_from_parts from_parts_handle_decode by blast



text \<open>C32: duplication attenuates.  A successful duplicate was made from a live endpoint capability
  with the duplicate right, grants a subset of its rights, and changes the authority of the table by
  exactly one fresh handle naming the same object; a failed duplicate changes nothing.\<close>

theorem duplicate_attenuates:
  assumes "table_ok t" "table_duplicate task generation src rights t = (r, t')"
  shows "case r of
      Inl status \<Rightarrow> t' = t
    | Inr h \<Rightarrow> (\<exists>e. live_entry t src = Some e \<and> ce_object_type e = OBJECT_TYPE_ENDPOINT
                 \<and> ce_rights e AND CAPABILITY_RIGHT_DUPLICATE \<noteq> 0 \<and> rights_subset rights (ce_rights e)
                 \<and> live_entry t h = None \<and> live_entry t' = (live_entry t)(h \<mapsto> e\<lparr>ce_rights := rights\<rparr>))"
proof (cases r)
  case (Inl status)
  with assms(2) show ?thesis by (auto dest: duplicate_InlD)
next
  case (Inr h)
  with assms(2) obtain e where
    e: "resolve_typed t task generation src OBJECT_TYPE_ENDPOINT CAPABILITY_RIGHT_DUPLICATE = Inr e"
    and sub: "rights_subset rights (ce_rights e)"
    and al: "table_allocate (e\<lparr>ce_rights := rights\<rparr>) t = (Inr h, t')"
    by (auto elim: duplicate_InrD)
  then show ?thesis
    using allocate_live_entry [OF al assms(1)] Inr by (auto simp: resolve_typed_eq_Inr)
qed

theorem duplicate_attenuates_witness:
  "fst (table_duplicate 1 1 0x10 CAPABILITY_RIGHT_SEND example_table) = Inr 0x11
   \<and> (\<exists>e. live_entry example_table 0x10 = Some e \<and> rights_subset CAPABILITY_RIGHT_SEND (ce_rights e))"
proof -
  have r: "fst (table_duplicate 1 1 0x10 CAPABILITY_RIGHT_SEND example_table) = Inr 0x11"
    by code_simp
  then obtain t' where "table_duplicate 1 1 0x10 CAPABILITY_RIGHT_SEND example_table = (Inr 0x11, t')"
    by (metis prod.collapse)
  from duplicate_attenuates [OF example_table_ok(1) this] r show ?thesis by auto
qed

text \<open>C4: a closed handle is dead for ever.  After a successful close, no sequence of further
  operations on the table, slot reuse included, makes the raw handle resolve again: for every task,
  object type and right it is answered with invalid handle.\<close>

theorem closed_handle_never_resolves:
  assumes "table_ok t" "table_close task generation raw t = (Inr (), t')" "table_step\<^sup>*\<^sup>* t' u"
  shows "resolve_typed u task' generation' raw object_type right = Inl Status_InvalidHandle"
proof -
  have live: "ct_state t' = Cap_Live" using assms(2) by (auto elim: close_InrD)
  have "spent_handle t' raw" "table_ok t'"
    using close_live_entry(3) [OF assms(1,2)] close_ok [OF assms(1,2)] by auto
  from table_steps_live [OF assms(3) this(2) live] this(1)
  have "ct_state u \<noteq> Cap_Live \<or> spent_handle u raw" by auto
  then show ?thesis
  proof
    assume "ct_state u \<noteq> Cap_Live"
    then show ?thesis by (simp add: resolve_typed_def)
  qed (simp add: resolve_typed_dead_handle spent_not_live)
qed

theorem closed_handle_never_resolves_witness:
  "fst (table_close 1 1 0x10 example_table) = Inr ()
   \<and> resolve_typed (snd (table_close 1 1 0x10 example_table)) 1 1 0x10 OBJECT_TYPE_ENDPOINT
       CAPABILITY_RIGHT_SEND = Inl Status_InvalidHandle"
proof -
  have r: "fst (table_close 1 1 0x10 example_table) = Inr ()" by code_simp
  then have "table_close 1 1 0x10 example_table = (Inr (), snd (table_close 1 1 0x10 example_table))"
    by (metis prod.collapse)
  from closed_handle_never_resolves [OF example_table_ok(1) this rtranclp.rtrancl_refl] r
  show ?thesis by (intro conjI)
qed

text \<open>C13: authority is never amplified.  Whatever a published table is put through, a handle that
  resolves for some right afterwards carries an entry for the same task and object as an entry the
  table held before, whose rights include those of the new entry, the exercised right among them.\<close>

theorem rights_never_amplified:
  assumes "table_ok t" "ct_state t = Cap_Live" "table_step\<^sup>*\<^sup>* t u"
    and "resolve_typed u task generation raw object_type right = Inr e"
  shows "\<exists>raw0 e0. live_entry t raw0 = Some e0 \<and> derived_entry e0 e \<and> ce_rights e0 AND right \<noteq> 0"
proof -
  from assms(4) have u: "ct_state u = Cap_Live" "live_entry u raw = Some e" "ce_rights e AND right \<noteq> 0"
    by (auto simp: resolve_typed_eq_Inr)
  with table_steps_live [OF assms(3,1,2)] have "cap.attenuates t u" by auto
  with u obtain raw0 e0 where d: "live_entry t raw0 = Some e0" "derived_entry e0 e"
    unfolding cap.attenuates_def by blast
  then have "ce_rights e0 AND right \<noteq> 0"
    using u(3) rights_subset_and by (auto simp: derived_entry_def)
  with d show ?thesis by blast
qed

theorem rights_never_amplified_witness:
  "\<exists>raw0 e0. live_entry example_table raw0 = Some e0 \<and> ce_rights e0 AND CAPABILITY_RIGHT_SEND \<noteq> 0"
proof -
  let ?u = "snd (table_duplicate 1 1 0x10 CAPABILITY_RIGHT_SEND example_table)"
  have "is_ok (resolve_typed ?u 1 1 0x11 OBJECT_TYPE_ENDPOINT CAPABILITY_RIGHT_SEND)" by code_simp
  then obtain e where "resolve_typed ?u 1 1 0x11 OBJECT_TYPE_ENDPOINT CAPABILITY_RIGHT_SEND = Inr e"
    by (auto simp: is_ok_def split: sum.splits)
  moreover have "table_step\<^sup>*\<^sup>* example_table ?u"
    by (rule r_into_rtranclp, rule table_step.step_duplicate, rule surjective_pairing)
  ultimately show ?thesis
    using rights_never_amplified [OF example_table_ok] by blast
qed

end
