(* ===== verification/Launch_Manifest.thy ===== *)
theory Launch_Manifest
  imports Capability
begin

text \<open>
  The launch manifest and the approval request: \<open>LaunchRouteV1\<close>, \<open>LaunchManifestV1\<close> with its
  \<open>validate\<close>, \<open>REGISTERED_LAUNCH_MANIFEST\<close> and \<open>ApprovalRequestV1\<close> of
  \<open>crates/task-runtime/src/lib.rs\<close>.  The array of four routes is a list; \<open>manifest_shape\<close> states
  its length.  The main result is that validation accepts exactly the registered manifest.
\<close>

section \<open>Data\<close>

record LaunchRouteV1 =
  lr_object_type :: u32
  lr_reserved :: u32
  lr_object_id :: u64
  lr_object_generation :: u64
  lr_rights :: u64

definition LaunchRouteV1_default :: LaunchRouteV1 where
  "LaunchRouteV1_default =
     \<lparr>lr_object_type = 0, lr_reserved = 0, lr_object_id = 0, lr_object_generation = 0, lr_rights = 0\<rparr>"

record LaunchManifestV1 =
  lm_schema_version :: u32
  lm_byte_size :: u32
  lm_manifest_id :: u64
  lm_principal_id :: u64
  lm_target_task_id :: u64
  lm_target_generation :: u64
  lm_image_id :: u64
  lm_route_count :: u32
  lm_reserved :: u32
  lm_routes :: "LaunchRouteV1 list"

record ApprovalRequestV1 =
  ar_principal_id :: u64
  ar_workload_task_id :: u64
  ar_workload_generation :: u64
  ar_sequence :: u64
  ar_action_id :: u64
  ar_effect_object_id :: u64
  ar_effect_object_generation :: u64
  ar_argument :: u64
  ar_requested_rights :: u64
  ar_resulting_rights :: u64

definition ApprovalRequestV1_default :: ApprovalRequestV1 where
  "ApprovalRequestV1_default =
     \<lparr>ar_principal_id = 0, ar_workload_task_id = 0, ar_workload_generation = 0, ar_sequence = 0,
      ar_action_id = 0, ar_effect_object_id = 0, ar_effect_object_generation = 0, ar_argument = 0,
      ar_requested_rights = 0, ar_resulting_rights = 0\<rparr>"

definition REGISTERED_LAUNCH_MANIFEST :: LaunchManifestV1 where
  "REGISTERED_LAUNCH_MANIFEST =
     \<lparr>lm_schema_version = MANIFEST_SCHEMA_VERSION,
      lm_byte_size = MANIFEST_BYTE_SIZE,
      lm_manifest_id = MANIFEST_ID,
      lm_principal_id = PRINCIPAL_ID,
      lm_target_task_id = RECEIVER_TASK_ID,
      lm_target_generation = WORKLOAD_GENERATION,
      lm_image_id = WORKLOAD_IMAGE_ID,
      lm_route_count = 1,
      lm_reserved = 0,
      lm_routes =
        [\<lparr>lr_object_type = OBJECT_TYPE_APPROVAL_BROKER, lr_reserved = 0,
          lr_object_id = APPROVAL_BROKER_OBJECT_ID, lr_object_generation = FIXED_OBJECT_GENERATION,
          lr_rights = CAPABILITY_RIGHT_SUBMIT_APPROVAL\<rparr>,
         \<lparr>lr_object_type = 0, lr_reserved = 0, lr_object_id = 0, lr_object_generation = 0, lr_rights = 0\<rparr>,
         \<lparr>lr_object_type = 0, lr_reserved = 0, lr_object_id = 0, lr_object_generation = 0, lr_rights = 0\<rparr>,
         \<lparr>lr_object_type = 0, lr_reserved = 0, lr_object_id = 0, lr_object_generation = 0, lr_rights = 0\<rparr>]\<rparr>"

datatype ManifestError =
    Manifest_InvalidHeader
  | Manifest_InvalidIdentity
  | Manifest_InvalidTarget
  | Manifest_ExcessRoutes
  | Manifest_MissingRoute
  | Manifest_InvalidRoute
  | Manifest_DuplicateRoute
  | Manifest_InsufficientCapacity
  | Manifest_NonzeroUnusedRoute


section \<open>Validation\<close>

text \<open>The loop over \<open>0..route_count\<close>: \<open>index\<close> is the loop variable, the last argument what is left.\<close>

fun validate_routes :: "LaunchRouteV1 list \<Rightarrow> u64 \<Rightarrow> nat \<Rightarrow> nat \<Rightarrow> ManifestError + unit" where
  "validate_routes routes broker_generation index 0 = Inr ()"
| "validate_routes routes broker_generation index (Suc left) =
     (let route = routes ! index
      in if lr_reserved route \<noteq> 0
            \<or> lr_object_type route \<noteq> OBJECT_TYPE_APPROVAL_BROKER
            \<or> lr_object_id route \<noteq> APPROVAL_BROKER_OBJECT_ID
            \<or> lr_object_generation route \<noteq> broker_generation
            \<or> broker_generation \<noteq> FIXED_OBJECT_GENERATION
            \<or> lr_rights route \<noteq> CAPABILITY_RIGHT_SUBMIT_APPROVAL
         then Inl Manifest_InvalidRoute
         else if list_ex (\<lambda>earlier. lr_object_type earlier = lr_object_type route
                     \<and> lr_object_id earlier = lr_object_id route
                     \<and> lr_object_generation earlier = lr_object_generation route)
                   (take index routes)
         then Inl Manifest_DuplicateRoute
         else validate_routes routes broker_generation (index + 1) left)"

definition manifest_validate ::
  "LaunchManifestV1 \<Rightarrow> u64 \<Rightarrow> u64 \<Rightarrow> nat \<Rightarrow> ManifestError + unit" where
  "manifest_validate mf workload_generation broker_generation available =
     (if lm_schema_version mf \<noteq> MANIFEST_SCHEMA_VERSION \<or> lm_byte_size mf \<noteq> MANIFEST_BYTE_SIZE
         \<or> lm_reserved mf \<noteq> 0
      then Inl Manifest_InvalidHeader
      else if lm_manifest_id mf \<noteq> MANIFEST_ID \<or> lm_principal_id mf \<noteq> PRINCIPAL_ID
         \<or> lm_image_id mf \<noteq> WORKLOAD_IMAGE_ID \<or> lm_manifest_id mf = 0
         \<or> lm_principal_id mf = 0 \<or> lm_image_id mf = 0
      then Inl Manifest_InvalidIdentity
      else if lm_target_task_id mf \<noteq> RECEIVER_TASK_ID
         \<or> lm_target_generation mf \<noteq> workload_generation
         \<or> workload_generation \<noteq> WORKLOAD_GENERATION
      then Inl Manifest_InvalidTarget
      else
        (let route_count = unat (lm_route_count mf)
         in if route_count > MANIFEST_ROUTE_COUNT_MAX then Inl Manifest_ExcessRoutes
            else if route_count = 0 then Inl Manifest_MissingRoute
            else if available < route_count then Inl Manifest_InsufficientCapacity
            else
              and_then (validate_routes (lm_routes mf) broker_generation 0 route_count) (\<lambda>_.
                if list_ex (\<lambda>route. route \<noteq> LaunchRouteV1_default) (drop route_count (lm_routes mf))
                then Inl Manifest_NonzeroUnusedRoute
                else Inr ())))"

definition manifest_shape :: "LaunchManifestV1 \<Rightarrow> bool" where
  "manifest_shape mf \<longleftrightarrow> length (lm_routes mf) = MANIFEST_ROUTE_COUNT_MAX"


section \<open>What validation accepts\<close>

text \<open>Two valid routes are duplicates of each other, so at most one route passes.\<close>

lemma validate_routes_second:
  assumes "validate_routes routes g 0 (Suc left) = Inr ()"
  shows "left = 0 \<or> routes = []"
proof (rule ccontr)
  assume "\<not> ?thesis"
  then obtain l r rs where "left = Suc l" "routes = r # rs" by (metis not0_implies_Suc neq_Nil_conv)
  with assms show False by (auto simp: Let_def split: if_splits)
qed

lemma registered_manifest_valid:
  "1 \<le> available \<Longrightarrow> manifest_validate REGISTERED_LAUNCH_MANIFEST 5 1 available = Inr ()"
  by (simp add: manifest_validate_def REGISTERED_LAUNCH_MANIFEST_def Let_def LaunchRouteV1_default_def)

lemma manifest_validate_registered:
  assumes "manifest_shape mf" "manifest_validate mf wg bg available = Inr ()"
  shows "mf = REGISTERED_LAUNCH_MANIFEST \<and> wg = WORKLOAD_GENERATION \<and> bg = FIXED_OBJECT_GENERATION
         \<and> 1 \<le> available"
proof -
  from assms(2) have rc0: "unat (lm_route_count mf) \<noteq> 0" and av: "unat (lm_route_count mf) \<le> available"
    and loop: "validate_routes (lm_routes mf) bg 0 (unat (lm_route_count mf)) = Inr ()"
    and rest: "\<forall>r \<in> set (drop (unat (lm_route_count mf)) (lm_routes mf)). r = LaunchRouteV1_default"
    by (auto simp: manifest_validate_def Let_def and_then_eq_Inr list_ex_iff split: if_splits)
  from assms(1) obtain a b c d where routes: "lm_routes mf = [a, b, c, d]"
    by (auto simp: manifest_shape_def numeral_eq_Suc length_Suc_conv)
  from rc0 obtain l where l: "unat (lm_route_count mf) = Suc l" by (metis not0_implies_Suc)
  have "l = 0" using validate_routes_second [of "lm_routes mf" bg l] loop l routes by simp
  with l have rc: "unat (lm_route_count mf) = 1" by simp
  then have rc': "lm_route_count mf = 1" by (metis unat_1 word_unat_eq_iff)
  from rest rc routes have rest': "b = LaunchRouteV1_default" "c = LaunchRouteV1_default"
    "d = LaunchRouteV1_default" by auto
  from loop rc routes have a: "a = \<lparr>lr_object_type = 3, lr_reserved = 0, lr_object_id = 1,
      lr_object_generation = 1, lr_rights = 16\<rparr>" and bg: "bg = 1"
    by (auto simp: Let_def split: if_splits)
  from assms(2) have "lm_schema_version mf = 1 \<and> lm_byte_size mf = 184 \<and> lm_reserved mf = 0
    \<and> lm_manifest_id mf = 1 \<and> lm_principal_id mf = 1 \<and> lm_image_id mf = 1 \<and> lm_target_task_id mf = 2
    \<and> lm_target_generation mf = 5 \<and> wg = 5"
    by (auto simp: manifest_validate_def split: if_splits)
  then show ?thesis
    using a bg rc' rest' routes av rc
    by (auto simp: REGISTERED_LAUNCH_MANIFEST_def LaunchRouteV1_default_def
        intro: LaunchManifestV1.equality)
qed

text \<open>C36: a launch manifest passes validation exactly when it is, field by field, the registered
  manifest, for the workload generation and broker generation of version one and with a free slot in
  the workload's table: no other manifest, header, route set or identity is ever accepted.\<close>

theorem only_registered_manifest:
  assumes "manifest_shape mf"
  shows "manifest_validate mf wg bg available = Inr () \<longleftrightarrow>
    mf = REGISTERED_LAUNCH_MANIFEST \<and> wg = WORKLOAD_GENERATION \<and> bg = FIXED_OBJECT_GENERATION
    \<and> 1 \<le> available"
  using manifest_validate_registered [OF assms] registered_manifest_valid by auto

theorem only_registered_manifest_witness:
  "manifest_shape (REGISTERED_LAUNCH_MANIFEST\<lparr>lm_route_count := 2\<rparr>)
   \<and> manifest_validate (REGISTERED_LAUNCH_MANIFEST\<lparr>lm_route_count := 2\<rparr>) 5 1 16 \<noteq> Inr ()
   \<and> manifest_validate REGISTERED_LAUNCH_MANIFEST 5 1 16 = Inr ()"
proof -
  have shape: "manifest_shape (REGISTERED_LAUNCH_MANIFEST\<lparr>lm_route_count := 2\<rparr>)"
    "manifest_shape REGISTERED_LAUNCH_MANIFEST"
    by (simp_all add: manifest_shape_def REGISTERED_LAUNCH_MANIFEST_def)
  have "REGISTERED_LAUNCH_MANIFEST\<lparr>lm_route_count := 2\<rparr> \<noteq> REGISTERED_LAUNCH_MANIFEST"
    by (simp add: REGISTERED_LAUNCH_MANIFEST_def)
  with shape show ?thesis
    using only_registered_manifest [OF shape(1), of 5 1 16] only_registered_manifest [OF shape(2), of 5 1 16]
    by simp
qed

end
