(* ===== verification/Effect_Journal.thy ===== *)
theory Effect_Journal
  imports Launch_Manifest
begin

text \<open>
  The bounded effect journal: \<open>EffectEventKind\<close>, \<open>EffectRecordV1\<close> and \<open>EffectJournalV1\<close> of
  \<open>crates/task-runtime/src/lib.rs\<close>.  The array of sixteen records is a list and the counters are
  bytes, as in the source.  \<open>journal_ok\<close> is the validity of a published journal; the log is the
  prefix of committed records.
\<close>

section \<open>Records\<close>

definition EFFECT_RECORD_SCHEMA_VERSION :: u32 where [simp, const_simps]: "EFFECT_RECORD_SCHEMA_VERSION = 1"
definition EFFECT_RECORD_BYTE_SIZE :: u32 where [simp, const_simps]: "EFFECT_RECORD_BYTE_SIZE = 128"
definition EFFECT_JOURNAL_RECORD_COUNT :: nat where [simp, const_simps]: "EFFECT_JOURNAL_RECORD_COUNT = 16"
definition EFFECT_JOURNAL_OBJECT_GENERATION :: u64 where
  [simp, const_simps]: "EFFECT_JOURNAL_OBJECT_GENERATION = 1"

datatype EffectEventKind =
    Event_Requested
  | Event_Approved
  | Event_Denied
  | Event_Expired
  | Event_Completed
  | Event_Failed

fun event_code :: "EffectEventKind \<Rightarrow> u32" where
  "event_code Event_Requested = 1"
| "event_code Event_Approved = 2"
| "event_code Event_Denied = 3"
| "event_code Event_Expired = 4"
| "event_code Event_Completed = 5"
| "event_code Event_Failed = 6"

record EffectRecordV1 =
  er_schema_version :: u32
  er_byte_size :: u32
  er_event_kind :: u32
  er_status :: u32
  er_record_sequence :: u64
  er_decision_epoch :: u64
  er_principal_id :: u64
  er_actor_task_id :: u64
  er_actor_task_generation :: u64
  er_subject_task_id :: u64
  er_subject_task_generation :: u64
  er_request_sequence :: u64
  er_action_id :: u64
  er_capability_object_type :: u32
  er_reserved_zero :: u32
  er_capability_object_id :: u64
  er_capability_object_generation :: u64
  er_capability_rights :: u64
  er_trailing_reserved_zero :: u64

definition EffectRecordV1_default :: EffectRecordV1 where
  "EffectRecordV1_default =
     \<lparr>er_schema_version = 0, er_byte_size = 0, er_event_kind = 0, er_status = 0,
      er_record_sequence = 0, er_decision_epoch = 0, er_principal_id = 0, er_actor_task_id = 0,
      er_actor_task_generation = 0, er_subject_task_id = 0, er_subject_task_generation = 0,
      er_request_sequence = 0, er_action_id = 0, er_capability_object_type = 0,
      er_reserved_zero = 0, er_capability_object_id = 0, er_capability_object_generation = 0,
      er_capability_rights = 0, er_trailing_reserved_zero = 0\<rparr>"

definition record_event ::
  "EffectEventKind \<Rightarrow> TrapStatus \<Rightarrow> u64 \<Rightarrow> u64 \<Rightarrow> u64 \<Rightarrow> ApprovalRequestV1 \<Rightarrow> u32 \<Rightarrow> u64 \<Rightarrow> EffectRecordV1" where
  "record_event kind status epoch actor actor_generation request object_type rights =
     \<lparr>er_schema_version = EFFECT_RECORD_SCHEMA_VERSION,
      er_byte_size = EFFECT_RECORD_BYTE_SIZE,
      er_event_kind = event_code kind,
      er_status = status_code32 status,
      er_record_sequence = 0,
      er_decision_epoch = epoch,
      er_principal_id = ar_principal_id request,
      er_actor_task_id = actor,
      er_actor_task_generation = actor_generation,
      er_subject_task_id = ar_workload_task_id request,
      er_subject_task_generation = ar_workload_generation request,
      er_request_sequence = ar_sequence request,
      er_action_id = ar_action_id request,
      er_capability_object_type = object_type,
      er_reserved_zero = 0,
      er_capability_object_id =
        (if object_type = OBJECT_TYPE_TEST_EFFECT then ar_effect_object_id request
         else APPROVAL_BROKER_OBJECT_ID),
      er_capability_object_generation =
        (if object_type = OBJECT_TYPE_TEST_EFFECT then ar_effect_object_generation request
         else FIXED_OBJECT_GENERATION),
      er_capability_rights = rights,
      er_trailing_reserved_zero = 0\<rparr>"

definition record_word :: "EffectRecordV1 \<Rightarrow> nat \<Rightarrow> u64 option" where
  "record_word r index =
     (if index = 0 then Some (ucast (er_schema_version r) OR push_bit 32 (ucast (er_byte_size r)))
      else if index = 1 then Some (ucast (er_event_kind r) OR push_bit 32 (ucast (er_status r)))
      else if index = 2 then Some (er_record_sequence r)
      else if index = 3 then Some (er_decision_epoch r)
      else if index = 4 then Some (er_principal_id r)
      else if index = 5 then Some (er_actor_task_id r)
      else if index = 6 then Some (er_actor_task_generation r)
      else if index = 7 then Some (er_subject_task_id r)
      else if index = 8 then Some (er_subject_task_generation r)
      else if index = 9 then Some (er_request_sequence r)
      else if index = 10 then Some (er_action_id r)
      else if index = 11 then
        Some (ucast (er_capability_object_type r) OR push_bit 32 (ucast (er_reserved_zero r)))
      else if index = 12 then Some (er_capability_object_id r)
      else if index = 13 then Some (er_capability_object_generation r)
      else if index = 14 then Some (er_capability_rights r)
      else if index = 15 then Some (er_trailing_reserved_zero r)
      else None)"


section \<open>The journal\<close>

datatype EffectJournalState = Journal_Building | Journal_Live | Journal_Sealed | Journal_Dead

record EffectJournalV1 =
  ej_state :: EffectJournalState
  ej_committed_record_count :: u8
  ej_reserved_record_count :: u8
  ej_reserved_zero :: "u8 list"
  ej_object_generation :: u64
  ej_next_record_sequence :: u64
  ej_records :: "EffectRecordV1 list"

record EffectJournalSnapshot =
  ejs_state :: EffectJournalState
  ejs_committed_record_count :: u8
  ejs_reserved_record_count :: u8
  ejs_object_generation :: u64
  ejs_next_record_sequence :: u64

datatype EffectJournalError =
    JournalError_Full
  | JournalError_Unavailable
  | JournalError_InvalidRecord
  | JournalError_Invariant

definition journal_DEAD :: EffectJournalV1 where
  "journal_DEAD =
     \<lparr>ej_state = Journal_Dead, ej_committed_record_count = 0, ej_reserved_record_count = 0,
      ej_reserved_zero = replicate 5 0, ej_object_generation = 0, ej_next_record_sequence = 0,
      ej_records = replicate EFFECT_JOURNAL_RECORD_COUNT EffectRecordV1_default\<rparr>"

definition journal_building :: EffectJournalV1 where
  "journal_building =
     \<lparr>ej_state = Journal_Building, ej_committed_record_count = 0, ej_reserved_record_count = 0,
      ej_reserved_zero = replicate 5 0, ej_object_generation = EFFECT_JOURNAL_OBJECT_GENERATION,
      ej_next_record_sequence = 1, ej_records = ej_records journal_DEAD\<rparr>"

definition journal_snapshot :: "EffectJournalV1 \<Rightarrow> EffectJournalSnapshot" where
  "journal_snapshot j =
     \<lparr>ejs_state = ej_state j, ejs_committed_record_count = ej_committed_record_count j,
      ejs_reserved_record_count = ej_reserved_record_count j,
      ejs_object_generation = ej_object_generation j,
      ejs_next_record_sequence = ej_next_record_sequence j\<rparr>"

definition journal_publish :: "(EffectJournalV1, EffectJournalError, unit) action" where
  "journal_publish j =
     (if ej_state j \<noteq> Journal_Building then (Inl JournalError_Invariant, j)
      else (Inr (), j\<lparr>ej_state := Journal_Live\<rparr>))"

definition journal_seal :: "(EffectJournalV1, EffectJournalError, unit) action" where
  "journal_seal j =
     (if ej_state j \<noteq> Journal_Live \<or> ej_reserved_record_count j \<noteq> 0
      then (Inl JournalError_Unavailable, j)
      else (Inr (), j\<lparr>ej_state := Journal_Sealed\<rparr>))"

definition journal_clear_dead :: "EffectJournalV1 \<Rightarrow> EffectJournalV1" where
  "journal_clear_dead j = journal_DEAD"

definition append_unreserved :: "EffectRecordV1 \<Rightarrow> (EffectJournalV1, EffectJournalError, unit) action" where
  "append_unreserved r j =
     (let index = unat (ej_committed_record_count j)
      in if index \<ge> EFFECT_JOURNAL_RECORD_COUNT \<or> ej_next_record_sequence j = 0
         then (Inl JournalError_Full, j)
         else if er_schema_version r \<noteq> EFFECT_RECORD_SCHEMA_VERSION
            \<or> er_byte_size r \<noteq> EFFECT_RECORD_BYTE_SIZE
            \<or> er_record_sequence r \<noteq> 0
            \<or> er_reserved_zero r \<noteq> 0
            \<or> er_trailing_reserved_zero r \<noteq> 0
         then (Inl JournalError_Invariant, j)
         else
           (Inr (),
            j\<lparr>ej_records := (ej_records j)[index := r\<lparr>er_record_sequence := ej_next_record_sequence j\<rparr>],
              ej_committed_record_count := ej_committed_record_count j + 1,
              ej_next_record_sequence :=
                (case checked_add (ej_next_record_sequence j) 1 of None \<Rightarrow> 0 | Some n \<Rightarrow> n)\<rparr>))"

text \<open>The sum of two bytes cannot overflow a \<open>usize\<close>, so the first error of \<open>begin_lifecycle\<close> cannot occur.\<close>

definition begin_lifecycle :: "EffectRecordV1 \<Rightarrow> (EffectJournalV1, EffectJournalError, unit) action" where
  "begin_lifecycle r j =
     (if ej_state j \<noteq> Journal_Live then (Inl JournalError_Unavailable, j)
      else
        (let used = unat (ej_committed_record_count j) + unat (ej_reserved_record_count j)
         in if EFFECT_JOURNAL_RECORD_COUNT - used < 3
               \<or> ej_next_record_sequence j = 0
               \<or> checked_add (ej_next_record_sequence j) 2 = None
            then (Inl JournalError_Full, j)
            else
              act_then (append_unreserved r)
                (act_modify (\<lambda>j. j\<lparr>ej_reserved_record_count := 2\<rparr>)) j))"

definition append_reserved ::
  "EffectRecordV1 \<Rightarrow> bool \<Rightarrow> (EffectJournalV1, EffectJournalError, unit) action" where
  "append_reserved r release_unused j =
     (if ej_state j \<noteq> Journal_Live \<or> ej_reserved_record_count j = 0
      then (Inl JournalError_Unavailable, j)
      else
        act_then (append_unreserved r)
          (act_modify (\<lambda>j. if release_unused then j\<lparr>ej_reserved_record_count := 0\<rparr> else j))
          (j\<lparr>ej_reserved_record_count := ej_reserved_record_count j - 1\<rparr>))"

definition journal_record :: "EffectJournalV1 \<Rightarrow> u64 \<Rightarrow> EffectJournalError + EffectRecordV1" where
  "journal_record j sequence =
     (if \<not> (ej_state j = Journal_Live \<or> ej_state j = Journal_Sealed)
      then Inl JournalError_Unavailable
      else
        (case checked_sub sequence 1 of
           None \<Rightarrow> Inl JournalError_InvalidRecord
         | Some v \<Rightarrow>
             (let index = unat v
              in if \<not> index < unat (ej_committed_record_count j) then Inl JournalError_InvalidRecord
                 else
                   (let r = ej_records j ! index
                    in if er_record_sequence r \<noteq> sequence then Inl JournalError_Invariant
                       else Inr r))))"

definition read_triplet :: "EffectJournalV1 \<Rightarrow> u64 \<Rightarrow> u64 \<Rightarrow> EffectJournalError + (u64 \<times> u64 \<times> u64)" where
  "read_triplet j sequence triplet =
     (if \<not> unat triplet \<le> 5 then Inl JournalError_InvalidRecord
      else
        and_then (journal_record j sequence) (\<lambda>r.
          let first = unat triplet * 3;
              get = (\<lambda>i. case record_word r i of None \<Rightarrow> 0 | Some w \<Rightarrow> w)
          in Inr (get first, get (first + 1), get (first + 2))))"

text \<open>The check of one record by \<open>validate\<close>: committed records carry their position, the rest is blank.\<close>

definition record_slot_invalid :: "EffectJournalV1 \<Rightarrow> nat \<Rightarrow> EffectRecordV1 \<Rightarrow> bool" where
  "record_slot_invalid j index r =
     (if index < unat (ej_committed_record_count j)
      then er_schema_version r \<noteq> EFFECT_RECORD_SCHEMA_VERSION
           \<or> er_byte_size r \<noteq> EFFECT_RECORD_BYTE_SIZE
           \<or> er_record_sequence r \<noteq> of_nat index + 1
           \<or> er_reserved_zero r \<noteq> 0
           \<or> er_trailing_reserved_zero r \<noteq> 0
      else r \<noteq> EffectRecordV1_default)"

definition journal_validate :: "EffectJournalV1 \<Rightarrow> EffectJournalError + unit" where
  "journal_validate j =
     (if ej_state j = Journal_Dead then
        (if j = journal_DEAD then Inr () else Inl JournalError_Invariant)
      else if ej_state j = Journal_Building
         \<or> ej_reserved_zero j \<noteq> replicate 5 0
         \<or> ej_object_generation j \<noteq> EFFECT_JOURNAL_OBJECT_GENERATION
         \<or> unat (ej_committed_record_count j) > EFFECT_JOURNAL_RECORD_COUNT
         \<or> unat (ej_committed_record_count j) + unat (ej_reserved_record_count j)
             > EFFECT_JOURNAL_RECORD_COUNT
         \<or> ej_reserved_record_count j > 2
         \<or> (ej_state j = Journal_Sealed \<and> ej_reserved_record_count j \<noteq> 0)
      then Inl JournalError_Invariant
      else if list_ex (\<lambda>(index, r). record_slot_invalid j index r) (enumerate 0 (ej_records j))
      then Inl JournalError_Invariant
      else if ej_next_record_sequence j \<noteq> ucast (ej_committed_record_count j) + 1
      then Inl JournalError_Invariant
      else Inr ())"


section \<open>Validity and the log\<close>

definition journal_ok :: "EffectJournalV1 \<Rightarrow> bool" where
  "journal_ok j \<longleftrightarrow> length (ej_records j) = EFFECT_JOURNAL_RECORD_COUNT \<and> journal_validate j = Inr ()"

definition journal_log :: "EffectJournalV1 \<Rightarrow> EffectRecordV1 list" where
  "journal_log j = take (unat (ej_committed_record_count j)) (ej_records j)"

definition header_ok :: "EffectRecordV1 \<Rightarrow> bool" where
  "header_ok r \<longleftrightarrow> er_schema_version r = EFFECT_RECORD_SCHEMA_VERSION
     \<and> er_byte_size r = EFFECT_RECORD_BYTE_SIZE \<and> er_record_sequence r = 0
     \<and> er_reserved_zero r = 0 \<and> er_trailing_reserved_zero r = 0"

text \<open>The record that appending \<open>r\<close> after \<open>n\<close> others commits.\<close>

definition sequenced :: "nat \<Rightarrow> EffectRecordV1 \<Rightarrow> EffectRecordV1" where
  "sequenced n r = r\<lparr>er_record_sequence := of_nat n + 1\<rparr>"

lemma record_event_header [simp]: "header_ok (record_event k s e a ag q ty rs)"
  by (simp add: header_ok_def record_event_def)

lemma journal_ok_iff:
  assumes "ej_state j \<noteq> Journal_Dead"
  shows "journal_ok j \<longleftrightarrow> ej_state j \<noteq> Journal_Building \<and> length (ej_records j) = 16
    \<and> ej_reserved_zero j = replicate 5 0 \<and> ej_object_generation j = 1
    \<and> unat (ej_committed_record_count j) + unat (ej_reserved_record_count j) \<le> 16
    \<and> unat (ej_reserved_record_count j) \<le> 2
    \<and> (ej_state j = Journal_Sealed \<longrightarrow> ej_reserved_record_count j = 0)
    \<and> (\<forall>i < 16. \<not> record_slot_invalid j i (ej_records j ! i))
    \<and> ej_next_record_sequence j = of_nat (unat (ej_committed_record_count j)) + 1"
proof -
  have list: "list_ex (\<lambda>(i, r). record_slot_invalid j i r) (enumerate 0 (ej_records j)) \<longleftrightarrow>
      \<not> (\<forall>i < length (ej_records j). \<not> record_slot_invalid j i (ej_records j ! i))"
    by (auto simp: list_ex_iff in_set_enumerate_eq)
  have "ej_reserved_record_count j > 2 \<longleftrightarrow> unat (ej_reserved_record_count j) > 2"
    by (simp add: word_less_nat_alt)
  moreover have "(ucast (ej_committed_record_count j) :: u64) = of_nat (unat (ej_committed_record_count j))"
    by simp
  ultimately show ?thesis
    unfolding journal_ok_def journal_validate_def list using assms
    by (cases "ej_state j") (auto simp: linorder_not_less [of "16::nat"] linorder_not_less [of "2::nat"])
qed

lemma journal_ok_dead: "journal_ok journal_DEAD"
  by (simp add: journal_ok_def journal_validate_def journal_DEAD_def)

lemma journal_publish_building:
  "journal_publish journal_building = (Inr (), journal_building\<lparr>ej_state := Journal_Live\<rparr>)"
  by (simp add: journal_publish_def journal_building_def)

lemma journal_ok_published: "journal_ok (journal_building\<lparr>ej_state := Journal_Live\<rparr>)"
  by (simp add: journal_ok_iff)
    (simp add: journal_building_def journal_DEAD_def record_slot_invalid_def)

lemma unat_succ_of_nat: "n + 1 < 2 ^ 64 \<Longrightarrow> unat (of_nat n + 1 :: u64) = n + 1"
  by (simp add: unat_word_ariths unsigned_of_nat take_bit_nat_eq_self)

lemma journal_okD:
  assumes "journal_ok j" "ej_state j \<noteq> Journal_Dead"
  shows "length (ej_records j) = 16"
    and "unat (ej_committed_record_count j) + unat (ej_reserved_record_count j) \<le> 16"
    and "unat (ej_reserved_record_count j) \<le> 2"
    and "ej_next_record_sequence j = of_nat (unat (ej_committed_record_count j)) + 1"
    and "unat (ej_next_record_sequence j) = unat (ej_committed_record_count j) + 1"
proof -
  note ok = assms(1) [unfolded journal_ok_iff [OF assms(2)]]
  show "length (ej_records j) = 16"
    and le: "unat (ej_committed_record_count j) + unat (ej_reserved_record_count j) \<le> 16"
    and "unat (ej_reserved_record_count j) \<le> 2"
    and next_eq: "ej_next_record_sequence j = of_nat (unat (ej_committed_record_count j)) + 1"
    using ok by blast+
  show "unat (ej_next_record_sequence j) = unat (ej_committed_record_count j) + 1"
    unfolding next_eq by (rule unat_succ_of_nat) (use le in simp)
qed

lemma length_journal_log:
  "journal_ok j \<Longrightarrow> ej_state j \<noteq> Journal_Dead \<Longrightarrow>
   length (journal_log j) = unat (ej_committed_record_count j)"
  using journal_okD(1,2) [of j] by (simp add: journal_log_def)

section \<open>Appending\<close>

definition committed :: "EffectRecordV1 \<Rightarrow> EffectJournalV1 \<Rightarrow> EffectJournalV1" where
  "committed r j =
     j\<lparr>ej_records := (ej_records j)
          [unat (ej_committed_record_count j) := sequenced (unat (ej_committed_record_count j)) r],
       ej_committed_record_count := ej_committed_record_count j + 1,
       ej_next_record_sequence := ej_next_record_sequence j + 1\<rparr>"

lemma unat_count_succ: "unat (c :: u8) < 16 \<Longrightarrow> unat (c + 1) = unat c + 1"
  by (simp add: unat_word_ariths)

lemma append_unreserved_eq:
  assumes "journal_ok j" "ej_state j \<noteq> Journal_Dead" "unat (ej_committed_record_count j) < 16"
  shows "append_unreserved r j =
    (if header_ok r then (Inr (), committed r j) else (Inl JournalError_Invariant, j))"
proof -
  note next_eq = journal_okD(4,5) [OF assms(1,2)]
  have "ej_next_record_sequence j \<noteq> 0" using next_eq(2) by auto
  moreover have "checked_add (ej_next_record_sequence j) 1 = Some (ej_next_record_sequence j + 1)"
    using next_eq(2) assms(3) by (simp add: checked_add_def)
  ultimately show ?thesis
    using assms(3) next_eq(1)
    by (simp add: append_unreserved_def header_ok_def committed_def sequenced_def Let_def)
qed

lemma committed_ok:
  assumes ok: "journal_ok j" and nd: "ej_state j \<noteq> Journal_Dead" and hd: "header_ok r"
    and room: "unat (ej_committed_record_count j) + unat (ej_reserved_record_count j) < 16"
  shows "journal_ok (committed r j)"
proof -
  let ?c = "unat (ej_committed_record_count j)"
  have lt: "?c < 16" using room by simp
  note c1 = unat_count_succ [OF lt]
  note all = ok [unfolded journal_ok_iff [OF nd]]
  have "\<not> record_slot_invalid (committed r j) i (ej_records (committed r j) ! i)" if i: "i < 16" for i
  proof (cases "i = ?c")
    case True
    then show ?thesis
      using hd all lt c1 by (simp add: committed_def record_slot_invalid_def sequenced_def header_ok_def)
  next
    case False
    have "\<not> record_slot_invalid j i (ej_records j ! i)" using all i by blast
    then show ?thesis
      using False all c1 by (auto simp: committed_def record_slot_invalid_def split: if_splits)
  qed
  moreover have "ej_state (committed r j) \<noteq> Journal_Dead" using nd by (simp add: committed_def)
  ultimately show ?thesis
    unfolding journal_ok_iff [OF \<open>ej_state (committed r j) \<noteq> Journal_Dead\<close>]
    using all room c1 by (simp add: committed_def)
qed

lemma committed_log:
  assumes "journal_ok j" "ej_state j \<noteq> Journal_Dead" "unat (ej_committed_record_count j) < 16"
  shows "journal_log (committed r j) = journal_log j @ [sequenced (length (journal_log j)) r]"
  using journal_okD(1) [OF assms(1,2)] assms(3) unat_count_succ [OF assms(3)]
    length_journal_log [OF assms(1,2)]
  by (simp add: journal_log_def committed_def take_Suc_conv_app_nth)

lemma reserve_ok:
  assumes "journal_ok j" "ej_state j = Journal_Live"
    and "unat (ej_committed_record_count j) + unat n \<le> 16" "unat n \<le> 2"
  shows "journal_ok (j\<lparr>ej_reserved_record_count := n\<rparr>)"
proof -
  let ?k = "j\<lparr>ej_reserved_record_count := n\<rparr>"
  have nd: "ej_state j \<noteq> Journal_Dead" "ej_state ?k \<noteq> Journal_Dead" using assms(2) by simp_all
  have "record_slot_invalid ?k i r = record_slot_invalid j i r" for i r
    by (simp add: record_slot_invalid_def)
  then show ?thesis
    using assms unfolding journal_ok_iff [OF nd(1)] journal_ok_iff [OF nd(2)] by simp
qed

lemma reserve_log [simp]: "journal_log (j\<lparr>ej_reserved_record_count := n\<rparr>) = journal_log j"
  by (simp add: journal_log_def)

lemma seal_state_log [simp]: "journal_log (j\<lparr>ej_state := s\<rparr>) = journal_log j"
  by (simp add: journal_log_def)

text \<open>The exact outcomes of the three operations of a published journal.\<close>

lemma begin_lifecycle_eq:
  assumes "journal_ok j" "ej_state j = Journal_Live"
  shows "begin_lifecycle r j =
    (if unat (ej_committed_record_count j) + unat (ej_reserved_record_count j) > 13
     then (Inl JournalError_Full, j)
     else if \<not> header_ok r then (Inl JournalError_Invariant, j)
     else (Inr (), (committed r j)\<lparr>ej_reserved_record_count := 2\<rparr>))"
proof -
  have nd: "ej_state j \<noteq> Journal_Dead" using assms(2) by simp
  note okD = journal_okD [OF assms(1) nd]
  have "ej_next_record_sequence j \<noteq> 0" using okD(5) by auto
  moreover have "checked_add (ej_next_record_sequence j) 2 \<noteq> None"
    using okD(2,5) by (simp add: checked_add_def)
  ultimately show ?thesis
    using assms(2) append_unreserved_eq [OF assms(1) nd, of r]
    by (auto simp: begin_lifecycle_def Let_def action_simps act_then_def act_bind_def)
qed

lemma append_reserved_eq:
  assumes "journal_ok j" "ej_state j = Journal_Live" "ej_reserved_record_count j \<noteq> 0"
  shows "append_reserved r rel j =
    (if \<not> header_ok r
     then (Inl JournalError_Invariant, j\<lparr>ej_reserved_record_count := ej_reserved_record_count j - 1\<rparr>)
     else (Inr (), (committed r j)\<lparr>ej_reserved_record_count :=
                     (if rel then 0 else ej_reserved_record_count j - 1)\<rparr>))"
proof -
  have nd: "ej_state j \<noteq> Journal_Dead" using assms(2) by simp
  note okD = journal_okD [OF assms(1) nd]
  let ?k = "j\<lparr>ej_reserved_record_count := ej_reserved_record_count j - 1\<rparr>"
  have pos: "unat (ej_reserved_record_count j) \<noteq> 0" using assms(3) by (simp add: unat_eq_0)
  have dec: "unat (ej_reserved_record_count j - 1) = unat (ej_reserved_record_count j) - 1"
    using assms(3) by (simp add: unat_minus_one)
  have "journal_ok ?k" by (rule reserve_ok) (use assms okD dec in simp_all)
  moreover have "unat (ej_committed_record_count ?k) < 16" using okD(2) pos by simp
  ultimately have "append_unreserved r ?k =
      (if header_ok r then (Inr (), committed r ?k) else (Inl JournalError_Invariant, ?k))"
    using nd by (intro append_unreserved_eq) simp_all
  then show ?thesis
    using assms(2,3) by (simp add: append_reserved_def act_then_def act_bind_def committed_def)
qed

section \<open>Append-only logs\<close>

text \<open>
  The contract of an audit log: whatever the owner does, the log of a well-formed state only grows
  at its end.  It is met by the journal itself and by every component that embeds it.
\<close>

locale append_log =
  fixes invar :: "'s \<Rightarrow> bool"
    and log :: "'s \<Rightarrow> 'r list"
    and step :: "'s \<Rightarrow> 's \<Rightarrow> bool"
  assumes step_invar: "invar s \<Longrightarrow> step s t \<Longrightarrow> invar t"
    and step_log: "invar s \<Longrightarrow> step s t \<Longrightarrow> \<exists>xs. log t = log s @ xs"
begin

lemma steps_invar: "step\<^sup>*\<^sup>* s t \<Longrightarrow> invar s \<Longrightarrow> invar t"
  by (induction rule: rtranclp_induct) (auto intro: step_invar)

lemma steps_log:
  assumes "step\<^sup>*\<^sup>* s t" "invar s"
  shows "\<exists>xs. log t = log s @ xs"
  using assms(1)
proof (induction rule: rtranclp_induct)
  case base
  show ?case by simp
next
  case (step t u)
  moreover have "invar t" using step.hyps(1) assms(2) by (rule steps_invar)
  ultimately show ?case using step_log by fastforce
qed

lemma steps_nth:
  assumes "step\<^sup>*\<^sup>* s t" "invar s" "i < length (log s)"
  shows "i < length (log t) \<and> log t ! i = log s ! i"
  using steps_log [OF assms(1,2)] assms(3) by (auto simp: nth_append)

end

inductive journal_step :: "EffectJournalV1 \<Rightarrow> EffectJournalV1 \<Rightarrow> bool" where
  step_begin_lifecycle: "begin_lifecycle r j = (x, k) \<Longrightarrow> journal_step j k"
| step_append_reserved: "append_reserved r release j = (x, k) \<Longrightarrow> journal_step j k"
| step_seal: "journal_seal j = (x, k) \<Longrightarrow> journal_step j k"

definition journal_open :: "EffectJournalV1 \<Rightarrow> bool" where
  "journal_open j \<longleftrightarrow> journal_ok j \<and> (ej_state j = Journal_Live \<or> ej_state j = Journal_Sealed)"

lemma journal_openD: "journal_open j \<Longrightarrow> journal_ok j \<and> ej_state j \<noteq> Journal_Dead"
  by (auto simp: journal_open_def)

lemma reserve_open:
  assumes "journal_open j" "ej_state j = Journal_Live"
    and "unat (ej_committed_record_count j) + unat n \<le> 16" "unat n \<le> 2"
  shows "journal_open (j\<lparr>ej_reserved_record_count := n\<rparr>)"
  using reserve_ok [OF _ assms(2,3,4)] assms(1,2) by (simp add: journal_open_def)

text \<open>Committing a record into a free place and choosing a new reservation.\<close>

lemma commit_reserve:
  assumes "journal_ok j" "ej_state j = Journal_Live" "header_ok r"
    and "unat (ej_committed_record_count j) + unat n < 16" "unat n \<le> 2"
  shows "journal_open ((committed r j)\<lparr>ej_reserved_record_count := n\<rparr>)"
    and "journal_log ((committed r j)\<lparr>ej_reserved_record_count := n\<rparr>) =
         journal_log j @ [sequenced (length (journal_log j)) r]"
proof -
  have nd: "ej_state j \<noteq> Journal_Dead" using assms(2) by simp
  have lt: "unat (ej_committed_record_count j) < 16" using assms(4) by simp
  let ?k = "j\<lparr>ej_reserved_record_count := n\<rparr>"
  have "journal_ok ?k" by (rule reserve_ok) (use assms in simp_all)
  then have "journal_ok (committed r ?k)"
    by (rule committed_ok) (use nd assms(3,4) in simp_all)
  moreover have "committed r ?k = (committed r j)\<lparr>ej_reserved_record_count := n\<rparr>"
    by (simp add: committed_def)
  ultimately have "journal_ok ((committed r j)\<lparr>ej_reserved_record_count := n\<rparr>)" by simp
  moreover have "ej_state ((committed r j)\<lparr>ej_reserved_record_count := n\<rparr>) = Journal_Live"
    using assms(2) by (simp add: committed_def)
  ultimately show "journal_open ((committed r j)\<lparr>ej_reserved_record_count := n\<rparr>)"
    by (simp add: journal_open_def)
  show "journal_log ((committed r j)\<lparr>ej_reserved_record_count := n\<rparr>) =
         journal_log j @ [sequenced (length (journal_log j)) r]"
    using committed_log [OF assms(1) nd lt] by simp
qed

lemma begin_lifecycle_step:
  assumes "journal_open j" "begin_lifecycle r j = (x, k)"
  shows "journal_open k"
    and "journal_log k = journal_log j @
         (if x = Inr () then [sequenced (length (journal_log j)) r] else [])"
    and "is_err x \<Longrightarrow> k = j"
    and "x = Inr () \<Longrightarrow> ej_state k = Journal_Live \<and> ej_reserved_record_count k = 2"
proof -
  have "journal_open k \<and> journal_log k = journal_log j @
         (if x = Inr () then [sequenced (length (journal_log j)) r] else [])
      \<and> (is_err x \<longrightarrow> k = j)
      \<and> (x = Inr () \<longrightarrow> ej_state k = Journal_Live \<and> ej_reserved_record_count k = 2)"
  proof (cases "ej_state j = Journal_Live")
    case False
    then show ?thesis using assms by (auto simp: begin_lifecycle_def)
  next
    case live: True
    have ok: "journal_ok j" using assms(1) by (simp add: journal_open_def)
    note eq = begin_lifecycle_eq [OF ok live, of r] assms(2)
    show ?thesis
    proof (cases "x = Inr ()")
      case True
      then have "unat (ej_committed_record_count j) + unat (ej_reserved_record_count j) \<le> 13"
        and hd: "header_ok r" and k: "k = (committed r j)\<lparr>ej_reserved_record_count := 2\<rparr>"
        using eq by (auto split: if_splits)
      then show ?thesis
        using commit_reserve [OF ok live hd, of 2] True live by (simp add: committed_def)
    next
      case False
      then show ?thesis using eq assms(1) by (auto split: if_splits)
    qed
  qed
  then show "journal_open k"
    and "journal_log k = journal_log j @
         (if x = Inr () then [sequenced (length (journal_log j)) r] else [])"
    and "is_err x \<Longrightarrow> k = j"
    and "x = Inr () \<Longrightarrow> ej_state k = Journal_Live \<and> ej_reserved_record_count k = 2" by blast+
qed

lemma append_reserved_step:
  assumes "journal_open j" "append_reserved r release j = (x, k)"
  shows "journal_open k"
    and "journal_log k = journal_log j @
         (if x = Inr () then [sequenced (length (journal_log j)) r] else [])"
    and "x = Inr () \<Longrightarrow> ej_state j = Journal_Live \<and> ej_state k = Journal_Live
           \<and> ej_reserved_record_count k = (if release then 0 else ej_reserved_record_count j - 1)"
proof -
  have "journal_open k \<and> journal_log k = journal_log j @
         (if x = Inr () then [sequenced (length (journal_log j)) r] else [])
      \<and> (x = Inr () \<longrightarrow> ej_state j = Journal_Live \<and> ej_state k = Journal_Live
           \<and> ej_reserved_record_count k = (if release then 0 else ej_reserved_record_count j - 1))"
  proof (cases "ej_state j = Journal_Live \<and> ej_reserved_record_count j \<noteq> 0")
    case False
    then show ?thesis using assms by (auto simp: append_reserved_def)
  next
    case True
    then have live: "ej_state j = Journal_Live" and pos: "ej_reserved_record_count j \<noteq> 0" by auto
    have ok: "journal_ok j" using assms(1) by (simp add: journal_open_def)
    have nd: "ej_state j \<noteq> Journal_Dead" using live by simp
    note okD = journal_okD [OF ok nd]
    let ?n = "if release then 0 else ej_reserved_record_count j - 1"
    have dec: "unat (ej_reserved_record_count j - 1) = unat (ej_reserved_record_count j) - 1"
      using pos by (simp add: unat_minus_one)
    have pos': "unat (ej_reserved_record_count j) \<noteq> 0" using pos by (simp add: unat_eq_0)
    note eq = append_reserved_eq [OF ok live pos, of r release] assms(2)
    show ?thesis
    proof (cases "header_ok r")
      case hd: True
      with eq have "x = Inr ()" "k = (committed r j)\<lparr>ej_reserved_record_count := ?n\<rparr>"
        by (auto split: if_splits)
      then show ?thesis
        using commit_reserve [OF ok live hd, of ?n] okD dec pos' live by (auto simp: committed_def)
    next
      case False
      with eq have "k = j\<lparr>ej_reserved_record_count := ej_reserved_record_count j - 1\<rparr>" "x \<noteq> Inr ()"
        by auto
      then show ?thesis
        using reserve_open [OF assms(1) live, of "ej_reserved_record_count j - 1"] okD dec by simp
    qed
  qed
  then show "journal_open k"
    and "journal_log k = journal_log j @
         (if x = Inr () then [sequenced (length (journal_log j)) r] else [])"
    and "x = Inr () \<Longrightarrow> ej_state j = Journal_Live \<and> ej_state k = Journal_Live
           \<and> ej_reserved_record_count k = (if release then 0 else ej_reserved_record_count j - 1)" by blast+
qed

lemma seal_step:
  assumes "journal_open j" "journal_seal j = (x, k)"
  shows "journal_open k" "journal_log k = journal_log j"
proof -
  have "journal_open k \<and> journal_log k = journal_log j"
  proof (cases "ej_state j \<noteq> Journal_Live \<or> ej_reserved_record_count j \<noteq> 0")
    case True
    then show ?thesis using assms by (auto simp: journal_seal_def)
  next
    case False
    then have k: "k = j\<lparr>ej_state := Journal_Sealed\<rparr>" using assms(2) by (simp add: journal_seal_def)
    have nd: "ej_state j \<noteq> Journal_Dead" "ej_state k \<noteq> Journal_Dead" using False by (simp_all add: k)
    have "record_slot_invalid k i r = record_slot_invalid j i r" for i r
      by (simp add: record_slot_invalid_def k)
    moreover have "journal_ok j" using assms(1) by (simp add: journal_open_def)
    ultimately have "journal_ok k"
      using False unfolding journal_ok_iff [OF nd(1)] journal_ok_iff [OF nd(2)] by (simp add: k)
    then show ?thesis by (simp add: journal_open_def k)
  qed
  then show "journal_open k" "journal_log k = journal_log j" by blast+
qed

interpretation journal: append_log journal_open journal_log journal_step
proof unfold_locales
  fix j k
  assume j: "journal_open j" and step: "journal_step j k"
  from step show "journal_open k"
    by cases (use j in \<open>blast intro: begin_lifecycle_step(1) append_reserved_step(1) seal_step(1)\<close>)+
  from step show "\<exists>xs. journal_log k = journal_log j @ xs"
  proof cases
    case (step_begin_lifecycle r x)
    from begin_lifecycle_step(2) [OF j this] show ?thesis by blast
  next
    case (step_append_reserved r release x)
    from append_reserved_step(2) [OF j this] show ?thesis by blast
  next
    case (step_seal x)
    from seal_step(2) [OF j this] show ?thesis by simp
  qed
qed

section \<open>Reading\<close>

lemma log_sequence:
  assumes "journal_ok j" "ej_state j \<noteq> Journal_Dead" "i < length (journal_log j)"
  shows "er_record_sequence (journal_log j ! i) = of_nat i + 1"
proof -
  have i: "i < unat (ej_committed_record_count j)" "i < 16"
    using assms(3) length_journal_log [OF assms(1,2)] journal_okD(2) [OF assms(1,2)] by auto
  with assms(1) have "\<not> record_slot_invalid j i (ej_records j ! i)"
    unfolding journal_ok_iff [OF assms(2)] by blast
  with i show ?thesis by (simp add: record_slot_invalid_def journal_log_def)
qed

lemma journal_record_eq_Inr:
  assumes "journal_open j"
  shows "journal_record j sequence = Inr r \<longleftrightarrow>
    0 < unat sequence \<and> unat sequence \<le> length (journal_log j) \<and> r = journal_log j ! (unat sequence - 1)"
proof -
  note ok = journal_openD [OF assms, THEN conjunct1] and nd = journal_openD [OF assms, THEN conjunct2]
  note len = length_journal_log [OF ok nd]
  show ?thesis
  proof (cases "0 < unat sequence \<and> unat sequence \<le> length (journal_log j)")
    case True
    then have s1: "1 \<le> sequence" by (metis One_nat_def Suc_leI unat_1 word_le_nat_alt)
    then have sub: "checked_sub sequence 1 = Some (sequence - 1)" by (simp add: checked_sub_def)
    have sub1: "unat (sequence - 1) = unat sequence - 1" using checked_sub_SomeD [OF sub] by simp
    have i: "unat sequence - 1 < length (journal_log j)" using True by auto
    have "er_record_sequence (journal_log j ! (unat sequence - 1)) = of_nat (unat sequence - 1) + 1"
      by (rule log_sequence [OF ok nd i])
    also have "\<dots> = of_nat (unat sequence - 1 + 1)" by simp
    also have "\<dots> = sequence" using True by simp
    finally have "er_record_sequence (ej_records j ! (unat sequence - 1)) = sequence"
      using i len by (simp add: journal_log_def)
    then show ?thesis
      using assms True sub sub1 i len
      by (auto simp: journal_record_def journal_open_def Let_def journal_log_def)
  next
    case False
    have "journal_record j sequence \<noteq> Inr r"
    proof
      assume "journal_record j sequence = Inr r"
      then obtain v where v: "checked_sub sequence 1 = Some v" "unat v < unat (ej_committed_record_count j)"
        by (auto simp: journal_record_def Let_def split: if_splits option.splits)
      have "1 \<le> sequence" "unat v = unat sequence - 1" using checked_sub_SomeD [OF v(1)] by auto
      with v(2) len False show False by (simp add: word_le_nat_alt)
    qed
    with False show ?thesis by blast
  qed
qed

text \<open>The inverse of \<open>word\<close> on all sixteen indices.\<close>

definition record_of_words :: "u64 list \<Rightarrow> EffectRecordV1" where
  "record_of_words ws =
     \<lparr>er_schema_version = ucast (ws ! 0), er_byte_size = ucast (drop_bit 32 (ws ! 0)),
      er_event_kind = ucast (ws ! 1), er_status = ucast (drop_bit 32 (ws ! 1)),
      er_record_sequence = ws ! 2, er_decision_epoch = ws ! 3, er_principal_id = ws ! 4,
      er_actor_task_id = ws ! 5, er_actor_task_generation = ws ! 6, er_subject_task_id = ws ! 7,
      er_subject_task_generation = ws ! 8, er_request_sequence = ws ! 9, er_action_id = ws ! 10,
      er_capability_object_type = ucast (ws ! 11), er_reserved_zero = ucast (drop_bit 32 (ws ! 11)),
      er_capability_object_id = ws ! 12, er_capability_object_generation = ws ! 13,
      er_capability_rights = ws ! 14, er_trailing_reserved_zero = ws ! 15\<rparr>"

lemma packed_low: "ucast ((ucast (a :: u32) :: u64) OR push_bit 32 b) = a"
  by (rule bit_eqI) (auto simp: bit_simps)

lemma packed_high:
  "ucast (drop_bit 32 (ucast (a :: u32) :: u64) OR drop_bit 32 (push_bit 32 (ucast (b :: u32)))) = b"
  by (rule bit_eqI) (auto simp: bit_simps dest: bit_imp_le_length)

lemma read_triplet_record:
  "journal_record j s = Inr r \<Longrightarrow> unat t \<le> 5 \<Longrightarrow>
   read_triplet j s t =
     Inr (case_option 0 (\<lambda>w. w) (record_word r (unat t * 3)),
          case_option 0 (\<lambda>w. w) (record_word r (unat t * 3 + 1)),
          case_option 0 (\<lambda>w. w) (record_word r (unat t * 3 + 2)))"
  by (simp add: read_triplet_def Let_def)

text \<open>The words a reader collects by asking for the triplets zero to five of a record.\<close>

definition read_all_words :: "EffectJournalV1 \<Rightarrow> u64 \<Rightarrow> u64 list" where
  "read_all_words j s =
     concat (map (\<lambda>t. case read_triplet j s t of Inl e \<Rightarrow> [] | Inr (a, b, c) \<Rightarrow> [a, b, c])
                 [0, 1, 2, 3, 4, 5])"

section \<open>Properties of the journal\<close>

text \<open>A published journal with one record, for the concrete instances below.\<close>

definition example_record :: EffectRecordV1 where
  "example_record =
     record_event Event_Requested Status_Ok 1 2 5 ApprovalRequestV1_default OBJECT_TYPE_APPROVAL_BROKER
       CAPABILITY_RIGHT_SUBMIT_APPROVAL"

definition example_journal :: EffectJournalV1 where
  "example_journal = snd (begin_lifecycle example_record (journal_building\<lparr>ej_state := Journal_Live\<rparr>))"

lemma journal_log_building [simp]: "journal_log journal_building = []"
  by (simp add: journal_log_def journal_building_def)

lemma example_lifecycle:
  "begin_lifecycle example_record (journal_building\<lparr>ej_state := Journal_Live\<rparr>) = (Inr (), example_journal)"
  unfolding example_journal_def
  by (subst (1 2) begin_lifecycle_eq [OF journal_ok_published])
    (simp_all add: example_record_def, simp add: journal_building_def)

lemma published_open: "journal_open (journal_building\<lparr>ej_state := Journal_Live\<rparr>)"
  by (simp add: journal_open_def journal_ok_published)

lemma example_journal_open: "journal_open example_journal"
  by (rule begin_lifecycle_step(1) [OF published_open example_lifecycle])

lemma example_journal_log: "journal_log example_journal = [sequenced 0 example_record]"
  using begin_lifecycle_step(2) [OF published_open example_lifecycle] by simp



text \<open>C30: from publication on, every journal passes validation, holds at most sixteen records, and
  its records are numbered densely from one in the order of commitment.\<close>

theorem journal_invariant:
  assumes "journal_step\<^sup>*\<^sup>* (snd (journal_publish journal_building)) j"
  shows "journal_validate j = Inr () \<and> length (journal_log j) \<le> EFFECT_JOURNAL_RECORD_COUNT
    \<and> map er_record_sequence (journal_log j) = map (\<lambda>i. of_nat i + 1) [0 ..< length (journal_log j)]"
proof -
  have j: "journal_open j"
    using journal.steps_invar [OF assms] published_open by (simp add: journal_publish_building)
  note ok = journal_openD [OF j, THEN conjunct1] and nd = journal_openD [OF j, THEN conjunct2]
  have "length (journal_log j) \<le> 16"
    using length_journal_log [OF ok nd] journal_okD(2) [OF ok nd] by simp
  moreover have "map er_record_sequence (journal_log j) =
      map (\<lambda>i. of_nat i + 1) [0 ..< length (journal_log j)]"
    by (rule nth_equalityI) (simp_all add: log_sequence [OF ok nd])
  ultimately show ?thesis using ok by (simp add: journal_ok_def)
qed

theorem journal_invariant_witness: "journal_validate example_journal = Inr ()"
proof -
  have "journal_step\<^sup>*\<^sup>* (snd (journal_publish journal_building)) example_journal"
    unfolding journal_publish_building snd_conv
    by (rule r_into_rtranclp, rule journal_step.step_begin_lifecycle, rule example_lifecycle)
  from journal_invariant [OF this] show ?thesis by simp
qed

text \<open>C28: a reservation is honoured.  Once a lifecycle has begun, its decision and its outcome can
  always be appended: neither append can fail for lack of space, and the log becomes exactly the old
  log followed by the request, the decision and the outcome.\<close>

theorem reservation_honoured:
  assumes "journal_open j" "begin_lifecycle r0 j = (Inr (), j1)" "header_ok r1" "header_ok r2"
  shows "\<exists>j2 j3. append_reserved r1 False j1 = (Inr (), j2) \<and> append_reserved r2 release j2 = (Inr (), j3)
    \<and> ej_reserved_record_count j3 = 0
    \<and> journal_log j3 = journal_log j @
        [sequenced (length (journal_log j)) r0, sequenced (length (journal_log j) + 1) r1,
         sequenced (length (journal_log j) + 2) r2]"
proof -
  note b = begin_lifecycle_step [OF assms(1,2)]
  have j1: "ej_state j1 = Journal_Live" "ej_reserved_record_count j1 = 2" using b(4) by auto
  have ok1: "journal_ok j1" using b(1) by (simp add: journal_open_def)
  obtain j2 where a2: "append_reserved r1 False j1 = (Inr (), j2)"
    using append_reserved_eq [OF ok1 j1(1), of r1 False] j1(2) assms(3) by auto
  note c = append_reserved_step [OF b(1) a2]
  have j2: "ej_state j2 = Journal_Live" "ej_reserved_record_count j2 = 1" using c(3) j1(2) by auto
  have ok2: "journal_ok j2" using c(1) by (simp add: journal_open_def)
  obtain j3 where a3: "append_reserved r2 release j2 = (Inr (), j3)"
    using append_reserved_eq [OF ok2 j2(1), of r2 release] j2(2) assms(4) by auto
  note d = append_reserved_step [OF c(1) a3]
  show ?thesis
    using a2 a3 b(2) c(2) d(2,3) j2(2) by (intro exI [of _ j2] exI [of _ j3]) auto
qed

theorem reservation_honoured_witness:
  "\<exists>j2 j3. append_reserved example_record False example_journal = (Inr (), j2)
     \<and> append_reserved example_record True j2 = (Inr (), j3) \<and> length (journal_log j3) = 3"
proof -
  have hd: "header_ok example_record" by (simp add: example_record_def)
  from reservation_honoured [OF published_open example_lifecycle hd hd, of True] show ?thesis by auto
qed

text \<open>C37: reading is faithful.  The six triplets of a readable record, read one at a time, contain
  the whole record: decoding the collected words gives back exactly the committed record.\<close>

theorem triplets_roundtrip:
  assumes "journal_record j sequence = Inr r"
  shows "record_of_words (read_all_words j sequence) = r"
proof -
  have "read_all_words j sequence =
      map (\<lambda>i. case_option 0 (\<lambda>w. w) (record_word r i)) 
        [0, 1, 2, 3, 4, 5, 6, 7, 8, 9, 10, 11, 12, 13, 14, 15, 16, 17]"
    by (simp add: read_all_words_def read_triplet_record [OF assms]) (simp add: numeral_2_eq_2)
  then show ?thesis
    by (simp add: record_of_words_def record_word_def packed_low packed_high)
qed

theorem triplets_roundtrip_witness:
  "record_of_words (read_all_words example_journal 1) = sequenced 0 example_record"
  by (rule triplets_roundtrip)
    (simp add: journal_record_eq_Inr [OF example_journal_open] example_journal_log)

end
