(* ===== verification/Task_Context.thy ===== *)
theory Task_Context
  imports Runtime_Types
begin

text \<open>
  Saved register state of a task: \<open>TrapFrameV1\<close>, \<open>TaskContextV1\<close>, \<open>ContextPolicy\<close> and the
  validation of a context before it is resumed, from \<open>crates/task-runtime/src/lib.rs\<close>.
\<close>

section \<open>Data\<close>

record TrapFrameV1 =
  tf_rax :: u64
  tf_rbx :: u64
  tf_rcx :: u64
  tf_rdx :: u64
  tf_rbp :: u64
  tf_rsi :: u64
  tf_rdi :: u64
  tf_r8 :: u64
  tf_r9 :: u64
  tf_r10 :: u64
  tf_r11 :: u64
  tf_r12 :: u64
  tf_r13 :: u64
  tf_r14 :: u64
  tf_r15 :: u64
  tf_rip :: u64
  tf_cs :: u64
  tf_rflags :: u64
  tf_rsp :: u64
  tf_ss :: u64

record TaskContextV1 =
  cx_rax :: u64
  cx_rbx :: u64
  cx_rcx :: u64
  cx_rdx :: u64
  cx_rbp :: u64
  cx_rsi :: u64
  cx_rdi :: u64
  cx_r8 :: u64
  cx_r9 :: u64
  cx_r10 :: u64
  cx_r11 :: u64
  cx_r12 :: u64
  cx_r13 :: u64
  cx_r14 :: u64
  cx_r15 :: u64
  cx_rip :: u64
  cx_rsp :: u64
  cx_rflags :: u64
  cx_cs :: u64
  cx_ss :: u64
  cx_root :: u64
  cx_task_id :: u64
  cx_generation :: u64

record ContextPolicy =
  cp_text_start :: u64
  cp_text_end :: u64
  cp_stack_start :: u64
  cp_stack_end :: u64
  cp_user_code :: u64
  cp_user_data :: u64

datatype ContextError =
    Context_WrongTask
  | Context_WrongGeneration
  | Context_WrongRoot
  | Context_InvalidInstructionPointer
  | Context_InvalidStackPointer
  | Context_InvalidSelectors
  | Context_InvalidFlags


section \<open>Operations\<close>

definition context_initial :: "u64 \<Rightarrow> u64 \<Rightarrow> u64 \<Rightarrow> u64 \<Rightarrow> u64 \<Rightarrow> u64 \<Rightarrow> u64 \<Rightarrow> TaskContextV1" where
  "context_initial task_id generation root rip rsp cs ss =
     \<lparr>cx_rax = 0, cx_rbx = 0, cx_rcx = 0, cx_rdx = 0, cx_rbp = 0, cx_rsi = 0, cx_rdi = 0,
      cx_r8 = 0, cx_r9 = 0, cx_r10 = 0, cx_r11 = 0, cx_r12 = 0, cx_r13 = 0, cx_r14 = 0, cx_r15 = 0,
      cx_rip = rip, cx_rsp = rsp, cx_rflags = 2, cx_cs = cs, cx_ss = ss, cx_root = root,
      cx_task_id = task_id, cx_generation = generation\<rparr>"

definition from_trap :: "TrapFrameV1 \<Rightarrow> u64 \<Rightarrow> u64 \<Rightarrow> u64 \<Rightarrow> TaskContextV1" where
  "from_trap frame task_id generation root =
     \<lparr>cx_rax = tf_rax frame, cx_rbx = tf_rbx frame, cx_rcx = tf_rcx frame, cx_rdx = tf_rdx frame,
      cx_rbp = tf_rbp frame, cx_rsi = tf_rsi frame, cx_rdi = tf_rdi frame, cx_r8 = tf_r8 frame,
      cx_r9 = tf_r9 frame, cx_r10 = tf_r10 frame, cx_r11 = tf_r11 frame, cx_r12 = tf_r12 frame,
      cx_r13 = tf_r13 frame, cx_r14 = tf_r14 frame, cx_r15 = tf_r15 frame, cx_rip = tf_rip frame,
      cx_rsp = tf_rsp frame, cx_rflags = tf_rflags frame, cx_cs = tf_cs frame, cx_ss = tf_ss frame,
      cx_root = root, cx_task_id = task_id, cx_generation = generation\<rparr>"

definition gprs :: "TaskContextV1 \<Rightarrow> u64 list" where
  "gprs c =
     [cx_rax c, cx_rbx c, cx_rcx c, cx_rdx c, cx_rbp c, cx_rsi c, cx_rdi c, cx_r8 c, cx_r9 c,
      cx_r10 c, cx_r11 c, cx_r12 c, cx_r13 c, cx_r14 c, cx_r15 c]"

definition is_canonical_48 :: "u64 \<Rightarrow> bool" where
  "is_canonical_48 address =
     (let upper = drop_bit 48 address; sign = drop_bit 47 address AND 1
      in (sign = 0 \<and> upper = 0) \<or> (sign = 1 \<and> upper = 0xffff))"

definition FORBIDDEN_RFLAGS :: u64 where
  "FORBIDDEN_RFLAGS = push_bit 9 1 OR push_bit 10 1 OR push_bit 12 3"

definition context_validate ::
  "TaskContextV1 \<Rightarrow> u64 \<Rightarrow> u64 \<Rightarrow> u64 \<Rightarrow> ContextPolicy \<Rightarrow> ContextError + unit" where
  "context_validate c expected_task expected_generation expected_root policy =
     (if cx_task_id c \<noteq> expected_task then Inl Context_WrongTask
      else if cx_generation c = 0 \<or> cx_generation c \<noteq> expected_generation
      then Inl Context_WrongGeneration
      else if cx_root c = 0 \<or> cx_root c \<noteq> expected_root \<or> \<not> is_multiple_of (cx_root c) 4096
      then Inl Context_WrongRoot
      else if \<not> is_canonical_48 (cx_rip c) \<or> cx_rip c < cp_text_start policy
         \<or> cx_rip c \<ge> cp_text_end policy
      then Inl Context_InvalidInstructionPointer
      else if \<not> is_canonical_48 (cx_rsp c) \<or> cx_rsp c < cp_stack_start policy
         \<or> cx_rsp c > cp_stack_end policy
      then Inl Context_InvalidStackPointer
      else if cx_cs c \<noteq> cp_user_code policy \<or> cx_ss c \<noteq> cp_user_data policy
      then Inl Context_InvalidSelectors
      else if cx_rflags c AND 2 = 0 \<or> cx_rflags c AND FORBIDDEN_RFLAGS \<noteq> 0
      then Inl Context_InvalidFlags
      else Inr ())"

definition context_set_result :: "TrapStatus \<Rightarrow> u64 \<Rightarrow> TaskContextV1 \<Rightarrow> TaskContextV1" where
  "context_set_result status value c = c\<lparr>cx_rax := status_code status, cx_rdx := value\<rparr>"

definition context_clear_dead :: "TaskContextV1 \<Rightarrow> TaskContextV1" where
  "context_clear_dead c = context_initial 0 0 0 0 0 0 0"


section \<open>Canonical addresses\<close>

text \<open>Bits 47 to 63 of an address, as used by the two cases of \<open>is_canonical_48\<close>.\<close>

lemma drop_48_zero_iff: "drop_bit 48 (a :: u64) = 0 \<longleftrightarrow> (\<forall>n \<ge> 48. n < 64 \<longrightarrow> \<not> bit a n)"
proof
  assume "drop_bit 48 a = 0"
  then have "\<not> bit (drop_bit 48 a) (n - 48)" for n by simp
  then show "\<forall>n \<ge> 48. n < 64 \<longrightarrow> \<not> bit a n"
    by (metis bit_drop_bit_eq le_add_diff_inverse o_apply)
next
  assume "\<forall>n \<ge> 48. n < 64 \<longrightarrow> \<not> bit a n"
  then show "drop_bit 48 a = 0"
    by (intro bit_word_eqI) (use bit_imp_le_length [of a] in \<open>fastforce simp: bit_simps\<close>)
qed

lemma word_bits_eq_iff: "(a :: u64) = b \<longleftrightarrow> (\<forall>n < 64. bit a n \<longleftrightarrow> bit b n)"
  by (auto intro: bit_word_eqI)

lemma drop_48_ones_iff: "drop_bit 48 (a :: u64) = 0xffff \<longleftrightarrow> (\<forall>n \<ge> 48. n < 64 \<longrightarrow> bit a n)"
proof -
  have mask: "(0xffff :: u64) = mask 16" by (simp add: mask_eq_exp_minus_1)
  have "drop_bit 48 a = mask 16 \<longleftrightarrow> (\<forall>n < 64. bit (drop_bit 48 a) n \<longleftrightarrow> bit (mask 16 :: u64) n)"
    by (rule word_bits_eq_iff)
  also have "\<dots> \<longleftrightarrow> (\<forall>n < 16. bit a (48 + n))"
    by (auto simp: bit_simps dest: bit_imp_le_length)
  also have "\<dots> \<longleftrightarrow> (\<forall>n \<ge> 48. n < 64 \<longrightarrow> bit a n)"
  proof (intro iffI allI impI)
    fix n :: nat assume "\<forall>n < 16. bit a (48 + n)" "48 \<le> n" "n < 64"
    then show "bit a n" by (auto dest: spec [of _ "n - 48"])
  qed simp
  finally show ?thesis unfolding mask .
qed

lemma sign_bit_iff: "drop_bit 47 (a :: u64) AND 1 = (if bit a 47 then 1 else 0)"
  by (simp add: and_one_eq bit_iff_odd_drop_bit odd_iff_mod_2_eq_one)

text \<open>C39: the address test accepts exactly the addresses that are the sign extension of their low 48
  bits, which is what the processor calls canonical.\<close>

theorem canonical_iff_sign_extended:
  "is_canonical_48 a \<longleftrightarrow> signed_take_bit 47 a = a"
proof -
  have "is_canonical_48 a \<longleftrightarrow> (\<forall>n \<ge> 48. n < 64 \<longrightarrow> bit a n = bit a 47)"
    by (auto simp: is_canonical_48_def sign_bit_iff drop_48_zero_iff drop_48_ones_iff)
  also have "\<dots> \<longleftrightarrow> (\<forall>n < 64. bit a (min 47 n) = bit a n)"
  proof (rule iffI; rule allI; (rule impI)+)
    fix n :: nat assume "\<forall>n \<ge> 48. n < 64 \<longrightarrow> bit a n = bit a 47" "n < 64"
    then show "bit a (min 47 n) = bit a n" by (cases "n \<le> 47") (simp_all add: min_def)
  next
    fix n :: nat assume "\<forall>n < 64. bit a (min 47 n) = bit a n" "48 \<le> n" "n < 64"
    then have "bit a (min 47 n) = bit a n" "min 47 n = 47" by blast (use \<open>48 \<le> n\<close> in simp)
    then show "bit a n = bit a 47" by simp
  qed
  also have "\<dots> \<longleftrightarrow> signed_take_bit 47 a = a"
    unfolding word_bits_eq_iff by (simp add: bit_signed_take_bit_iff)
  finally show ?thesis .
qed



end
