(* ===== verification/Runtime_State.thy ===== *)
theory Runtime_State
  imports Launch_Manifest Task_Context
begin

text \<open>
  The state of the task runtime and its self-check: \<open>TaskSlot\<close>, \<open>ApprovalBroker\<close>,
  \<open>SyntheticEffect\<close>, \<open>EndpointSnapshot\<close>, \<open>RunQueue\<close> and \<open>Runtime\<close> with
  \<open>validate\<close>, \<open>validate_cooperative\<close>, \<open>validate_supervised\<close>, the accessors and
  \<open>dispatch_next\<close>/\<open>capture_trap\<close>, from \<open>crates/task-runtime/src/lib.rs\<close>.

  The array \<open>tasks: [TaskSlot; 2]\<close> is the pair of fields \<open>rt_task0\<close>, \<open>rt_task1\<close>; \<open>rt_tasks\<close> lists
  them in index order.  The array of queue entries is a list of length two.
\<close>

section \<open>Data\<close>

record TaskSlot =
  ts_id :: u64
  ts_generation :: u64
  ts_state :: TaskState
  ts_context :: TaskContextV1
  ts_capabilities :: CapabilityTable

datatype RuntimeProfile = Profile_Cooperative | Profile_Supervised

datatype ApprovalBrokerState =
    Broker_Building
  | Broker_Empty
  | Broker_Pending
  | Broker_Approved
  | Broker_Closing
  | Broker_Dead

record ManifestPublication =
  mp_manifest_id :: u64
  mp_principal_id :: u64
  mp_target_task_id :: u64
  mp_target_generation :: u64
  mp_image_id :: u64
  mp_published :: bool

definition ManifestPublication_EMPTY :: ManifestPublication where
  "ManifestPublication_EMPTY =
     \<lparr>mp_manifest_id = 0, mp_principal_id = 0, mp_target_task_id = 0, mp_target_generation = 0,
      mp_image_id = 0, mp_published = False\<rparr>"

record ApprovalBroker =
  ab_state :: ApprovalBrokerState
  ab_object_generation :: u64
  ab_supervisor_task_id :: u64
  ab_supervisor_generation :: u64
  ab_workload_task_id :: u64
  ab_workload_generation :: u64
  ab_request_kind :: u64
  ab_request :: ApprovalRequestV1
  ab_request_present :: bool
  ab_next_sequence :: u64
  ab_sequence_exhausted :: bool
  ab_decision_epoch :: u64
  ab_approval_epoch :: u64
  ab_expiry_epoch :: u64

definition ApprovalBroker_DEAD :: ApprovalBroker where
  "ApprovalBroker_DEAD =
     \<lparr>ab_state = Broker_Dead, ab_object_generation = 0, ab_supervisor_task_id = 0,
      ab_supervisor_generation = 0, ab_workload_task_id = 0, ab_workload_generation = 0,
      ab_request_kind = 0, ab_request = ApprovalRequestV1_default, ab_request_present = False,
      ab_next_sequence = 0, ab_sequence_exhausted = False, ab_decision_epoch = 0,
      ab_approval_epoch = 0, ab_expiry_epoch = 0\<rparr>"

definition broker_building :: "u64 \<Rightarrow> u64 \<Rightarrow> ApprovalBroker" where
  "broker_building supervisor_generation workload_generation =
     \<lparr>ab_state = Broker_Building, ab_object_generation = FIXED_OBJECT_GENERATION,
      ab_supervisor_task_id = SENDER_TASK_ID, ab_supervisor_generation = supervisor_generation,
      ab_workload_task_id = RECEIVER_TASK_ID, ab_workload_generation = workload_generation,
      ab_request_kind = 0, ab_request = ab_request ApprovalBroker_DEAD, ab_request_present = False,
      ab_next_sequence = 1, ab_sequence_exhausted = False, ab_decision_epoch = 1,
      ab_approval_epoch = 0, ab_expiry_epoch = 0\<rparr>"

definition clear_request :: "ApprovalBroker \<Rightarrow> ApprovalBroker" where
  "clear_request b =
     b\<lparr>ab_request_kind := 0, ab_request := ab_request ApprovalBroker_DEAD, ab_request_present := False,
       ab_approval_epoch := 0, ab_expiry_epoch := 0\<rparr>"

record SyntheticEffect =
  se_object_generation :: u64
  se_supervisor_task_id :: u64
  se_supervisor_generation :: u64
  se_occupied :: bool
  se_value :: u64

definition SyntheticEffect_EMPTY :: SyntheticEffect where
  "SyntheticEffect_EMPTY =
     \<lparr>se_object_generation = 0, se_supervisor_task_id = 0, se_supervisor_generation = 0,
      se_occupied = False, se_value = 0\<rparr>"

record EndpointSnapshot =
  ep_object_generation :: u64
  ep_sender_task :: u64
  ep_sender_generation :: u64
  ep_receiver_task :: u64
  ep_receiver_generation :: u64
  ep_occupied :: bool
  ep_payload :: u64

definition EMPTY_ENDPOINT :: EndpointSnapshot where
  "EMPTY_ENDPOINT =
     \<lparr>ep_object_generation = 0, ep_sender_task = 0, ep_sender_generation = 0, ep_receiver_task = 0,
      ep_receiver_generation = 0, ep_occupied = False, ep_payload = 0\<rparr>"

record RunQueue =
  rq_entries :: "u64 list"
  rq_len :: nat

record Runtime =
  rt_profile :: RuntimeProfile
  rt_task0 :: TaskSlot
  rt_task1 :: TaskSlot
  rt_queue :: RunQueue
  rt_endpoint :: EndpointSnapshot
  rt_manifest :: ManifestPublication
  rt_broker :: ApprovalBroker
  rt_effect :: SyntheticEffect

definition rt_tasks :: "Runtime \<Rightarrow> TaskSlot list" where
  "rt_tasks r = [rt_task0 r, rt_task1 r]"

datatype TrapOutcome = Outcome_Resume u64 | Outcome_Switch u64 | Outcome_Exit u64


section \<open>The run queue\<close>

definition queue_new :: RunQueue where
  "queue_new = \<lparr>rq_entries = replicate TASK_COUNT 0, rq_len = 0\<rparr>"

definition queue_push :: "u64 \<Rightarrow> (RunQueue, RuntimeError, unit) action" where
  "queue_push task q =
     (if task \<in> set (take (rq_len q) (rq_entries q)) then (Inl Err_DuplicateQueueMember, q)
      else if rq_len q = TASK_COUNT then (Inl Err_QueueFull, q)
      else (Inr (), q\<lparr>rq_entries := (rq_entries q)[rq_len q := task], rq_len := rq_len q + 1\<rparr>))"

definition queue_pop :: "RunQueue \<Rightarrow> u64 option \<times> RunQueue" where
  "queue_pop q =
     (if rq_len q = 0 then (None, q)
      else
        (let task = rq_entries q ! 0;
             shifted = foldl (\<lambda>entries index. entries[index - 1 := entries ! index])
                         (rq_entries q) [1 ..< rq_len q];
             len = rq_len q - 1
         in (Some task, \<lparr>rq_entries = shifted[len := 0], rq_len = len\<rparr>)))"

definition queue_contains :: "RunQueue \<Rightarrow> u64 \<Rightarrow> bool" where
  "queue_contains q task \<longleftrightarrow> task \<in> set (take (rq_len q) (rq_entries q))"

definition queue_as_array :: "RunQueue \<Rightarrow> u64 list" where
  "queue_as_array q = rq_entries q"


section \<open>Slots and accessors\<close>

definition slot :: "Runtime \<Rightarrow> u64 \<Rightarrow> RuntimeError + TaskSlot" where
  "slot r task =
     (if task = SENDER_TASK_ID then Inr (rt_task0 r)
      else if task = RECEIVER_TASK_ID then Inr (rt_task1 r)
      else Inl Err_InvalidTask)"

text \<open>An assignment through \<open>slot_mut(task)?\<close>.\<close>

definition slot_mut :: "u64 \<Rightarrow> (TaskSlot \<Rightarrow> TaskSlot) \<Rightarrow> (Runtime, RuntimeError, unit) action" where
  "slot_mut task f r =
     (if task = SENDER_TASK_ID then (Inr (), r\<lparr>rt_task0 := f (rt_task0 r)\<rparr>)
      else if task = RECEIVER_TASK_ID then (Inr (), r\<lparr>rt_task1 := f (rt_task1 r)\<rparr>)
      else (Inl Err_InvalidTask, r))"

text \<open>A call of a method of the slot's capability table through \<open>slot_mut(task)?\<close>: the value is the
  result of the method, which the caller inspects or propagates.\<close>

definition slot_capabilities ::
  "u64 \<Rightarrow> (CapabilityTable, 'e, 'a) action \<Rightarrow> (Runtime, RuntimeError, 'e + 'a) action" where
  "slot_capabilities task f r =
     (case slot r task of
        Inl e \<Rightarrow> (Inl e, r)
      | Inr s \<Rightarrow>
          (case f (ts_capabilities s) of
             (x, table) \<Rightarrow>
               (case slot_mut task (\<lambda>s. s\<lparr>ts_capabilities := table\<rparr>) r of
                  (Inl e, r') \<Rightarrow> (Inl e, r')
                | (Inr _, r') \<Rightarrow> (Inr x, r'))))"

definition act_propagate :: "('s, 'e, 'e + 'a) action \<Rightarrow> ('s, 'e, 'a) action" where
  "act_propagate m = act_bind m (\<lambda>x. act_read (\<lambda>_. x))"

definition queue_push_action :: "u64 \<Rightarrow> (Runtime, RuntimeError, unit) action" where
  "queue_push_action task r =
     (case queue_push task (rt_queue r) of (x, q) \<Rightarrow> (x, r\<lparr>rt_queue := q\<rparr>))"

definition set_result :: "u64 \<Rightarrow> TrapStatus \<Rightarrow> u64 \<Rightarrow> (Runtime, RuntimeError, unit) action" where
  "set_result task status value =
     slot_mut task (\<lambda>s. s\<lparr>ts_context := context_set_result status value (ts_context s)\<rparr>)"

definition runtime_state :: "Runtime \<Rightarrow> u64 \<Rightarrow> RuntimeError + TaskState" where
  "runtime_state r task = and_then (slot r task) (\<lambda>s. Inr (ts_state s))"

definition runtime_generation :: "Runtime \<Rightarrow> u64 \<Rightarrow> RuntimeError + u64" where
  "runtime_generation r task = and_then (slot r task) (\<lambda>s. Inr (ts_generation s))"

definition runtime_context :: "Runtime \<Rightarrow> u64 \<Rightarrow> RuntimeError + TaskContextV1" where
  "runtime_context r task = and_then (slot r task) (\<lambda>s. Inr (ts_context s))"

definition runtime_queue :: "Runtime \<Rightarrow> u64 list \<times> nat" where
  "runtime_queue r = (queue_as_array (rt_queue r), rq_len (rt_queue r))"

text \<open>The snapshot structs repeat the fields of the private structs they are copied from.\<close>

type_synonym ManifestPublicationSnapshot = ManifestPublication

type_synonym ApprovalBrokerSnapshot = ApprovalBroker

type_synonym SyntheticEffectSnapshot = SyntheticEffect

definition runtime_endpoint :: "Runtime \<Rightarrow> EndpointSnapshot" where
  "runtime_endpoint r = rt_endpoint r"

definition runtime_profile :: "Runtime \<Rightarrow> RuntimeProfile" where
  "runtime_profile r = rt_profile r"

definition manifest_publication :: "Runtime \<Rightarrow> ManifestPublicationSnapshot" where
  "manifest_publication r =
     \<lparr>mp_manifest_id = mp_manifest_id (rt_manifest r), mp_principal_id = mp_principal_id (rt_manifest r),
      mp_target_task_id = mp_target_task_id (rt_manifest r),
      mp_target_generation = mp_target_generation (rt_manifest r),
      mp_image_id = mp_image_id (rt_manifest r), mp_published = mp_published (rt_manifest r)\<rparr>"

definition approval_broker :: "Runtime \<Rightarrow> ApprovalBrokerSnapshot" where
  "approval_broker r =
     (let b = rt_broker r
      in \<lparr>ab_state = ab_state b, ab_object_generation = ab_object_generation b,
          ab_supervisor_task_id = ab_supervisor_task_id b,
          ab_supervisor_generation = ab_supervisor_generation b,
          ab_workload_task_id = ab_workload_task_id b, ab_workload_generation = ab_workload_generation b,
          ab_request_kind = ab_request_kind b, ab_request = ab_request b,
          ab_request_present = ab_request_present b, ab_next_sequence = ab_next_sequence b,
          ab_sequence_exhausted = ab_sequence_exhausted b, ab_decision_epoch = ab_decision_epoch b,
          ab_approval_epoch = ab_approval_epoch b, ab_expiry_epoch = ab_expiry_epoch b\<rparr>)"

definition synthetic_effect :: "Runtime \<Rightarrow> SyntheticEffectSnapshot" where
  "synthetic_effect r =
     \<lparr>se_object_generation = se_object_generation (rt_effect r),
      se_supervisor_task_id = se_supervisor_task_id (rt_effect r),
      se_supervisor_generation = se_supervisor_generation (rt_effect r),
      se_occupied = se_occupied (rt_effect r), se_value = se_value (rt_effect r)\<rparr>"

definition capability_table :: "Runtime \<Rightarrow> u64 \<Rightarrow> RuntimeError + CapabilityTableSnapshot" where
  "capability_table r task = and_then (slot r task) (\<lambda>s. Inr (table_snapshot (ts_capabilities s)))"

fun running_scan :: "TaskSlot list \<Rightarrow> u64 \<Rightarrow> RuntimeError + u64" where
  "running_scan [] running = (if running = 0 then Inl Err_NoRunningTask else Inr running)"
| "running_scan (s # slots) running =
     (if ts_state s = TaskState_Running then
        (if running \<noteq> 0 then Inl Err_MultipleRunningTasks else running_scan slots (ts_id s))
      else running_scan slots running)"

definition running_task :: "Runtime \<Rightarrow> RuntimeError + u64" where
  "running_task r = running_scan (rt_tasks r) 0"


section \<open>Validation\<close>

definition queue_validate :: "RunQueue \<Rightarrow> RuntimeError + unit" where
  "queue_validate q =
     (if rq_len q > TASK_COUNT \<or> list_ex (\<lambda>entry. entry \<noteq> 0) (drop (rq_len q) (rq_entries q))
      then Inl Err_InvalidQueueMember
      else if list_ex (\<lambda>(index, task).
                \<not> (task = SENDER_TASK_ID \<or> task = RECEIVER_TASK_ID)
                \<or> task \<in> set (drop (index + 1) (take (rq_len q) (rq_entries q))))
              (enumerate 0 (take (rq_len q) (rq_entries q)))
      then Inl Err_DuplicateQueueMember
      else Inr ())"

definition table_state_expected :: "TaskSlot \<Rightarrow> RuntimeError + CapabilityTableState" where
  "table_state_expected s =
     (case ts_state s of
        TaskState_Staged \<Rightarrow> Inr Cap_Building
      | TaskState_Ready \<Rightarrow> Inr Cap_Live
      | TaskState_Running \<Rightarrow> Inr Cap_Live
      | TaskState_BlockedReceive \<Rightarrow> Inr Cap_Live
      | TaskState_BlockedApproval \<Rightarrow> Inr Cap_Live
      | TaskState_Exited \<Rightarrow>
          (if \<not> (ct_state (ts_capabilities s) = Cap_Live \<or> ct_state (ts_capabilities s) = Cap_Closing)
           then Inl Err_CapabilityInvariant
           else Inr (ct_state (ts_capabilities s)))
      | TaskState_Dead \<Rightarrow> Inr Cap_Dead)"

definition slot_validate :: "RunQueue \<Rightarrow> TaskSlot \<Rightarrow> RuntimeError + unit" where
  "slot_validate q s =
     and_then (table_validate (ts_capabilities s)) (\<lambda>_.
       let queued = queue_contains q (ts_id s)
       in if (ts_state s = TaskState_Ready) \<noteq> queued
          then Inl (if queued then Err_InvalidQueueMember else Err_MissingQueueMember)
          else if (if ts_state s = TaskState_Dead
                   then ts_generation s \<noteq> 0
                        \<or> cx_task_id (ts_context s) \<noteq> 0
                        \<or> cx_generation (ts_context s) \<noteq> 0
                        \<or> cx_root (ts_context s) \<noteq> 0
                        \<or> ct_state (ts_capabilities s) \<noteq> Cap_Dead
                   else ts_generation s = 0
                        \<or> cx_task_id (ts_context s) \<noteq> ts_id s
                        \<or> cx_generation (ts_context s) \<noteq> ts_generation s
                        \<or> cx_root (ts_context s) = 0
                        \<or> ct_task_id (ts_capabilities s) \<noteq> ts_id s
                        \<or> ct_task_generation (ts_capabilities s) \<noteq> ts_generation s)
          then Inl Err_InvalidGeneration
          else
            and_then (table_state_expected s) (\<lambda>expected.
              if ct_state (ts_capabilities s) \<noteq> expected then Inl Err_CapabilityInvariant
              else Inr ()))"


definition validate_cooperative :: "Runtime \<Rightarrow> RuntimeError + unit" where
  "validate_cooperative r =
     (let sender = rt_task0 r; receiver = rt_task1 r; endpoint = rt_endpoint r;
          sender_table = ct_state (ts_capabilities sender);
          receiver_table = ct_state (ts_capabilities receiver)
      in if list_ex (\<lambda>s. ts_state s = TaskState_Staged \<or> ts_state s = TaskState_BlockedApproval) (rt_tasks r)
            \<or> rt_manifest r \<noteq> ManifestPublication_EMPTY
            \<or> rt_broker r \<noteq> ApprovalBroker_DEAD
            \<or> rt_effect r \<noteq> SyntheticEffect_EMPTY
         then Inl Err_CapabilityInvariant
         else if sender_table = Cap_Live
            \<and> (ep_sender_task endpoint \<noteq> ts_id sender
               \<or> ep_sender_generation endpoint \<noteq> ts_generation sender)
         then Inl Err_EndpointInvariant
         else if (sender_table = Cap_Closing \<or> sender_table = Cap_Dead)
            \<and> (ep_sender_task endpoint \<noteq> 0 \<or> ep_sender_generation endpoint \<noteq> 0)
         then Inl Err_EndpointInvariant
         else if receiver_table = Cap_Live
            \<and> (ep_receiver_task endpoint \<noteq> ts_id receiver
               \<or> ep_receiver_generation endpoint \<noteq> ts_generation receiver)
         then Inl Err_EndpointInvariant
         else if (receiver_table = Cap_Closing \<or> receiver_table = Cap_Dead)
            \<and> (ep_receiver_task endpoint \<noteq> 0 \<or> ep_receiver_generation endpoint \<noteq> 0)
         then Inl Err_EndpointInvariant
         else if ts_state receiver = TaskState_BlockedReceive
            \<and> (ep_occupied endpoint \<or> ep_sender_generation endpoint = 0)
         then Inl Err_EndpointInvariant
         else if ep_receiver_generation endpoint = 0 \<and> ep_occupied endpoint
         then Inl Err_EndpointInvariant
         else if (\<not> ep_occupied endpoint \<and> ep_payload endpoint \<noteq> 0)
            \<or> \<not> (ep_object_generation endpoint = 0 \<or> ep_object_generation endpoint = ENDPOINT_GENERATION)
            \<or> (list_ex (\<lambda>s. ts_state s \<noteq> TaskState_Dead) (rt_tasks r)
               \<and> ep_object_generation endpoint \<noteq> ENDPOINT_GENERATION)
            \<or> ((ep_sender_task endpoint = 0) \<noteq> (ep_sender_generation endpoint = 0))
            \<or> ((ep_receiver_task endpoint = 0) \<noteq> (ep_receiver_generation endpoint = 0))
            \<or> \<not> (ep_sender_task endpoint = 0 \<or> ep_sender_task endpoint = SENDER_TASK_ID)
            \<or> \<not> (ep_receiver_task endpoint = 0 \<or> ep_receiver_task endpoint = RECEIVER_TASK_ID)
         then Inl Err_EndpointInvariant
         else if list_all (\<lambda>s. ts_state s = TaskState_Dead) (rt_tasks r) \<and> endpoint \<noteq> EMPTY_ENDPOINT
         then Inl Err_EndpointInvariant
         else Inr ())"

definition validate_manifest_state :: "Runtime \<Rightarrow> RuntimeError + unit" where
  "validate_manifest_state r =
     (let workload = rt_task1 r; manifest = rt_manifest r
      in if ts_state workload = TaskState_Staged
            \<and> (manifest \<noteq> ManifestPublication_EMPTY
               \<or> ct_state (ts_capabilities workload) \<noteq> Cap_Building
               \<or> cts_live_slots (table_snapshot (ts_capabilities workload)) \<noteq> 0)
         then Inl Err_ManifestInvariant
         else if ts_state workload \<noteq> TaskState_Staged \<and> ts_state workload \<noteq> TaskState_Dead
            \<and> ct_state (ts_capabilities workload) \<noteq> Cap_Closing
            \<and> (\<not> mp_published manifest
               \<or> mp_manifest_id manifest \<noteq> MANIFEST_ID
               \<or> mp_principal_id manifest \<noteq> PRINCIPAL_ID
               \<or> mp_target_task_id manifest \<noteq> RECEIVER_TASK_ID
               \<or> mp_target_generation manifest \<noteq> WORKLOAD_GENERATION
               \<or> mp_image_id manifest \<noteq> WORKLOAD_IMAGE_ID)
         then Inl Err_ManifestInvariant
         else if ts_state workload = TaskState_Dead \<and> manifest \<noteq> ManifestPublication_EMPTY
         then Inl Err_ManifestInvariant
         else Inr ())"

definition broker_state_invalid :: "Runtime \<Rightarrow> bool" where
  "broker_state_invalid r =
     (let broker = rt_broker r; workload = rt_task1 r
      in case ab_state broker of
           Broker_Building \<Rightarrow> True
         | Broker_Empty \<Rightarrow>
             ab_request_present broker \<or> ab_request_kind broker \<noteq> 0
             \<or> ab_request broker \<noteq> ApprovalRequestV1_default
             \<or> ab_approval_epoch broker \<noteq> 0 \<or> ab_expiry_epoch broker \<noteq> 0
         | Broker_Pending \<Rightarrow>
             \<not> ab_request_present broker
             \<or> ab_request_kind broker \<noteq> APPROVAL_REQUEST_KIND_COMMIT_SYNTHETIC_VALUE
             \<or> ab_approval_epoch broker \<noteq> 0 \<or> ab_expiry_epoch broker \<noteq> 0
             \<or> ts_state workload \<noteq> TaskState_BlockedApproval
         | Broker_Approved \<Rightarrow>
             \<not> ab_request_present broker
             \<or> ab_request_kind broker \<noteq> APPROVAL_REQUEST_KIND_COMMIT_SYNTHETIC_VALUE
             \<or> ab_approval_epoch broker = 0
             \<or> ab_expiry_epoch broker \<noteq> saturating_add (ab_approval_epoch broker) 1
             \<or> ts_state workload \<noteq> TaskState_BlockedApproval
         | Broker_Closing \<Rightarrow>
             ab_request_present broker \<or> ab_request_kind broker \<noteq> 0
             \<or> ab_request broker \<noteq> ApprovalRequestV1_default
             \<or> ab_approval_epoch broker \<noteq> 0 \<or> ab_expiry_epoch broker \<noteq> 0
         | Broker_Dead \<Rightarrow>
             ab_request_present broker \<or> ab_request_kind broker \<noteq> 0
             \<or> ab_request broker \<noteq> ApprovalRequestV1_default
             \<or> ab_approval_epoch broker \<noteq> 0 \<or> ab_expiry_epoch broker \<noteq> 0)"

definition request_invalid :: "ApprovalRequestV1 \<Rightarrow> bool" where
  "request_invalid request \<longleftrightarrow>
     ar_principal_id request \<noteq> PRINCIPAL_ID
     \<or> ar_workload_task_id request \<noteq> RECEIVER_TASK_ID
     \<or> ar_workload_generation request \<noteq> WORKLOAD_GENERATION
     \<or> ar_sequence request = 0
     \<or> ar_action_id request \<noteq> APPROVAL_ACTION_ID_COMMIT_SYNTHETIC_VALUE
     \<or> ar_effect_object_id request \<noteq> TEST_EFFECT_OBJECT_ID
     \<or> ar_effect_object_generation request \<noteq> FIXED_OBJECT_GENERATION
     \<or> ar_requested_rights request \<noteq> CAPABILITY_RIGHT_COMMIT_EFFECT
     \<or> ar_resulting_rights request \<noteq> 0"

definition validate_broker :: "Runtime \<Rightarrow> RuntimeError + unit" where
  "validate_broker r =
     (let broker = rt_broker r
      in if broker_state_invalid r then Inl Err_BrokerInvariant
         else if ab_state broker \<noteq> Broker_Dead
            \<and> (ab_object_generation broker \<noteq> FIXED_OBJECT_GENERATION
               \<or> ab_next_sequence broker = 0 \<or> ab_decision_epoch broker = 0)
         then Inl Err_BrokerInvariant
         else if ab_state broker = Broker_Dead \<and> broker \<noteq> ApprovalBroker_DEAD
         then Inl Err_BrokerInvariant
         else if ab_request_present broker \<and> request_invalid (ab_request broker)
         then Inl Err_BrokerInvariant
         else Inr ())"

definition validate_effect :: "Runtime \<Rightarrow> RuntimeError + unit" where
  "validate_effect r =
     (let effect = rt_effect r
      in if se_object_generation effect = 0 \<and> effect \<noteq> SyntheticEffect_EMPTY
         then Inl Err_EffectInvariant
         else if se_object_generation effect \<noteq> 0
            \<and> (se_object_generation effect \<noteq> FIXED_OBJECT_GENERATION
               \<or> se_supervisor_task_id effect \<noteq> SENDER_TASK_ID
               \<or> se_supervisor_generation effect \<noteq> SUPERVISOR_GENERATION
               \<or> (\<not> se_occupied effect \<and> se_value effect \<noteq> 0))
         then Inl Err_EffectInvariant
         else Inr ())"

definition validate_supervised :: "Runtime \<Rightarrow> RuntimeError + unit" where
  "validate_supervised r =
     (if rt_endpoint r \<noteq> EMPTY_ENDPOINT
         \<or> list_ex (\<lambda>s. ts_state s = TaskState_BlockedReceive) (rt_tasks r)
      then Inl Err_EndpointInvariant
      else if ts_state (rt_task0 r) \<noteq> TaskState_Dead \<and> ts_generation (rt_task0 r) \<noteq> SUPERVISOR_GENERATION
      then Inl Err_InvalidGeneration
      else if ts_state (rt_task1 r) \<noteq> TaskState_Dead \<and> ts_generation (rt_task1 r) \<noteq> WORKLOAD_GENERATION
      then Inl Err_InvalidGeneration
      else
        and_then (validate_manifest_state r) (\<lambda>_.
        and_then (validate_broker r) (\<lambda>_.
        and_then (validate_effect r) (\<lambda>_.
          if list_all (\<lambda>s. ts_state s = TaskState_Dead) (rt_tasks r)
             \<and> (rt_manifest r \<noteq> ManifestPublication_EMPTY
                \<or> rt_broker r \<noteq> ApprovalBroker_DEAD
                \<or> rt_effect r \<noteq> SyntheticEffect_EMPTY)
          then Inl Err_BrokerInvariant
          else Inr ()))))"

definition runtime_validate :: "Runtime \<Rightarrow> RuntimeError + unit" where
  "runtime_validate r =
     and_then (queue_validate (rt_queue r)) (\<lambda>_.
       if length (filter (\<lambda>s. ts_state s = TaskState_Running) (rt_tasks r)) > 1
       then Inl Err_MultipleRunningTasks
       else
         and_then (slot_validate (rt_queue r) (rt_task0 r)) (\<lambda>_.
         and_then (slot_validate (rt_queue r) (rt_task1 r)) (\<lambda>_.
           case rt_profile r of
             Profile_Cooperative \<Rightarrow> validate_cooperative r
           | Profile_Supervised \<Rightarrow> validate_supervised r)))"


section \<open>Dispatch and capture\<close>

definition dispatch_next :: "(Runtime, RuntimeError, u64 option) action" where
  "dispatch_next r =
     (if list_ex (\<lambda>s. ts_state s = TaskState_Running) (rt_tasks r) then (Inl Err_WrongState, r)
      else
        (case queue_pop (rt_queue r) of
           (None, queue) \<Rightarrow>
             (if list_all (\<lambda>s. ts_state s = TaskState_Dead) (rt_tasks r)
              then (Inr None, r\<lparr>rt_queue := queue\<rparr>)
              else (Inl Err_NoRunnableTask, r\<lparr>rt_queue := queue\<rparr>))
         | (Some task, queue) \<Rightarrow>
             act_bind (act_read (\<lambda>r. slot r task)) (\<lambda>s.
               if ts_state s \<noteq> TaskState_Ready then act_fail Err_InvalidQueueMember
               else
                 act_then (slot_mut task (\<lambda>s. s\<lparr>ts_state := TaskState_Running\<rparr>))
                 (act_then (act_read runtime_validate)
                 (act_return (Some task))))
               (r\<lparr>rt_queue := queue\<rparr>)))"

definition capture_trap ::
  "u64 \<Rightarrow> TrapFrameV1 \<Rightarrow> u64 \<Rightarrow> u64 \<Rightarrow> (Runtime, RuntimeError, unit) action" where
  "capture_trap task frame root generation =
     act_bind (act_read (\<lambda>r. slot r task)) (\<lambda>s.
       if ts_state s \<noteq> TaskState_Running \<or> ts_generation s \<noteq> generation then act_fail Err_WrongState
       else slot_mut task (\<lambda>s. s\<lparr>ts_context := from_trap frame task generation root\<rparr>))"

end
