(* ===== verification/Runtime_Ops.thy ===== *)
theory Runtime_Ops
  imports Runtime_State
begin

text \<open>
  The operations of the task runtime: construction and publication for both profiles, the trap
  handler with its eleven operations, and teardown, from \<open>impl Runtime\<close> of
  \<open>crates/task-runtime/src/lib.rs\<close>.  Each operation is an action; the public entry points
  \<open>handle_trap\<close>, \<open>begin_teardown\<close> and \<open>complete_teardown\<close> restore the state on an error,
  as the source does with its copy \<open>before\<close>.
\<close>

section \<open>Construction\<close>

definition unpublished :: "TaskContextV1 \<Rightarrow> TaskContextV1 \<Rightarrow> Runtime" where
  "unpublished sender receiver =
     \<lparr>rt_profile = Profile_Cooperative,
      rt_task0 =
        \<lparr>ts_id = SENDER_TASK_ID, ts_generation = cx_generation sender, ts_state = TaskState_Ready,
         ts_context = sender, ts_capabilities = table_building SENDER_TASK_ID (cx_generation sender)\<rparr>,
      rt_task1 =
        \<lparr>ts_id = RECEIVER_TASK_ID, ts_generation = cx_generation receiver, ts_state = TaskState_Ready,
         ts_context = receiver,
         ts_capabilities = table_building RECEIVER_TASK_ID (cx_generation receiver)\<rparr>,
      rt_queue = queue_new,
      rt_endpoint = EMPTY_ENDPOINT,
      rt_manifest = ManifestPublication_EMPTY,
      rt_broker = ApprovalBroker_DEAD,
      rt_effect = SyntheticEffect_EMPTY\<rparr>"

definition unpublished_supervised :: "TaskContextV1 \<Rightarrow> TaskContextV1 \<Rightarrow> Runtime" where
  "unpublished_supervised supervisor workload =
     \<lparr>rt_profile = Profile_Supervised,
      rt_task0 =
        \<lparr>ts_id = SENDER_TASK_ID, ts_generation = cx_generation supervisor, ts_state = TaskState_Ready,
         ts_context = supervisor,
         ts_capabilities = table_building SENDER_TASK_ID (cx_generation supervisor)\<rparr>,
      rt_task1 =
        \<lparr>ts_id = RECEIVER_TASK_ID, ts_generation = cx_generation workload, ts_state = TaskState_Staged,
         ts_context = workload,
         ts_capabilities = table_building RECEIVER_TASK_ID (cx_generation workload)\<rparr>,
      rt_queue = queue_new,
      rt_endpoint = EMPTY_ENDPOINT,
      rt_manifest = ManifestPublication_EMPTY,
      rt_broker = broker_building (cx_generation supervisor) (cx_generation workload),
      rt_effect =
        \<lparr>se_object_generation = FIXED_OBJECT_GENERATION, se_supervisor_task_id = SENDER_TASK_ID,
         se_supervisor_generation = cx_generation supervisor, se_occupied = False, se_value = 0\<rparr>\<rparr>"

definition slot_clear_dead :: "TaskSlot \<Rightarrow> TaskSlot" where
  "slot_clear_dead s =
     s\<lparr>ts_state := TaskState_Dead, ts_generation := 0,
       ts_context := context_clear_dead (ts_context s), ts_capabilities := table_dead\<rparr>"

definition rollback_publication :: "(u64 \<times> u64) list \<Rightarrow> Runtime \<Rightarrow> Runtime" where
  "rollback_publication installed r =
     (let r1 = fold (\<lambda>(task, handle) r.
                 snd (slot_mut task
                   (\<lambda>s. s\<lparr>ts_capabilities := rollback_install handle (ts_capabilities s)\<rparr>) r))
                 (rev installed) r
      in r1\<lparr>rt_queue := queue_new, rt_endpoint := EMPTY_ENDPOINT,
            rt_manifest := ManifestPublication_EMPTY, rt_broker := ApprovalBroker_DEAD,
            rt_effect := SyntheticEffect_EMPTY,
            rt_task0 := slot_clear_dead (rt_task0 r1), rt_task1 := slot_clear_dead (rt_task1 r1)\<rparr>)"

fun publish_installs ::
  "nat option \<Rightarrow> (nat \<times> u64 \<times> u64) list \<Rightarrow> (u64 \<times> u64) list \<Rightarrow>
   (Runtime, RuntimeError, (u64 \<times> u64) list) action" where
  "publish_installs fail_before_step [] installed r = (Inr installed, r)"
| "publish_installs fail_before_step ((step, task, rights) # rest) installed r =
     (if fail_before_step = Some step
      then (Inl Err_PublicationFailure, rollback_publication installed r)
      else
        (case act_propagate (slot_capabilities task (install_building rights)) r of
           (Inl error, r') \<Rightarrow> (Inl error, rollback_publication installed r')
         | (Inr handle, r') \<Rightarrow>
             publish_installs fail_before_step rest (installed @ [(task, handle)]) r'))"

definition publish_tables :: "(Runtime, RuntimeError, unit) action" where
  "publish_tables =
     act_then (act_propagate (slot_capabilities SENDER_TASK_ID table_publish))
       (act_propagate (slot_capabilities RECEIVER_TASK_ID table_publish))"

definition publish_initial :: "nat option \<Rightarrow> (Runtime, RuntimeError, unit) action" where
  "publish_initial fail_before_step r =
     (case publish_installs fail_before_step
             [(0, SENDER_TASK_ID, CAPABILITY_RIGHT_SEND OR CAPABILITY_RIGHT_DUPLICATE),
              (1, RECEIVER_TASK_ID, CAPABILITY_RIGHT_RECEIVE)] [] r of
        (Inl error, r1) \<Rightarrow> (Inl error, r1)
      | (Inr installed, r1) \<Rightarrow>
          (if fail_before_step = Some 2
           then (Inl Err_PublicationFailure, rollback_publication installed r1)
           else
             (case publish_tables r1 of
                (Inl error, r2) \<Rightarrow> (Inl error, rollback_publication installed r2)
              | (Inr _, r2) \<Rightarrow>
                  (case act_then (queue_push_action RECEIVER_TASK_ID)
                          (act_then (queue_push_action SENDER_TASK_ID) (act_read runtime_validate))
                          (r2\<lparr>rt_endpoint :=
                             \<lparr>ep_object_generation = ENDPOINT_GENERATION,
                              ep_sender_task = SENDER_TASK_ID,
                              ep_sender_generation = ts_generation (rt_task0 r2),
                              ep_receiver_task = RECEIVER_TASK_ID,
                              ep_receiver_generation = ts_generation (rt_task1 r2),
                              ep_occupied = False, ep_payload = 0\<rparr>\<rparr>) of
                     (Inl error, r3) \<Rightarrow> (Inl error, rollback_publication installed r3)
                   | (Inr _, r3) \<Rightarrow> (Inr (), r3)))))"

definition rollback_supervisor_publication :: "u64 list \<Rightarrow> Runtime \<Rightarrow> Runtime" where
  "rollback_supervisor_publication installed r =
     (let r1 = fold (\<lambda>handle r.
                 r\<lparr>rt_task0 := (rt_task0 r)\<lparr>ts_capabilities :=
                      rollback_install handle (ts_capabilities (rt_task0 r))\<rparr>\<rparr>)
                 (rev installed) r
      in r1\<lparr>rt_queue := queue_new, rt_manifest := ManifestPublication_EMPTY,
            rt_broker := ApprovalBroker_DEAD, rt_effect := SyntheticEffect_EMPTY,
            rt_task0 := slot_clear_dead (rt_task0 r1), rt_task1 := slot_clear_dead (rt_task1 r1)\<rparr>)"

text \<open>A method call on \<open>tasks[0].capabilities\<close> and on \<open>tasks[1].capabilities\<close>.\<close>

definition task0_capabilities :: "(CapabilityTable, 'e, 'a) action \<Rightarrow> (Runtime, 'e, 'a) action" where
  "task0_capabilities f r =
     (case f (ts_capabilities (rt_task0 r)) of
        (x, table) \<Rightarrow> (x, r\<lparr>rt_task0 := (rt_task0 r)\<lparr>ts_capabilities := table\<rparr>\<rparr>))"

definition task1_capabilities :: "(CapabilityTable, 'e, 'a) action \<Rightarrow> (Runtime, 'e, 'a) action" where
  "task1_capabilities f r =
     (case f (ts_capabilities (rt_task1 r)) of
        (x, table) \<Rightarrow> (x, r\<lparr>rt_task1 := (rt_task1 r)\<lparr>ts_capabilities := table\<rparr>\<rparr>))"

fun supervisor_installs ::
  "nat option \<Rightarrow> (nat \<times> u32 \<times> u64 \<times> u64) list \<Rightarrow> u64 list \<Rightarrow> (Runtime, RuntimeError, u64 list) action" where
  "supervisor_installs fail_before_step [] installed r = (Inr installed, r)"
| "supervisor_installs fail_before_step ((step, object_type, object_id, rights) # rest) installed r =
     (if fail_before_step = Some step
      then (Inl Err_PublicationFailure, rollback_supervisor_publication installed r)
      else
        (case task0_capabilities
                (install_object_building object_type
                   \<lparr>or_id = object_id, or_generation = FIXED_OBJECT_GENERATION\<rparr> rights) r of
           (Inl error, r') \<Rightarrow> (Inl error, rollback_supervisor_publication installed r')
         | (Inr handle, r') \<Rightarrow>
             supervisor_installs fail_before_step rest (installed @ [handle]) r'))"

definition publish_supervisor :: "nat option \<Rightarrow> (Runtime, RuntimeError, unit) action" where
  "publish_supervisor fail_before_step r =
     (case supervisor_installs fail_before_step
             [(0, OBJECT_TYPE_TASK_CONTROL, TASK_CONTROL_OBJECT_ID, CAPABILITY_RIGHT_START),
              (1, OBJECT_TYPE_APPROVAL_BROKER, APPROVAL_BROKER_OBJECT_ID, CAPABILITY_RIGHT_DECIDE_APPROVAL),
              (2, OBJECT_TYPE_TEST_EFFECT, TEST_EFFECT_OBJECT_ID, CAPABILITY_RIGHT_COMMIT_EFFECT)] [] r of
        (Inl error, r1) \<Rightarrow> (Inl error, r1)
      | (Inr installed, r1) \<Rightarrow>
          (if fail_before_step = Some 3
           then (Inl Err_PublicationFailure, rollback_supervisor_publication installed r1)
           else
             (case task0_capabilities table_publish r1 of
                (Inl error, r2) \<Rightarrow> (Inl error, rollback_supervisor_publication installed r2)
              | (Inr _, r2) \<Rightarrow>
                  (let r3 = r2\<lparr>rt_broker := (rt_broker r2)\<lparr>ab_state := Broker_Empty\<rparr>\<rparr>
                   in if fail_before_step = Some 4
                      then (Inl Err_PublicationFailure, rollback_supervisor_publication installed r3)
                      else
                        (case act_then (queue_push_action SENDER_TASK_ID) (act_read runtime_validate) r3 of
                           (Inl error, r4) \<Rightarrow> (Inl error, rollback_supervisor_publication installed r4)
                         | (Inr _, r4) \<Rightarrow> (Inr (), r4))))))"

definition construct :: "TaskContextV1 \<Rightarrow> TaskContextV1 \<Rightarrow> nat option \<Rightarrow> RuntimeError + Runtime" where
  "construct sender receiver fail_before_step =
     (case publish_initial fail_before_step (unpublished sender receiver) of
        (Inl error, r) \<Rightarrow> Inl error
      | (Inr _, r) \<Rightarrow> Inr r)"

definition construct_supervised ::
  "TaskContextV1 \<Rightarrow> TaskContextV1 \<Rightarrow> nat option \<Rightarrow> RuntimeError + Runtime" where
  "construct_supervised supervisor workload fail_before_step =
     (case publish_supervisor fail_before_step (unpublished_supervised supervisor workload) of
        (Inl error, r) \<Rightarrow> Inl error
      | (Inr _, r) \<Rightarrow> Inr r)"

definition runtime_new :: "TaskContextV1 \<Rightarrow> TaskContextV1 \<Rightarrow> RuntimeError + Runtime" where
  "runtime_new sender receiver =
     (if cx_task_id sender \<noteq> SENDER_TASK_ID \<or> cx_task_id receiver \<noteq> RECEIVER_TASK_ID
      then Inl Err_InvalidTask
      else if cx_generation sender = 0 \<or> cx_generation receiver = 0 then Inl Err_InvalidGeneration
      else if cx_generation sender = cx_generation receiver then Inl Err_DuplicateGeneration
      else construct sender receiver None)"

definition new_supervised :: "TaskContextV1 \<Rightarrow> TaskContextV1 \<Rightarrow> RuntimeError + Runtime" where
  "new_supervised supervisor workload =
     (if cx_task_id supervisor \<noteq> SENDER_TASK_ID \<or> cx_task_id workload \<noteq> RECEIVER_TASK_ID
      then Inl Err_InvalidTask
      else if cx_generation supervisor \<noteq> SUPERVISOR_GENERATION
         \<or> cx_generation workload \<noteq> WORKLOAD_GENERATION
      then Inl Err_InvalidGeneration
      else construct_supervised supervisor workload None)"


section \<open>Common endings of a trap\<close>

definition resume :: "u64 \<Rightarrow> TrapStatus \<Rightarrow> u64 \<Rightarrow> (Runtime, RuntimeError, TrapOutcome) action" where
  "resume task status value = act_then (set_result task status value) (act_return (Outcome_Resume task))"

definition resume_validated :: "u64 \<Rightarrow> TrapStatus \<Rightarrow> u64 \<Rightarrow> (Runtime, RuntimeError, TrapOutcome) action" where
  "resume_validated task status value =
     act_then (set_result task status value)
     (act_then (act_read runtime_validate)
     (act_return (Outcome_Resume task)))"

definition switch_next :: "(Runtime, RuntimeError, u64) action" where
  "switch_next = act_bind dispatch_next (\<lambda>next. act_read (\<lambda>_. ok_or next Err_NoRunnableTask))"

definition resolve_endpoint :: "Runtime \<Rightarrow> u64 \<Rightarrow> u64 \<Rightarrow> u64 \<Rightarrow> TrapStatus + unit" where
  "resolve_endpoint r task handle required_right =
     and_then (map_err (\<lambda>_. Status_InvalidHandle) (slot r task)) (\<lambda>s.
     and_then (resolve (ts_capabilities s) task (ts_generation s) handle required_right) (\<lambda>entry.
       if or_id (ce_object entry) \<noteq> ENDPOINT_ID
          \<or> or_generation (ce_object entry) \<noteq> ENDPOINT_GENERATION
          \<or> ep_object_generation (rt_endpoint r) \<noteq> ENDPOINT_GENERATION
       then Inl Status_InvalidHandle
       else Inr ()))"

definition resolve_object ::
  "Runtime \<Rightarrow> u64 \<Rightarrow> u64 \<Rightarrow> u32 \<Rightarrow> u64 \<Rightarrow> u64 \<Rightarrow> u64 \<Rightarrow> TrapStatus + unit" where
  "resolve_object r task handle object_type required_right object_id object_generation =
     and_then (map_err (\<lambda>_. Status_InvalidHandle) (slot r task)) (\<lambda>s.
     and_then (resolve_typed (ts_capabilities s) task (ts_generation s) handle object_type required_right)
       (\<lambda>entry.
         if or_id (ce_object entry) \<noteq> object_id
            \<or> or_generation (ce_object entry) \<noteq> object_generation
            \<or> object_generation = 0
         then Inl Status_InvalidHandle
         else Inr ()))"


section \<open>Cooperative operations\<close>

definition runtime_yield :: "u64 \<Rightarrow> u64 \<Rightarrow> u64 \<Rightarrow> u64 \<Rightarrow> (Runtime, RuntimeError, TrapOutcome) action" where
  "runtime_yield task rdi rsi rdx =
     (if rdi \<noteq> 0 \<or> rsi \<noteq> 0 \<or> rdx \<noteq> 0 then resume task Status_InvalidOperation 0
      else
        act_then (set_result task Status_Ok 0)
        (act_then (slot_mut task (\<lambda>s. s\<lparr>ts_state := TaskState_Ready\<rparr>))
        (act_then (queue_push_action task)
        (act_bind switch_next (\<lambda>next. act_return (Outcome_Switch next))))))"

definition runtime_send :: "u64 \<Rightarrow> u64 \<Rightarrow> u64 \<Rightarrow> u64 \<Rightarrow> (Runtime, RuntimeError, TrapOutcome) action" where
  "runtime_send task handle message reserved r =
     (if reserved \<noteq> 0 then resume_validated task Status_InvalidOperation 0 r
      else
        (case resolve_endpoint r task handle CAPABILITY_RIGHT_SEND of
           Inl status \<Rightarrow> resume_validated task status 0 r
         | Inr _ \<Rightarrow>
             (if ep_receiver_generation (rt_endpoint r) = 0
              then resume_validated task Status_PeerExited 0 r
              else if ep_occupied (rt_endpoint r) then resume_validated task Status_SlotFull 0 r
              else
                act_then
                  (act_modify (\<lambda>r. r\<lparr>rt_endpoint :=
                     (rt_endpoint r)\<lparr>ep_occupied := True, ep_payload := message\<rparr>\<rparr>))
                (act_then
                  (act_bind (act_read (\<lambda>r. slot r RECEIVER_TASK_ID)) (\<lambda>receiver r.
                     if ts_state receiver = TaskState_BlockedReceive then
                       (let value = ep_payload (rt_endpoint r)
                        in act_then
                             (act_modify (\<lambda>r. r\<lparr>rt_endpoint :=
                                (rt_endpoint r)\<lparr>ep_occupied := False, ep_payload := 0\<rparr>\<rparr>))
                           (act_then (set_result RECEIVER_TASK_ID Status_Ok value)
                           (act_then (slot_mut RECEIVER_TASK_ID (\<lambda>s. s\<lparr>ts_state := TaskState_Ready\<rparr>))
                           (queue_push_action RECEIVER_TASK_ID))) r)
                     else (Inr (), r)))
                  (resume_validated task Status_Ok 0)) r)))"

definition runtime_receive :: "u64 \<Rightarrow> u64 \<Rightarrow> u64 \<Rightarrow> u64 \<Rightarrow> (Runtime, RuntimeError, TrapOutcome) action" where
  "runtime_receive task handle reserved_message reserved r =
     (let status =
        (if reserved_message \<noteq> 0 \<or> reserved \<noteq> 0 then Some Status_InvalidOperation
         else
           (case resolve_endpoint r task handle CAPABILITY_RIGHT_RECEIVE of
              Inl status \<Rightarrow> Some status
            | Inr _ \<Rightarrow> None))
      in case status of
           Some status \<Rightarrow> resume task status 0 r
         | None \<Rightarrow>
             (if ep_occupied (rt_endpoint r) then
                (let value = ep_payload (rt_endpoint r)
                 in act_then
                      (act_modify (\<lambda>r. r\<lparr>rt_endpoint :=
                         (rt_endpoint r)\<lparr>ep_occupied := False, ep_payload := 0\<rparr>\<rparr>))
                      (resume_validated task Status_Ok value) r)
              else if ep_sender_generation (rt_endpoint r) = 0 then resume task Status_PeerExited 0 r
              else
                act_then (slot_mut task (\<lambda>s. s\<lparr>ts_state := TaskState_BlockedReceive\<rparr>))
                (act_bind switch_next (\<lambda>next.
                 act_then (act_read runtime_validate)
                 (act_return (Outcome_Switch next)))) r))"

definition runtime_exit :: "u64 \<Rightarrow> u64 \<Rightarrow> u64 \<Rightarrow> u64 \<Rightarrow> (Runtime, RuntimeError, TrapOutcome) action" where
  "runtime_exit task first second third =
     (if first \<noteq> 0 \<or> second \<noteq> 0 \<or> third \<noteq> 0 then resume task Status_InvalidOperation 0
      else
        act_then (slot_mut task (\<lambda>s. s\<lparr>ts_state := TaskState_Exited\<rparr>))
        (act_then (act_read runtime_validate)
        (act_return (Outcome_Exit task))))"

definition runtime_duplicate :: "u64 \<Rightarrow> u64 \<Rightarrow> u64 \<Rightarrow> u64 \<Rightarrow> (Runtime, RuntimeError, TrapOutcome) action" where
  "runtime_duplicate task source requested_rights reserved =
     (if reserved \<noteq> 0 then resume task Status_InvalidOperation 0
      else
        act_bind (act_read (\<lambda>r. slot r task)) (\<lambda>s.
        act_bind (slot_capabilities task (table_duplicate task (ts_generation s) source requested_rights))
          (\<lambda>result.
             case result of
               Inr handle \<Rightarrow> resume_validated task Status_Ok handle
             | Inl status \<Rightarrow> resume_validated task status 0)))"

definition runtime_close :: "u64 \<Rightarrow> u64 \<Rightarrow> u64 \<Rightarrow> u64 \<Rightarrow> (Runtime, RuntimeError, TrapOutcome) action" where
  "runtime_close task handle reserved_rights reserved =
     (if reserved_rights \<noteq> 0 \<or> reserved \<noteq> 0 then resume task Status_InvalidOperation 0
      else
        act_bind (act_read (\<lambda>r. slot r task)) (\<lambda>s.
        act_bind (slot_capabilities task (table_close task (ts_generation s) handle)) (\<lambda>result.
          resume_validated task (case result of Inr _ \<Rightarrow> Status_Ok | Inl status \<Rightarrow> status) 0)))"


section \<open>Supervised operations\<close>

definition published_manifest :: ManifestPublication where
  "published_manifest =
     \<lparr>mp_manifest_id = MANIFEST_ID, mp_principal_id = PRINCIPAL_ID,
      mp_target_task_id = RECEIVER_TASK_ID, mp_target_generation = WORKLOAD_GENERATION,
      mp_image_id = WORKLOAD_IMAGE_ID, mp_published = True\<rparr>"

fun install_routes :: "LaunchRouteV1 list \<Rightarrow> (Runtime, RuntimeError, unit) action" where
  "install_routes [] r = (Inr (), r)"
| "install_routes (route # rest) r =
     (case task1_capabilities
             (install_object_building (lr_object_type route)
                \<lparr>or_id = lr_object_id route, or_generation = lr_object_generation route\<rparr>
                (lr_rights route)) r of
        (Inl e, r') \<Rightarrow> (Inl e, r')
      | (Inr _, r') \<Rightarrow> install_routes rest r')"

definition start_workload_with_failure ::
  "u64 \<Rightarrow> u64 \<Rightarrow> u64 \<Rightarrow> u64 \<Rightarrow> nat option \<Rightarrow> (Runtime, RuntimeError, TrapOutcome) action" where
  "start_workload_with_failure task handle manifest_id reserved fail_before_step r =
     (let before = r;
          status =
            (if reserved \<noteq> 0 then Some Status_InvalidOperation
             else if rt_profile r \<noteq> Profile_Supervised then Some Status_WrongObject
             else
               (case resolve_object r task handle OBJECT_TYPE_TASK_CONTROL CAPABILITY_RIGHT_START
                       TASK_CONTROL_OBJECT_ID FIXED_OBJECT_GENERATION of
                  Inl status \<Rightarrow> Some status
                | Inr _ \<Rightarrow>
                    (if manifest_id \<noteq> MANIFEST_ID then Some Status_InvalidManifest
                     else if ts_state (rt_task1 r) \<noteq> TaskState_Staged then Some Status_AlreadyLaunched
                     else if is_err (manifest_validate REGISTERED_LAUNCH_MANIFEST
                               (ts_generation (rt_task1 r)) (ab_object_generation (rt_broker r))
                               (available_slots (ts_capabilities (rt_task1 r))))
                     then Some Status_InvalidManifest
                     else None)))
      in case status of
           Some status \<Rightarrow> resume task status 0 before
         | None \<Rightarrow>
             (if fail_before_step = Some 0 then resume task Status_InvalidManifest 0 before
              else
                (case install_routes (take (unat (lm_route_count REGISTERED_LAUNCH_MANIFEST))
                         (lm_routes REGISTERED_LAUNCH_MANIFEST)) r of
                   (Inl _, _) \<Rightarrow> resume task Status_InvalidManifest 0 before
                 | (Inr _, r1) \<Rightarrow>
                     (if fail_before_step = Some 1 then resume task Status_InvalidManifest 0 before
                      else
                        (case task1_capabilities table_publish r1 of
                           (Inl _, _) \<Rightarrow> resume task Status_InvalidManifest 0 before
                         | (Inr _, r2) \<Rightarrow>
                             (if fail_before_step = Some 2
                              then resume task Status_InvalidManifest 0 before
                              else
                                (let r3 = r2\<lparr>rt_manifest := published_manifest,
                                      rt_task1 := (rt_task1 r2)\<lparr>ts_state := TaskState_Ready\<rparr>\<rparr>
                                 in if fail_before_step = Some 3
                                    then resume task Status_InvalidManifest 0 before
                                    else
                                      act_then (queue_push_action RECEIVER_TASK_ID)
                                        (resume_validated task Status_Ok 0) r3)))))))"

definition start_workload :: "u64 \<Rightarrow> u64 \<Rightarrow> u64 \<Rightarrow> u64 \<Rightarrow> (Runtime, RuntimeError, TrapOutcome) action" where
  "start_workload task handle manifest_id reserved =
     start_workload_with_failure task handle manifest_id reserved None"

definition wake_workload :: "TrapStatus \<Rightarrow> u64 \<Rightarrow> (Runtime, RuntimeError, unit) action" where
  "wake_workload status value =
     act_bind (act_read (\<lambda>r. slot r RECEIVER_TASK_ID)) (\<lambda>s.
       if ts_state s \<noteq> TaskState_BlockedApproval then act_fail Err_BrokerInvariant
       else
         act_then (set_result RECEIVER_TASK_ID status value)
         (act_then (slot_mut RECEIVER_TASK_ID (\<lambda>s. s\<lparr>ts_state := TaskState_Ready\<rparr>))
         (queue_push_action RECEIVER_TASK_ID)))"

definition modify_broker :: "(ApprovalBroker \<Rightarrow> ApprovalBroker) \<Rightarrow> (Runtime, RuntimeError, unit) action" where
  "modify_broker f = act_modify (\<lambda>r. r\<lparr>rt_broker := f (rt_broker r)\<rparr>)"

definition fail_broker_epoch_exhaustion :: "(Runtime, RuntimeError, unit) action" where
  "fail_broker_epoch_exhaustion =
     act_bind (act_read (\<lambda>r. slot r RECEIVER_TASK_ID)) (\<lambda>s.
     act_then
       (if ts_state s = TaskState_BlockedApproval then wake_workload Status_BrokerUnavailable 0
        else act_return ())
       (modify_broker (\<lambda>b. (clear_request b)\<lparr>ab_state := Broker_Closing\<rparr>)))"

definition submit_approval :: "u64 \<Rightarrow> u64 \<Rightarrow> u64 \<Rightarrow> u64 \<Rightarrow> (Runtime, RuntimeError, TrapOutcome) action" where
  "submit_approval task handle request_kind argument r =
     (let broker = rt_broker r;
          status =
            (if rt_profile r \<noteq> Profile_Supervised then Some Status_WrongObject
             else
               (case resolve_object r task handle OBJECT_TYPE_APPROVAL_BROKER
                       CAPABILITY_RIGHT_SUBMIT_APPROVAL APPROVAL_BROKER_OBJECT_ID
                       (ab_object_generation broker) of
                  Inl status \<Rightarrow> Some status
                | Inr _ \<Rightarrow>
                    (if ab_state broker = Broker_Building \<or> ab_state broker = Broker_Closing
                        \<or> ab_state broker = Broker_Dead \<or> ab_sequence_exhausted broker
                        \<or> ab_decision_epoch broker = u64_MAX
                     then Some Status_BrokerUnavailable
                     else if ab_state broker = Broker_Pending \<or> ab_state broker = Broker_Approved
                     then Some Status_BrokerFull
                     else if request_kind \<noteq> APPROVAL_REQUEST_KIND_COMMIT_SYNTHETIC_VALUE
                        \<or> task \<noteq> RECEIVER_TASK_ID
                        \<or> rt_manifest r \<noteq> published_manifest
                     then Some Status_InvalidRequest
                     else None)))
      in case status of
           Some status \<Rightarrow> resume_validated task status 0 r
         | None \<Rightarrow>
             (case checked_add (ab_decision_epoch broker) 1 of
                None \<Rightarrow> (Inl Err_BrokerInvariant, r)
              | Some next_epoch \<Rightarrow>
                  (let sequence = ab_next_sequence broker
                   in act_then
                        (modify_broker (\<lambda>b. b
                           \<lparr>ab_request_kind := request_kind,
                            ab_request :=
                              \<lparr>ar_principal_id = PRINCIPAL_ID,
                               ar_workload_task_id = RECEIVER_TASK_ID,
                               ar_workload_generation = WORKLOAD_GENERATION,
                               ar_sequence = sequence,
                               ar_action_id = APPROVAL_ACTION_ID_COMMIT_SYNTHETIC_VALUE,
                               ar_effect_object_id = TEST_EFFECT_OBJECT_ID,
                               ar_effect_object_generation = FIXED_OBJECT_GENERATION,
                               ar_argument = argument,
                               ar_requested_rights = CAPABILITY_RIGHT_COMMIT_EFFECT,
                               ar_resulting_rights = 0\<rparr>,
                            ab_request_present := True,
                            ab_state := Broker_Pending,
                            ab_decision_epoch := next_epoch\<rparr>))
                      (act_then
                        (modify_broker (\<lambda>b.
                           if sequence = u64_MAX then b\<lparr>ab_sequence_exhausted := True\<rparr>
                           else b\<lparr>ab_next_sequence := sequence + 1\<rparr>))
                      (act_then (slot_mut task (\<lambda>s. s\<lparr>ts_state := TaskState_BlockedApproval\<rparr>))
                      (act_bind switch_next (\<lambda>next.
                       act_then (act_read runtime_validate)
                       (act_return (Outcome_Switch next)))))) r)))"

definition inspect_approval :: "u64 \<Rightarrow> u64 \<Rightarrow> u64 \<Rightarrow> u64 \<Rightarrow> (Runtime, RuntimeError, TrapOutcome) action" where
  "inspect_approval task handle reserved_kind reserved_argument r =
     (let broker = rt_broker r;
          status =
            (if reserved_kind \<noteq> 0 \<or> reserved_argument \<noteq> 0 then Some Status_InvalidOperation
             else if rt_profile r \<noteq> Profile_Supervised then Some Status_WrongObject
             else
               (case resolve_object r task handle OBJECT_TYPE_APPROVAL_BROKER
                       CAPABILITY_RIGHT_DECIDE_APPROVAL APPROVAL_BROKER_OBJECT_ID
                       (ab_object_generation broker) of
                  Inl status \<Rightarrow> Some status
                | Inr _ \<Rightarrow>
                    (if ab_state broker \<noteq> Broker_Pending \<or> \<not> ab_request_present broker
                     then Some (if ab_state broker = Broker_Closing \<or> ab_state broker = Broker_Dead
                                then Status_BrokerUnavailable else Status_InvalidRequest)
                     else None)))
      in case status of
           Some status \<Rightarrow> resume_validated task status 0 r
         | None \<Rightarrow>
             act_then
               (slot_mut task (\<lambda>s. s\<lparr>ts_context := (ts_context s)
                  \<lparr>cx_rax := status_code Status_Ok,
                   cx_rdi := ar_sequence (ab_request broker),
                   cx_rsi := ab_request_kind broker,
                   cx_rdx := ar_argument (ab_request broker)\<rparr>\<rparr>))
             (act_then (act_read runtime_validate)
             (act_return (Outcome_Resume task))) r)"

definition apply_decision :: "u64 \<Rightarrow> u64 \<Rightarrow> (Runtime, RuntimeError, unit) action" where
  "apply_decision decision next_epoch =
     (if decision = DECISION_APPROVE then
        modify_broker (\<lambda>b. b\<lparr>ab_state := Broker_Approved, ab_approval_epoch := next_epoch,
          ab_expiry_epoch := next_epoch + 1\<rparr>)
      else if decision = DECISION_DENY then
        act_then (modify_broker (\<lambda>b. (clear_request b)\<lparr>ab_state := Broker_Empty\<rparr>))
          (wake_workload Status_ApprovalDenied 0)
      else if decision = DECISION_EXPIRE then
        act_then (modify_broker (\<lambda>b. (clear_request b)\<lparr>ab_state := Broker_Empty\<rparr>))
          (wake_workload Status_ApprovalExpired 0)
      else act_fail Err_BrokerInvariant)"

text \<open>The chain of checks that decides whether a decision is answered with a status at once.\<close>

definition decide_status :: "Runtime \<Rightarrow> u64 \<Rightarrow> u64 \<Rightarrow> u64 \<Rightarrow> u64 \<Rightarrow> TrapStatus option" where
  "decide_status r task handle sequence decision =
     (let broker = rt_broker r
      in if rt_profile r \<noteq> Profile_Supervised then Some Status_WrongObject
         else
           (case resolve_object r task handle OBJECT_TYPE_APPROVAL_BROKER
                   CAPABILITY_RIGHT_DECIDE_APPROVAL APPROVAL_BROKER_OBJECT_ID
                   (ab_object_generation broker) of
              Inl status \<Rightarrow> Some status
            | Inr _ \<Rightarrow>
                (if ab_state broker = Broker_Closing \<or> ab_state broker = Broker_Dead
                 then Some Status_BrokerUnavailable
                 else if \<not> ab_request_present broker \<or> ar_sequence (ab_request broker) \<noteq> sequence
                 then Some Status_ApprovalMismatch
                 else if \<not> (decision = DECISION_DENY \<or> decision = DECISION_APPROVE
                           \<or> decision = DECISION_EXPIRE)
                    \<or> (decision = DECISION_APPROVE \<and> ab_state broker \<noteq> Broker_Pending)
                    \<or> (decision = DECISION_DENY \<and> ab_state broker \<noteq> Broker_Pending)
                    \<or> (decision = DECISION_EXPIRE
                       \<and> \<not> (ab_state broker = Broker_Pending \<or> ab_state broker = Broker_Approved))
                 then Some Status_InvalidRequest
                 else None)))"

definition decide_approval :: "u64 \<Rightarrow> u64 \<Rightarrow> u64 \<Rightarrow> u64 \<Rightarrow> (Runtime, RuntimeError, TrapOutcome) action" where
  "decide_approval task handle sequence decision r =
     (let exhausted =
            act_then fail_broker_epoch_exhaustion (resume_validated task Status_BrokerUnavailable 0)
      in case decide_status r task handle sequence decision of
           Some status \<Rightarrow> resume_validated task status 0 r
         | None \<Rightarrow>
             (case checked_add (ab_decision_epoch (rt_broker r)) 1 of
                None \<Rightarrow> exhausted r
              | Some next_epoch \<Rightarrow>
                  (if decision = DECISION_APPROVE \<and> next_epoch = u64_MAX then exhausted r
                   else
                     act_then (modify_broker (\<lambda>b. b\<lparr>ab_decision_epoch := next_epoch\<rparr>))
                     (act_then (apply_decision decision next_epoch)
                     (resume_validated task Status_Ok 0)) r)))"

text \<open>The chain of checks of a commit; \<open>None\<close> lets the commit proceed.\<close>

definition commit_status :: "Runtime \<Rightarrow> u64 \<Rightarrow> u64 \<Rightarrow> u64 \<Rightarrow> u64 \<Rightarrow> TrapStatus option" where
  "commit_status r task handle sequence argument =
     (let broker = rt_broker r; request = ab_request broker
      in if rt_profile r \<noteq> Profile_Supervised then Some Status_WrongObject
         else
           (case resolve_object r task handle OBJECT_TYPE_TEST_EFFECT
                   CAPABILITY_RIGHT_COMMIT_EFFECT TEST_EFFECT_OBJECT_ID
                   (se_object_generation (rt_effect r)) of
              Inl status \<Rightarrow> Some status
            | Inr _ \<Rightarrow>
                (if ab_state broker \<noteq> Broker_Approved
                    \<or> \<not> ab_request_present broker
                    \<or> ar_sequence request \<noteq> sequence
                    \<or> ar_argument request \<noteq> argument
                    \<or> ar_principal_id request \<noteq> PRINCIPAL_ID
                    \<or> ar_workload_task_id request \<noteq> RECEIVER_TASK_ID
                    \<or> ar_workload_generation request \<noteq> WORKLOAD_GENERATION
                    \<or> ar_action_id request \<noteq> APPROVAL_ACTION_ID_COMMIT_SYNTHETIC_VALUE
                    \<or> ar_effect_object_id request \<noteq> TEST_EFFECT_OBJECT_ID
                    \<or> ar_effect_object_generation request \<noteq> FIXED_OBJECT_GENERATION
                    \<or> ar_requested_rights request \<noteq> CAPABILITY_RIGHT_COMMIT_EFFECT
                    \<or> ar_resulting_rights request \<noteq> 0
                 then Some Status_ApprovalMismatch
                 else if se_occupied (rt_effect r) then Some Status_EffectUnavailable
                 else if ab_decision_epoch broker \<ge> ab_expiry_epoch broker
                 then Some Status_ApprovalExpired
                 else None)))"

definition commit_effect :: "u64 \<Rightarrow> u64 \<Rightarrow> u64 \<Rightarrow> u64 \<Rightarrow> (Runtime, RuntimeError, TrapOutcome) action" where
  "commit_effect task handle sequence argument r =
     (case commit_status r task handle sequence argument of
        Some status \<Rightarrow> resume_validated task status 0 r
      | None \<Rightarrow>
          (case checked_add (ab_decision_epoch (rt_broker r)) 1 of
             None \<Rightarrow> (Inl Err_BrokerInvariant, r)
           | Some next_epoch \<Rightarrow>
               (if next_epoch \<noteq> ab_expiry_epoch (rt_broker r) then resume task Status_ApprovalExpired 0 r
                else
                  act_then
                    (act_modify (\<lambda>r. r
                       \<lparr>rt_effect := (rt_effect r)\<lparr>se_occupied := True, se_value := argument\<rparr>,
                        rt_broker := (clear_request ((rt_broker r)\<lparr>ab_decision_epoch := next_epoch\<rparr>))
                          \<lparr>ab_state := Broker_Empty\<rparr>\<rparr>))
                  (act_then (wake_workload Status_Ok argument)
                  (resume_validated task Status_Ok 0)) r)))"


section \<open>The trap handler\<close>

definition handle_trap_inner :: "u64 \<Rightarrow> (Runtime, RuntimeError, TrapOutcome) action" where
  "handle_trap_inner task =
     act_bind (act_read running_task) (\<lambda>running.
       if running \<noteq> task then act_fail Err_WrongState
       else
         act_bind (act_read (\<lambda>r. runtime_context r task)) (\<lambda>input.
           let rdi = cx_rdi input; rsi = cx_rsi input; rdx = cx_rdx input
           in case TrapOperation_parse (cx_rax input) of
                None \<Rightarrow> resume task Status_InvalidOperation 0
              | Some Op_Yield \<Rightarrow> runtime_yield task rdi rsi rdx
              | Some Op_Send \<Rightarrow> runtime_send task rdi rsi rdx
              | Some Op_Receive \<Rightarrow> runtime_receive task rdi rsi rdx
              | Some Op_Exit \<Rightarrow> runtime_exit task rdi rsi rdx
              | Some Op_Duplicate \<Rightarrow> runtime_duplicate task rdi rsi rdx
              | Some Op_Close \<Rightarrow> runtime_close task rdi rsi rdx
              | Some Op_StartWorkload \<Rightarrow> start_workload task rdi rsi rdx
              | Some Op_SubmitApproval \<Rightarrow> submit_approval task rdi rsi rdx
              | Some Op_InspectApproval \<Rightarrow> inspect_approval task rdi rsi rdx
              | Some Op_DecideApproval \<Rightarrow> decide_approval task rdi rsi rdx
              | Some Op_CommitEffect \<Rightarrow> commit_effect task rdi rsi rdx
              | Some Op_InspectEffectJournal \<Rightarrow> resume_validated task Status_InvalidOperation 0
              | Some Op_ReadEffectRecord \<Rightarrow> resume_validated task Status_InvalidOperation 0))"

definition handle_trap :: "u64 \<Rightarrow> (Runtime, RuntimeError, TrapOutcome) action" where
  "handle_trap task = act_restoring (handle_trap_inner task)"


section \<open>Teardown\<close>

definition release_supervised :: "u64 \<Rightarrow> (Runtime, RuntimeError, unit) action" where
  "release_supervised task =
     (if task = SENDER_TASK_ID then
        act_then
          (act_bind (act_read (\<lambda>r. slot r RECEIVER_TASK_ID)) (\<lambda>s r.
             if ts_state s = TaskState_BlockedApproval then
               wake_workload
                 (case ab_state (rt_broker r) of
                    Broker_Pending \<Rightarrow> Status_ApprovalDenied
                  | Broker_Approved \<Rightarrow> Status_ApprovalExpired
                  | _ \<Rightarrow> Status_BrokerUnavailable) 0 r
             else (Inr (), r)))
          (act_modify (\<lambda>r. r
             \<lparr>rt_broker := (clear_request (rt_broker r))
                \<lparr>ab_state := Broker_Closing, ab_supervisor_task_id := 0, ab_supervisor_generation := 0\<rparr>,
              rt_effect := SyntheticEffect_EMPTY\<rparr>))
      else if task = RECEIVER_TASK_ID then
        act_modify (\<lambda>r.
          let broker = clear_request (rt_broker r);
              broker =
                (if \<not> (ab_state broker = Broker_Closing \<or> ab_state broker = Broker_Dead)
                 then broker\<lparr>ab_state := (if ts_state (rt_task0 r) = TaskState_Dead
                                           then Broker_Closing else Broker_Empty)\<rparr>
                 else broker)
          in r\<lparr>rt_manifest := ManifestPublication_EMPTY,
               rt_broker := broker\<lparr>ab_workload_task_id := 0, ab_workload_generation := 0\<rparr>\<rparr>)
      else act_fail Err_InvalidTask)"

definition release_endpoint :: "u64 \<Rightarrow> (Runtime, RuntimeError, unit) action" where
  "release_endpoint task =
     (if task = SENDER_TASK_ID then
        act_then
          (act_modify (\<lambda>r. r\<lparr>rt_endpoint :=
             (rt_endpoint r)\<lparr>ep_sender_task := 0, ep_sender_generation := 0\<rparr>\<rparr>))
          (act_bind (act_read (\<lambda>r. slot r RECEIVER_TASK_ID)) (\<lambda>s r.
             if \<not> ep_occupied (rt_endpoint r) \<and> ts_state s = TaskState_BlockedReceive then
               act_then (set_result RECEIVER_TASK_ID Status_PeerExited 0)
               (act_then (slot_mut RECEIVER_TASK_ID (\<lambda>s. s\<lparr>ts_state := TaskState_Ready\<rparr>))
               (queue_push_action RECEIVER_TASK_ID)) r
             else (Inr (), r)))
      else if task = RECEIVER_TASK_ID then
        act_modify (\<lambda>r. r\<lparr>rt_endpoint :=
          (rt_endpoint r)\<lparr>ep_receiver_task := 0, ep_receiver_generation := 0,
             ep_occupied := False, ep_payload := 0\<rparr>\<rparr>)
      else act_fail Err_InvalidTask)"

definition begin_teardown_inner :: "u64 \<Rightarrow> (Runtime, RuntimeError, unit) action" where
  "begin_teardown_inner task =
     act_bind (act_read (\<lambda>r. slot r task)) (\<lambda>s r.
       if ts_state s \<noteq> TaskState_Exited then (Inl Err_WrongState, r)
       else if rt_profile r = Profile_Supervised then
         act_then (act_propagate (slot_capabilities task mark_closing))
         (act_then (release_supervised task)
         (act_then (act_propagate (slot_capabilities task close_all))
         (act_read runtime_validate))) r
       else
         act_then (act_propagate (slot_capabilities task begin_closing))
         (act_then (release_endpoint task)
         (act_read runtime_validate)) r)"

definition begin_teardown :: "u64 \<Rightarrow> (Runtime, RuntimeError, unit) action" where
  "begin_teardown task = act_restoring (begin_teardown_inner task)"

definition complete_teardown_inner :: "u64 \<Rightarrow> (Runtime, RuntimeError, u64 option) action" where
  "complete_teardown_inner task =
     act_bind (act_read (\<lambda>r. slot r task)) (\<lambda>s.
       if ts_state s \<noteq> TaskState_Exited \<or> ct_state (ts_capabilities s) \<noteq> Cap_Closing
       then act_fail Err_WrongState
       else
         act_then (act_propagate (slot_capabilities task finish_dead))
         (act_then
           (slot_mut task (\<lambda>s. s\<lparr>ts_state := TaskState_Dead, ts_generation := 0,
              ts_context := context_clear_dead (ts_context s)\<rparr>))
         (act_then
           (act_modify (\<lambda>r.
              if rt_profile r = Profile_Supervised \<and> task = SENDER_TASK_ID
              then r\<lparr>rt_broker := ApprovalBroker_DEAD, rt_effect := SyntheticEffect_EMPTY\<rparr>
              else r))
         (act_then
           (act_modify (\<lambda>r.
              if list_all (\<lambda>s. ts_state s = TaskState_Dead) (rt_tasks r)
              then r\<lparr>rt_endpoint := EMPTY_ENDPOINT, rt_manifest := ManifestPublication_EMPTY,
                     rt_broker := ApprovalBroker_DEAD, rt_effect := SyntheticEffect_EMPTY\<rparr>
              else r))
         (act_then (act_read runtime_validate) dispatch_next)))))"

definition complete_teardown :: "u64 \<Rightarrow> (Runtime, RuntimeError, u64 option) action" where
  "complete_teardown task = act_restoring (complete_teardown_inner task)"

end
