(* ===== verification/Runtime_Inv.thy ===== *)
theory Runtime_Inv
  imports Runtime_Ops
begin

text \<open>
  The invariant of the task runtime, its relation to the self-check \<open>runtime_validate\<close>, and the
  scheduler: what the invariant does not depend on, what \<open>dispatch_next\<close> does, and the shape of the
  result of a trap.
\<close>


section \<open>The run queue as a list\<close>

definition queue_of :: "u64 list \<Rightarrow> RunQueue" where
  "queue_of xs = \<lparr>rq_entries = xs @ replicate (TASK_COUNT - length xs) 0, rq_len = length xs\<rparr>"

lemma queue_new_of: "queue_new = queue_of []"
  by (simp add: queue_new_def queue_of_def)

lemma queue_contains_of [simp]: "queue_contains (queue_of xs) t \<longleftrightarrow> t \<in> set xs"
  by (simp add: queue_contains_def queue_of_def)

lemma queue_push_of:
  assumes "length xs \<le> 2"
  shows "queue_push t (queue_of xs) =
    (if t \<in> set xs then (Inl Err_DuplicateQueueMember, queue_of xs)
     else if length xs = 2 then (Inl Err_QueueFull, queue_of xs)
     else (Inr (), queue_of (xs @ [t])))"
proof -
  have "length xs = 0 \<or> length xs = 1 \<or> length xs = 2" using assms by linarith
  then show ?thesis
    by (auto simp: queue_push_def queue_of_def length_Suc_conv numeral_2_eq_2)
qed

lemma queue_pop_of:
  "queue_pop (queue_of []) = (None, queue_of [])"
  "length xs \<le> 1 \<Longrightarrow> queue_pop (queue_of (x # xs)) = (Some x, queue_of xs)"
proof -
  show "queue_pop (queue_of []) = (None, queue_of [])" by (simp add: queue_pop_def queue_of_def)
  assume "length xs \<le> 1"
  then consider "xs = []" | y where "xs = [y]" by (cases xs) auto
  then show "queue_pop (queue_of (x # xs)) = (Some x, queue_of xs)"
    by cases (simp_all add: queue_pop_def queue_of_def numeral_2_eq_2)
qed

lemma queue_members:
  assumes "distinct xs" "set xs \<subseteq> {1, 2 :: u64}"
  shows "length xs \<le> 2"
proof -
  have "card (set xs) \<le> card {1, 2 :: u64}" using assms(2) by (intro card_mono) simp_all
  then show ?thesis using distinct_card [OF assms(1)] by simp
qed

lemma queue_validate_of:
  assumes "distinct xs" "set xs \<subseteq> {1, 2 :: u64}"
  shows "queue_validate (queue_of xs) = Inr ()"
proof -
  have "length xs \<le> 2" using assms by (rule queue_members)
  then have "xs = [] \<or> (\<exists>a. xs = [a]) \<or> (\<exists>a b. xs = [a, b])"
    by (cases xs; cases "tl xs") auto
  with assms show ?thesis
    by (auto simp: queue_validate_def queue_of_def list_ex_iff)
qed


section \<open>The invariant\<close>

definition rights_within :: "u64 \<Rightarrow> CapabilityTable \<Rightarrow> bool" where
  "rights_within limit t \<longleftrightarrow> (\<forall>raw e. live_entry t raw = Some e \<longrightarrow> rights_subset (ce_rights e) limit)"

definition slot_inv :: "u64 \<Rightarrow> TaskSlot \<Rightarrow> bool" where
  "slot_inv i s \<longleftrightarrow> ts_id s = i \<and> table_ok (ts_capabilities s) \<and>
     (if ts_state s = TaskState_Dead
      then ts_generation s = 0 \<and> cx_task_id (ts_context s) = 0 \<and> cx_generation (ts_context s) = 0
           \<and> cx_root (ts_context s) = 0 \<and> ct_state (ts_capabilities s) = Cap_Dead
      else ts_generation s \<noteq> 0 \<and> cx_task_id (ts_context s) = i
           \<and> cx_generation (ts_context s) = ts_generation s \<and> cx_root (ts_context s) \<noteq> 0
           \<and> ct_task_id (ts_capabilities s) = i \<and> ct_task_generation (ts_capabilities s) = ts_generation s
           \<and> (if ts_state s = TaskState_Staged then ct_state (ts_capabilities s) = Cap_Building
              else if ts_state s = TaskState_Exited
              then ct_state (ts_capabilities s) = Cap_Live \<or> ct_state (ts_capabilities s) = Cap_Closing
              else ct_state (ts_capabilities s) = Cap_Live))"

definition ready_set :: "Runtime \<Rightarrow> u64 set" where
  "ready_set r =
     (if ts_state (rt_task0 r) = TaskState_Ready then {SENDER_TASK_ID} else {}) \<union>
     (if ts_state (rt_task1 r) = TaskState_Ready then {RECEIVER_TASK_ID} else {})"

definition queue_inv :: "Runtime \<Rightarrow> bool" where
  "queue_inv r \<longleftrightarrow> (\<exists>xs. rt_queue r = queue_of xs \<and> distinct xs \<and> set xs = ready_set r)"

definition slots_inv :: "Runtime \<Rightarrow> bool" where
  "slots_inv r \<longleftrightarrow> slot_inv SENDER_TASK_ID (rt_task0 r) \<and> slot_inv RECEIVER_TASK_ID (rt_task1 r)"

definition sched_inv :: "Runtime \<Rightarrow> bool" where
  "sched_inv r \<longleftrightarrow>
     \<not> (ts_state (rt_task0 r) = TaskState_Running \<and> ts_state (rt_task1 r) = TaskState_Running)
     \<and> queue_inv r"

definition endpoint_inv :: "Runtime \<Rightarrow> bool" where
  "endpoint_inv r \<longleftrightarrow>
     (let ep = rt_endpoint r;
          live0 = ct_state (ts_capabilities (rt_task0 r)) = Cap_Live;
          live1 = ct_state (ts_capabilities (rt_task1 r)) = Cap_Live
      in ep_sender_task ep = (if live0 then SENDER_TASK_ID else 0)
         \<and> ep_sender_generation ep = (if live0 then ts_generation (rt_task0 r) else 0)
         \<and> ep_receiver_task ep = (if live1 then RECEIVER_TASK_ID else 0)
         \<and> ep_receiver_generation ep = (if live1 then ts_generation (rt_task1 r) else 0)
         \<and> ep_object_generation ep =
             (if ts_state (rt_task0 r) = TaskState_Dead \<and> ts_state (rt_task1 r) = TaskState_Dead
              then 0 else ENDPOINT_GENERATION)
         \<and> (ep_occupied ep \<longrightarrow> live1)
         \<and> (\<not> ep_occupied ep \<longrightarrow> ep_payload ep = 0)
         \<and> (ts_state (rt_task1 r) = TaskState_BlockedReceive \<longrightarrow> \<not> ep_occupied ep \<and> live0))"

definition coop_core :: "Runtime \<Rightarrow> bool" where
  "coop_core r \<longleftrightarrow> rt_profile r = Profile_Cooperative \<and> slots_inv r
     \<and> ts_state (rt_task0 r) \<in> {TaskState_Ready, TaskState_Running, TaskState_Exited, TaskState_Dead}
     \<and> ts_state (rt_task1 r) \<in> {TaskState_Ready, TaskState_Running, TaskState_BlockedReceive,
                                    TaskState_Exited, TaskState_Dead}
     \<and> rights_within (CAPABILITY_RIGHT_SEND OR CAPABILITY_RIGHT_DUPLICATE) (ts_capabilities (rt_task0 r))
     \<and> endpoint_inv r
     \<and> rt_manifest r = ManifestPublication_EMPTY
     \<and> rt_broker r = ApprovalBroker_DEAD
     \<and> rt_effect r = SyntheticEffect_EMPTY"

definition request_cleared :: "ApprovalBroker \<Rightarrow> bool" where
  "request_cleared b \<longleftrightarrow> \<not> ab_request_present b \<and> ab_request_kind b = 0
     \<and> ab_request b = ApprovalRequestV1_default \<and> ab_approval_epoch b = 0 \<and> ab_expiry_epoch b = 0"

definition request_open :: "ApprovalBroker \<Rightarrow> bool" where
  "request_open b \<longleftrightarrow> ab_request_present b
     \<and> ab_request_kind b = APPROVAL_REQUEST_KIND_COMMIT_SYNTHETIC_VALUE \<and> \<not> request_invalid (ab_request b)"

definition broker_inv :: "ApprovalBroker \<Rightarrow> bool" where
  "broker_inv b \<longleftrightarrow> ab_object_generation b = FIXED_OBJECT_GENERATION \<and> ab_next_sequence b \<noteq> 0
     \<and> ab_decision_epoch b \<noteq> 0
     \<and> (case ab_state b of
          Broker_Empty \<Rightarrow> request_cleared b
        | Broker_Closing \<Rightarrow> request_cleared b
        | Broker_Pending \<Rightarrow> request_open b \<and> ab_approval_epoch b = 0 \<and> ab_expiry_epoch b = 0
        | Broker_Approved \<Rightarrow>
            request_open b \<and> ab_approval_epoch b = ab_decision_epoch b
            \<and> ab_decision_epoch b \<noteq> u64_MAX \<and> ab_expiry_epoch b = ab_decision_epoch b + 1
        | _ \<Rightarrow> False)"

definition effect_inv :: "SyntheticEffect \<Rightarrow> bool" where
  "effect_inv f \<longleftrightarrow> se_object_generation f = FIXED_OBJECT_GENERATION
     \<and> se_supervisor_task_id f = SENDER_TASK_ID \<and> se_supervisor_generation f = SUPERVISOR_GENERATION
     \<and> (\<not> se_occupied f \<longrightarrow> se_value f = 0)"

definition sup_core :: "Runtime \<Rightarrow> bool" where
  "sup_core r \<longleftrightarrow> rt_profile r = Profile_Supervised \<and> slots_inv r
     \<and> ts_state (rt_task0 r) \<in> {TaskState_Ready, TaskState_Running, TaskState_Exited, TaskState_Dead}
     \<and> ts_state (rt_task1 r) \<noteq> TaskState_BlockedReceive
     \<and> rt_endpoint r = EMPTY_ENDPOINT
     \<and> (ts_state (rt_task0 r) \<noteq> TaskState_Dead \<longrightarrow> ts_generation (rt_task0 r) = SUPERVISOR_GENERATION)
     \<and> (ts_state (rt_task1 r) \<noteq> TaskState_Dead \<longrightarrow> ts_generation (rt_task1 r) = WORKLOAD_GENERATION)
     \<and> (ts_state (rt_task1 r) = TaskState_Staged \<longrightarrow>
          ts_capabilities (rt_task1 r) = table_building RECEIVER_TASK_ID WORKLOAD_GENERATION)
     \<and> rt_manifest r =
         (if ct_state (ts_capabilities (rt_task1 r)) = Cap_Live then published_manifest
          else ManifestPublication_EMPTY)
     \<and> (if ts_state (rt_task0 r) = TaskState_Dead then rt_broker r = ApprovalBroker_DEAD
        else broker_inv (rt_broker r))
     \<and> (ts_state (rt_task1 r) = TaskState_BlockedApproval \<longleftrightarrow>
          ab_state (rt_broker r) = Broker_Pending \<or> ab_state (rt_broker r) = Broker_Approved)
     \<and> (ct_state (ts_capabilities (rt_task0 r)) = Cap_Closing \<longrightarrow> ab_state (rt_broker r) = Broker_Closing)
     \<and> (if ct_state (ts_capabilities (rt_task0 r)) = Cap_Live then effect_inv (rt_effect r)
        else rt_effect r = SyntheticEffect_EMPTY)"

definition runtime_inv :: "Runtime \<Rightarrow> bool" where
  "runtime_inv r \<longleftrightarrow> (coop_core r \<or> sup_core r) \<and> sched_inv r"


section \<open>The invariant implies validity\<close>

lemma slot_inv_validate:
  assumes "slot_inv i s" "queue_contains q i = (ts_state s = TaskState_Ready)"
  shows "slot_validate q s = Inr ()"
proof -
  have "ts_id s = i" "table_validate (ts_capabilities s) = Inr ()"
    using assms(1) by (auto simp: slot_inv_def table_ok_def)
  with assms show ?thesis
    by (cases "ts_state s") (auto simp: slot_validate_def slot_inv_def table_state_expected_def Let_def)
qed

lemma ready_set_iff:
  "SENDER_TASK_ID \<in> ready_set r \<longleftrightarrow> ts_state (rt_task0 r) = TaskState_Ready"
  "RECEIVER_TASK_ID \<in> ready_set r \<longleftrightarrow> ts_state (rt_task1 r) = TaskState_Ready"
  by (auto simp: ready_set_def)

lemma ready_set_subset: "ready_set r \<subseteq> {1, 2}"
  by (auto simp: ready_set_def)

lemma slots_inv_validate:
  assumes "slots_inv r" "sched_inv r"
  shows "runtime_validate r =
    (case rt_profile r of Profile_Cooperative \<Rightarrow> validate_cooperative r
     | Profile_Supervised \<Rightarrow> validate_supervised r)"
proof -
  obtain xs where xs: "rt_queue r = queue_of xs" "distinct xs" "set xs = ready_set r"
    using assms by (auto simp: sched_inv_def queue_inv_def)
  have q: "queue_validate (rt_queue r) = Inr ()"
    using xs ready_set_subset [of r] by (simp add: queue_validate_of)
  have s0: "slot_validate (rt_queue r) (rt_task0 r) = Inr ()"
    by (rule slot_inv_validate [of SENDER_TASK_ID])
      (use assms xs ready_set_iff [of r] in \<open>simp_all add: slots_inv_def\<close>)
  have s1: "slot_validate (rt_queue r) (rt_task1 r) = Inr ()"
    by (rule slot_inv_validate [of RECEIVER_TASK_ID])
      (use assms xs ready_set_iff [of r] in \<open>simp_all add: slots_inv_def\<close>)
  have "\<not> length (filter (\<lambda>s. ts_state s = TaskState_Running) (rt_tasks r)) > 1"
    using assms by (simp add: sched_inv_def rt_tasks_def)
  then show ?thesis by (simp add: runtime_validate_def q s0 s1)
qed

lemma slot_inv_table_state:
  assumes "slot_inv i s"
  shows "ts_state s \<in> {TaskState_Ready, TaskState_Running, TaskState_BlockedReceive, TaskState_BlockedApproval}
      \<Longrightarrow> ct_state (ts_capabilities s) = Cap_Live"
    and "ts_state s = TaskState_Dead \<longleftrightarrow> ct_state (ts_capabilities s) = Cap_Dead"
    and "ts_state s = TaskState_Staged \<longleftrightarrow> ct_state (ts_capabilities s) = Cap_Building"
    and "ct_state (ts_capabilities s) = Cap_Closing \<Longrightarrow> ts_state s = TaskState_Exited"
    and "ts_state s \<noteq> TaskState_Dead \<Longrightarrow> ts_generation s \<noteq> 0"
  using assms by (auto simp: slot_inv_def split: if_splits)

lemma coop_core_validate:
  assumes "coop_core r" "sched_inv r"
  shows "runtime_validate r = Inr ()"
proof -
  have slots: "slots_inv r" and prof: "rt_profile r = Profile_Cooperative"
    using assms by (simp_all add: coop_core_def)
  have s: "slot_inv 1 (rt_task0 r)" "slot_inv 2 (rt_task1 r)" using slots by (simp_all add: slots_inv_def)
  note t0 = slot_inv_table_state [OF s(1)] and t1 = slot_inv_table_state [OF s(2)]
  have ids: "ts_id (rt_task0 r) = 1" "ts_id (rt_task1 r) = 2" using s by (simp_all add: slot_inv_def)
  have st: "ts_state (rt_task0 r) \<noteq> TaskState_Staged" "ts_state (rt_task0 r) \<noteq> TaskState_BlockedApproval"
    "ts_state (rt_task1 r) \<noteq> TaskState_Staged" "ts_state (rt_task1 r) \<noteq> TaskState_BlockedApproval"
    and rest: "rt_manifest r = ManifestPublication_EMPTY" "rt_broker r = ApprovalBroker_DEAD"
    "rt_effect r = SyntheticEffect_EMPTY"
    and ep: "endpoint_inv r"
    using assms by (auto simp: coop_core_def)
  have "validate_cooperative r = Inr ()"
  proof (cases "ts_state (rt_task0 r) = TaskState_Dead \<and> ts_state (rt_task1 r) = TaskState_Dead")
    case True
    then have "rt_endpoint r = EMPTY_ENDPOINT"
      using ep t0(2) t1(2) by (simp add: endpoint_inv_def EMPTY_ENDPOINT_def Let_def)
    with True show ?thesis
      using t0(2) t1(2) rest by (simp add: validate_cooperative_def rt_tasks_def EMPTY_ENDPOINT_def)
  next
    case False
    then show ?thesis
      using ep st rest ids t0(2,3,5) t1(1,2,3,5)
      by (cases "ct_state (ts_capabilities (rt_task0 r))"; cases "ct_state (ts_capabilities (rt_task1 r))")
        (simp_all add: validate_cooperative_def endpoint_inv_def rt_tasks_def Let_def, blast+)
  qed
  then show ?thesis using slots_inv_validate [OF slots assms(2)] prof by simp
qed

lemma saturating_add_one: "a \<noteq> u64_MAX \<Longrightarrow> saturating_add a 1 = a + 1"
  using checked_add_one_None [of a] by (auto simp: saturating_add_def checked_add_def)

lemma broker_inv_validate:
  assumes "broker_inv (rt_broker r)"
    and "ab_state (rt_broker r) = Broker_Pending \<or> ab_state (rt_broker r) = Broker_Approved
         \<Longrightarrow> ts_state (rt_task1 r) = TaskState_BlockedApproval"
  shows "validate_broker r = Inr ()"
  using assms
  by (cases "ab_state (rt_broker r)")
    (auto simp: validate_broker_def broker_state_invalid_def broker_inv_def request_open_def
      request_cleared_def saturating_add_one Let_def)

lemma dead_broker_validate: "rt_broker r = ApprovalBroker_DEAD \<Longrightarrow> validate_broker r = Inr ()"
  by (simp add: validate_broker_def broker_state_invalid_def ApprovalBroker_DEAD_def Let_def)

lemma sup_core_validate:
  assumes "sup_core r" "sched_inv r"
  shows "runtime_validate r = Inr ()"
proof -
  have slots: "slots_inv r" and prof: "rt_profile r = Profile_Supervised"
    using assms by (simp_all add: sup_core_def)
  have s: "slot_inv 1 (rt_task0 r)" "slot_inv 2 (rt_task1 r)" using slots by (simp_all add: slots_inv_def)
  note t0 = slot_inv_table_state [OF s(1)] and t1 = slot_inv_table_state [OF s(2)]
  have m: "rt_manifest r = (if ct_state (ts_capabilities (rt_task1 r)) = Cap_Live then published_manifest
         else ManifestPublication_EMPTY)"
    and staged: "ts_state (rt_task1 r) = TaskState_Staged \<Longrightarrow>
      ts_capabilities (rt_task1 r) = table_building 2 5"
    and st: "ts_state (rt_task0 r) \<noteq> TaskState_BlockedReceive" "ts_state (rt_task1 r) \<noteq> TaskState_BlockedReceive"
    and gens: "ts_state (rt_task0 r) \<noteq> TaskState_Dead \<Longrightarrow> ts_generation (rt_task0 r) = 4"
      "ts_state (rt_task1 r) \<noteq> TaskState_Dead \<Longrightarrow> ts_generation (rt_task1 r) = 5"
    and ep: "rt_endpoint r = EMPTY_ENDPOINT"
    using assms by (auto simp: sup_core_def)
  have "validate_manifest_state r = Inr ()"
  proof (cases "ts_state (rt_task1 r) = TaskState_Staged")
    case True
    then show ?thesis
      using m t1(3) staged by (simp add: validate_manifest_state_def table_snapshot_def table_building_def
          CapabilitySlot_EMPTY_def Let_def)
  next
    case False
    then show ?thesis
      using m t1(2,3)
      by (cases "ct_state (ts_capabilities (rt_task1 r))")
        (simp_all add: validate_manifest_state_def published_manifest_def Let_def)
  qed
  moreover have "validate_broker r = Inr ()"
    using assms broker_inv_validate [of r] dead_broker_validate [of r]
    by (auto simp: sup_core_def split: if_splits)
  moreover have "validate_effect r = Inr ()"
    using assms by (auto simp: validate_effect_def sup_core_def effect_inv_def SyntheticEffect_EMPTY_def Let_def
        split: if_splits)
  moreover have "rt_manifest r = ManifestPublication_EMPTY \<and> rt_broker r = ApprovalBroker_DEAD
      \<and> rt_effect r = SyntheticEffect_EMPTY"
    if "ts_state (rt_task0 r) = TaskState_Dead" "ts_state (rt_task1 r) = TaskState_Dead"
    using that assms t0(2) t1(2) by (simp add: sup_core_def)
  ultimately have "validate_supervised r = Inr ()"
    using st gens ep
    by (cases "ts_state (rt_task0 r) = TaskState_Dead"; cases "ts_state (rt_task1 r) = TaskState_Dead")
      (simp_all add: validate_supervised_def rt_tasks_def)
  then show ?thesis using slots_inv_validate [OF slots assms(2)] prof by simp
qed

lemma runtime_inv_validate: "runtime_inv r \<Longrightarrow> runtime_validate r = Inr ()"
  by (auto simp: runtime_inv_def coop_core_validate sup_core_validate)


section \<open>Updates of one slot\<close>

definition valid_task :: "u64 \<Rightarrow> bool" where
  "valid_task t \<longleftrightarrow> t = SENDER_TASK_ID \<or> t = RECEIVER_TASK_ID"

definition upd :: "u64 \<Rightarrow> (TaskSlot \<Rightarrow> TaskSlot) \<Rightarrow> Runtime \<Rightarrow> Runtime" where
  "upd t f r = (if t = SENDER_TASK_ID then r\<lparr>rt_task0 := f (rt_task0 r)\<rparr> else r\<lparr>rt_task1 := f (rt_task1 r)\<rparr>)"

definition task_slot :: "Runtime \<Rightarrow> u64 \<Rightarrow> TaskSlot" where
  "task_slot r t = (if t = SENDER_TASK_ID then rt_task0 r else rt_task1 r)"

abbreviation task_state :: "Runtime \<Rightarrow> u64 \<Rightarrow> TaskState" where
  "task_state r t \<equiv> ts_state (task_slot r t)"

lemma slot_eq [simp]: "valid_task t \<Longrightarrow> slot r t = Inr (task_slot r t)"
  by (auto simp: valid_task_def slot_def task_slot_def)

lemma slot_mut_eq [simp]: "valid_task t \<Longrightarrow> slot_mut t f r = (Inr (), upd t f r)"
  by (auto simp: valid_task_def slot_mut_def upd_def)

lemma set_result_eq:
  "valid_task t \<Longrightarrow> set_result t st v r =
     (Inr (), upd t (\<lambda>s. s\<lparr>ts_context := context_set_result st v (ts_context s)\<rparr>) r)"
  by (simp add: set_result_def)

lemma slot_capabilities_eq:
  "valid_task t \<Longrightarrow> slot_capabilities t f r =
     (Inr (fst (f (ts_capabilities (task_slot r t)))),
      upd t (\<lambda>s. s\<lparr>ts_capabilities := snd (f (ts_capabilities (task_slot r t)))\<rparr>) r)"
  by (simp add: slot_capabilities_def split: prod.splits)

lemma valid_task_simps [simp]: "valid_task 1" "valid_task 2"
  by (simp_all add: valid_task_def)

lemma upd_simps [simp]:
  "rt_profile (upd t f r) = rt_profile r" "rt_queue (upd t f r) = rt_queue r"
  "rt_endpoint (upd t f r) = rt_endpoint r" "rt_manifest (upd t f r) = rt_manifest r"
  "rt_broker (upd t f r) = rt_broker r" "rt_effect (upd t f r) = rt_effect r"
  by (simp_all add: upd_def)

lemma upd_upd: "upd t f (upd t g r) = upd t (\<lambda>s. f (g s)) r"
  by (simp add: upd_def)

lemma task_slot_simps [simp]: "task_slot r 1 = rt_task0 r" "task_slot r 2 = rt_task1 r"
  by (simp_all add: task_slot_def)

lemma upd_1 [simp]: "upd 1 f r = r\<lparr>rt_task0 := f (rt_task0 r)\<rparr>"
  and upd_2 [simp]: "upd 2 f r = r\<lparr>rt_task1 := f (rt_task1 r)\<rparr>"
  by (simp_all add: upd_def)


section \<open>What the invariant does not depend on\<close>

definition same_identity :: "TaskContextV1 \<Rightarrow> TaskContextV1 \<Rightarrow> bool" where
  "same_identity c d \<longleftrightarrow> cx_task_id c = cx_task_id d \<and> cx_generation c = cx_generation d \<and> cx_root c = cx_root d"

lemma same_identity_set_result [simp]: "same_identity (context_set_result st v c) c"
  by (simp add: same_identity_def context_set_result_def)

text \<open>The core depends on a slot through a view that forgets the registers and whether an active
  task is queued or running.\<close>

definition active :: "TaskState \<Rightarrow> bool" where
  "active st \<longleftrightarrow> st = TaskState_Ready \<or> st = TaskState_Running"

definition similar :: "TaskSlot \<Rightarrow> TaskSlot \<Rightarrow> bool" where
  "similar s u \<longleftrightarrow> ts_id s = ts_id u \<and> ts_generation s = ts_generation u
     \<and> (ts_state s = ts_state u \<or> active (ts_state s) \<and> active (ts_state u))
     \<and> same_identity (ts_context s) (ts_context u) \<and> ts_capabilities s = ts_capabilities u"

lemma similar_slot_inv:
  assumes "similar s u"
  shows "slot_inv i s = slot_inv i u"
proof (cases "ts_state s = ts_state u")
  case True
  with assms show ?thesis by (simp add: similar_def slot_inv_def same_identity_def cong: if_cong)
next
  case False
  with assms have "active (ts_state s)" "active (ts_state u)" by (auto simp: similar_def)
  then have "ts_state s \<noteq> TaskState_Dead" "ts_state s \<noteq> TaskState_Staged" "ts_state s \<noteq> TaskState_Exited"
    "ts_state u \<noteq> TaskState_Dead" "ts_state u \<noteq> TaskState_Staged" "ts_state u \<noteq> TaskState_Exited"
    by (auto simp: active_def)
  with assms show ?thesis by (simp add: similar_def slot_inv_def same_identity_def)
qed

lemma similar_state:
  assumes "similar s u" "\<not> active st"
  shows "ts_state s = st \<longleftrightarrow> ts_state u = st"
  using assms by (auto simp: similar_def active_def)

lemma not_active_simps [simp]:
  "\<not> active TaskState_Staged" "\<not> active TaskState_BlockedReceive" "\<not> active TaskState_BlockedApproval"
  "\<not> active TaskState_Exited" "\<not> active TaskState_Dead" "active TaskState_Ready" "active TaskState_Running"
  by (simp_all add: active_def)

lemma active_members:
  "st \<in> {TaskState_Ready, TaskState_Running, TaskState_Exited, TaskState_Dead} \<longleftrightarrow>
     \<not> (st = TaskState_Staged \<or> st = TaskState_BlockedReceive \<or> st = TaskState_BlockedApproval)"
  "st \<in> {TaskState_Ready, TaskState_Running, TaskState_BlockedReceive, TaskState_Exited, TaskState_Dead} \<longleftrightarrow>
     \<not> (st = TaskState_Staged \<or> st = TaskState_BlockedApproval)"
  by (cases st; simp)+

lemma coop_core_similar0:
  assumes "similar s (rt_task0 r)"
  shows "coop_core (r\<lparr>rt_task0 := s\<rparr>) = coop_core r"
proof -
  have "ts_capabilities s = ts_capabilities (rt_task0 r)" "ts_generation s = ts_generation (rt_task0 r)"
    using assms by (simp_all add: similar_def)
  then show ?thesis
    unfolding coop_core_def slots_inv_def endpoint_inv_def active_members Let_def
    by (simp add: similar_slot_inv [OF assms] similar_state [OF assms] cong: if_cong)
qed

lemma coop_core_similar1:
  assumes "similar s (rt_task1 r)"
  shows "coop_core (r\<lparr>rt_task1 := s\<rparr>) = coop_core r"
proof -
  have "ts_capabilities s = ts_capabilities (rt_task1 r)" "ts_generation s = ts_generation (rt_task1 r)"
    using assms by (simp_all add: similar_def)
  then show ?thesis
    unfolding coop_core_def slots_inv_def endpoint_inv_def active_members Let_def
    by (simp add: similar_slot_inv [OF assms] similar_state [OF assms] cong: if_cong)
qed

lemma sup_core_similar0:
  assumes "similar s (rt_task0 r)"
  shows "sup_core (r\<lparr>rt_task0 := s\<rparr>) = sup_core r"
proof -
  have "ts_capabilities s = ts_capabilities (rt_task0 r)" "ts_generation s = ts_generation (rt_task0 r)"
    using assms by (simp_all add: similar_def)
  then show ?thesis
    unfolding sup_core_def slots_inv_def active_members
    by (simp add: similar_slot_inv [OF assms] similar_state [OF assms] cong: if_cong)
qed

lemma sup_core_similar1:
  assumes "similar s (rt_task1 r)"
  shows "sup_core (r\<lparr>rt_task1 := s\<rparr>) = sup_core r"
proof -
  have "ts_capabilities s = ts_capabilities (rt_task1 r)" "ts_generation s = ts_generation (rt_task1 r)"
    using assms by (simp_all add: similar_def)
  then show ?thesis
    unfolding sup_core_def slots_inv_def active_members
    by (simp add: similar_slot_inv [OF assms] similar_state [OF assms] cong: if_cong)
qed

definition core :: "Runtime \<Rightarrow> bool" where
  "core r \<longleftrightarrow> coop_core r \<or> sup_core r"

lemma runtime_inv_core: "runtime_inv r \<longleftrightarrow> core r \<and> sched_inv r"
  by (simp add: runtime_inv_def core_def)

lemma core_similar:
  assumes "valid_task t" "similar (f (task_slot r t)) (task_slot r t)"
  shows "core (upd t f r) = core r"
  using assms
  by (auto simp: core_def valid_task_def coop_core_similar0 coop_core_similar1 sup_core_similar0 sup_core_similar1)

lemma core_queue [simp]: "core (r\<lparr>rt_queue := q\<rparr>) = core r"
  by (simp add: core_def coop_core_def sup_core_def slots_inv_def endpoint_inv_def Let_def)

lemma upd_queue: "upd t f (r\<lparr>rt_queue := q\<rparr>) = (upd t f r)\<lparr>rt_queue := q\<rparr>"
  by (simp add: upd_def)


section \<open>Scheduling\<close>

lemma core_slots: "core r \<Longrightarrow> slots_inv r"
  unfolding core_def coop_core_def sup_core_def by blast

lemma core_ids: "core r \<Longrightarrow> ts_id (rt_task0 r) = 1 \<and> ts_id (rt_task1 r) = 2"
  using core_slots [of r] by (simp add: slots_inv_def slot_inv_def)

lemma running_task_iff:
  assumes "runtime_inv r"
  shows "running_task r = Inr t \<longleftrightarrow> valid_task t \<and> task_state r t = TaskState_Running"
proof -
  have ids: "ts_id (rt_task0 r) = 1" "ts_id (rt_task1 r) = 2"
    using assms core_ids by (auto simp: runtime_inv_core)
  have "\<not> (ts_state (rt_task0 r) = TaskState_Running \<and> ts_state (rt_task1 r) = TaskState_Running)"
    using assms by (simp add: runtime_inv_core sched_inv_def)
  then show ?thesis
    using ids by (auto simp: running_task_def rt_tasks_def valid_task_def task_slot_def)
qed

lemma core_slot_inv: "core r \<Longrightarrow> valid_task t \<Longrightarrow> slot_inv t (task_slot r t)"
  using core_slots [of r] by (auto simp: slots_inv_def valid_task_def)

definition other :: "u64 \<Rightarrow> u64" where
  "other t = (if t = SENDER_TASK_ID then RECEIVER_TASK_ID else SENDER_TASK_ID)"

lemma other_simps [simp]: "other 1 = 2" "other 2 = 1" "valid_task (other t)"
  by (simp_all add: other_def)

text \<open>With one task running, the queue holds the other task or nothing.\<close>

lemma sched_running_iff:
  assumes "valid_task t" "task_state r t = TaskState_Running"
  shows "sched_inv r \<longleftrightarrow> task_state r (other t) \<noteq> TaskState_Running \<and>
    rt_queue r = queue_of (if task_state r (other t) = TaskState_Ready then [other t] else [])"
proof -
  have single: "set xs = {x} \<and> distinct xs \<longleftrightarrow> xs = [x]" for xs and x :: u64
  proof
    assume "set xs = {x} \<and> distinct xs"
    then have "length xs = 1" "set xs = {x}" using distinct_card [of xs] by auto
    then show "xs = [x]" by (cases xs) auto
  qed auto
  have ready: "ready_set r = (if task_state r (other t) = TaskState_Ready then {other t} else {})"
    using assms by (auto simp: valid_task_def ready_set_def)
  have "queue_inv r \<longleftrightarrow> (\<exists>xs. (set xs = ready_set r \<and> distinct xs) \<and> rt_queue r = queue_of xs)"
    unfolding queue_inv_def by blast
  also have "\<dots> \<longleftrightarrow>
      rt_queue r = queue_of (if task_state r (other t) = TaskState_Ready then [other t] else [])"
  proof (cases "task_state r (other t) = TaskState_Ready")
    case True
    have "(\<exists>xs. (set xs = {other t} \<and> distinct xs) \<and> rt_queue r = queue_of xs) \<longleftrightarrow>
        rt_queue r = queue_of [other t]"
      unfolding single by blast
    with True show ?thesis by (simp add: ready)
  next
    case False
    then show ?thesis by (simp add: ready)
  qed
  finally have "queue_inv r \<longleftrightarrow>
      rt_queue r = queue_of (if task_state r (other t) = TaskState_Ready then [other t] else [])" .
  moreover have "ts_state (rt_task0 r) = TaskState_Running \<and> ts_state (rt_task1 r) = TaskState_Running \<longleftrightarrow>
      task_state r (other t) = TaskState_Running"
    using assms by (auto simp: valid_task_def)
  ultimately show ?thesis unfolding sched_inv_def by blast
qed

definition answered :: "u64 \<Rightarrow> TrapStatus \<Rightarrow> u64 \<Rightarrow> Runtime \<Rightarrow> Runtime" where
  "answered t st v = upd t (\<lambda>s. s\<lparr>ts_context := context_set_result st v (ts_context s)\<rparr>)"

lemma task_slot_upd:
  "valid_task t \<Longrightarrow> valid_task u \<Longrightarrow> task_slot (upd t f r) u = (if u = t then f (task_slot r t) else task_slot r u)"
  by (auto simp: valid_task_def)

lemma task_slot_queue [simp]: "task_slot (r\<lparr>rt_queue := q\<rparr>) t = task_slot r t"
  by (simp add: task_slot_def)

lemma sched_upd_same:
  assumes "valid_task t" "ts_state (f (task_slot r t)) = ts_state (task_slot r t)"
  shows "sched_inv (upd t f r) = sched_inv r"
  using assms by (auto simp: valid_task_def sched_inv_def queue_inv_def ready_set_def)

lemma answered_inv: "valid_task t \<Longrightarrow> runtime_inv (answered t st v r) = runtime_inv r"
  by (simp add: runtime_inv_core answered_def core_similar similar_def sched_upd_same)

lemma resume_eq: "valid_task t \<Longrightarrow> resume t st v r = (Inr (Outcome_Resume t), answered t st v r)"
  by (simp add: resume_def act_then_def act_bind_def set_result_eq answered_def)

lemma resume_validated_eq:
  "valid_task t \<Longrightarrow> runtime_inv r \<Longrightarrow>
   resume_validated t st v r = (Inr (Outcome_Resume t), answered t st v r)"
  by (simp add: resume_validated_def act_then_def act_bind_def set_result_eq
      runtime_inv_validate answered_inv flip: answered_def)

lemma answered_simps [simp]:
  "rt_profile (answered t st v r) = rt_profile r" "rt_queue (answered t st v r) = rt_queue r"
  "rt_endpoint (answered t st v r) = rt_endpoint r" "rt_manifest (answered t st v r) = rt_manifest r"
  "rt_broker (answered t st v r) = rt_broker r" "rt_effect (answered t st v r) = rt_effect r"
  by (simp_all add: answered_def)

lemma answered_state [simp]:
  "valid_task t \<Longrightarrow> valid_task u \<Longrightarrow> task_state (answered t st v r) u = task_state r u"
  by (simp add: answered_def task_slot_upd)

lemma ready_member: "x \<in> ready_set r \<longleftrightarrow> valid_task x \<and> task_state r x = TaskState_Ready"
  by (auto simp: ready_set_def valid_task_def)

definition dispatched :: "u64 \<Rightarrow> u64 list \<Rightarrow> Runtime \<Rightarrow> Runtime" where
  "dispatched x xs r = (upd x (\<lambda>s. s\<lparr>ts_state := TaskState_Running\<rparr>) r)\<lparr>rt_queue := queue_of xs\<rparr>"

lemma dispatched_inv:
  assumes "core r" "task_state r 1 \<noteq> TaskState_Running" "task_state r 2 \<noteq> TaskState_Running"
    and "distinct (x # xs)" "set (x # xs) = ready_set r"
  shows "runtime_inv (dispatched x xs r)"
proof -
  have "x \<in> ready_set r" using assms(5) by auto
  then have x: "valid_task x" "task_state r x = TaskState_Ready" by (simp_all add: ready_member)
  have "core (dispatched x xs r)"
    unfolding dispatched_def using assms(1) x
    by (simp add: core_similar similar_def same_identity_def)
  moreover have "ready_set (dispatched x xs r) = ready_set r - {x}"
    using x(1) by (auto simp: ready_member dispatched_def task_slot_upd split: if_splits)
  then have "set xs = ready_set (dispatched x xs r)" using assms(4,5) by auto
  then have "queue_inv (dispatched x xs r)"
    using assms(4) unfolding queue_inv_def by (intro exI [of _ xs]) (simp add: dispatched_def)
  then have "sched_inv (dispatched x xs r)"
    using x assms(2,3) by (auto simp: sched_inv_def dispatched_def valid_task_def)
  ultimately show ?thesis by (simp add: runtime_inv_core)
qed

lemma dispatch_next_eq:
  assumes "core r" "task_state r 1 \<noteq> TaskState_Running" "task_state r 2 \<noteq> TaskState_Running"
    and "rt_queue r = queue_of (x # xs)" "distinct (x # xs)" "set (x # xs) = ready_set r"
  shows "dispatch_next r = (Inr (Some x), dispatched x xs r)"
proof -
  have "x \<in> ready_set r" using assms(6) by auto
  then have x: "valid_task x" "task_state r x = TaskState_Ready" by (simp_all add: ready_member)
  have "length (x # xs) \<le> 2"
    using assms(5,6) ready_set_subset by (intro queue_members) auto
  then have "length xs \<le> 1" by simp
  then have pop: "queue_pop (rt_queue r) = (Some x, queue_of xs)"
    using assms(4) by (simp add: queue_pop_of)
  have "runtime_validate (dispatched x xs r) = Inr ()"
    by (rule runtime_inv_validate [OF dispatched_inv [OF assms(1-3,5,6)]])
  then show ?thesis
    using assms(2,3) x pop
    by (simp add: dispatch_next_def rt_tasks_def act_bind_def act_then_def dispatched_def upd_queue)
qed

lemma dispatch_empty:
  assumes "task_state r 1 \<noteq> TaskState_Running" "task_state r 2 \<noteq> TaskState_Running"
    and "rt_queue r = queue_of []"
  shows "dispatch_next r =
    (if task_state r 1 = TaskState_Dead \<and> task_state r 2 = TaskState_Dead then (Inr None, r)
     else (Inl Err_NoRunnableTask, r))"
proof -
  have "r\<lparr>rt_queue := queue_of []\<rparr> = r" using assms(3) by simp
  then show ?thesis
    using assms by (simp add: dispatch_next_def rt_tasks_def queue_pop_of)
qed

lemma queue_push_action_eq:
  assumes "rt_queue r = queue_of xs" "length xs \<le> 1" "t \<notin> set xs"
  shows "queue_push_action t r = (Inr (), r\<lparr>rt_queue := queue_of (xs @ [t])\<rparr>)"
  using assms by (simp add: queue_push_action_def queue_push_of)


section \<open>Outcome of a trap\<close>

text \<open>
  What a trap of the running task \<open>t\<close> may do to an invariant state: resume it, switch to a task that
  then runs, or leave it exited.  An error is possible only while the other task is exited and not yet
  reclaimed, a situation the kernel never creates.
\<close>

definition exited_same :: "Runtime \<Rightarrow> Runtime \<Rightarrow> bool" where
  "exited_same r r' \<longleftrightarrow>
     (task_state r' 1 = TaskState_Exited \<longleftrightarrow> task_state r 1 = TaskState_Exited)
     \<and> (task_state r' 2 = TaskState_Exited \<longleftrightarrow> task_state r 2 = TaskState_Exited)"

definition trap_post :: "u64 \<Rightarrow> Runtime \<Rightarrow> (RuntimeError + TrapOutcome) \<times> Runtime \<Rightarrow> bool" where
  "trap_post t r res \<longleftrightarrow>
     (case res of (x, r') \<Rightarrow>
        (case x of
           Inl e \<Rightarrow> task_state r (other t) = TaskState_Exited
         | Inr (Outcome_Resume u) \<Rightarrow>
             u = t \<and> runtime_inv r' \<and> task_state r' t = TaskState_Running \<and> exited_same r r'
         | Inr (Outcome_Switch u) \<Rightarrow>
             runtime_inv r' \<and> valid_task u \<and> task_state r' u = TaskState_Running \<and> exited_same r r'
         | Inr (Outcome_Exit u) \<Rightarrow>
             u = t \<and> runtime_inv r' \<and> task_state r' t = TaskState_Exited
             \<and> ct_state (ts_capabilities (task_slot r' t)) = Cap_Live
             \<and> task_state r' (other t) = task_state r (other t)))"

definition trap_pre :: "u64 \<Rightarrow> Runtime \<Rightarrow> bool" where
  "trap_pre t r \<longleftrightarrow> valid_task t \<and> runtime_inv r \<and> task_state r t = TaskState_Running"

lemma trap_preD:
  assumes "trap_pre t r"
  shows "valid_task t" "runtime_inv r" "core r" "sched_inv r" "task_state r t = TaskState_Running"
    "task_state r (other t) \<noteq> TaskState_Running"
    "rt_queue r = queue_of (if task_state r (other t) = TaskState_Ready then [other t] else [])"
  using assms sched_running_iff [of t r] by (simp_all add: trap_pre_def runtime_inv_core)

lemma answered_tasks [simp]:
  "ts_state (rt_task0 (answered t st v r)) = ts_state (rt_task0 r)"
  "ts_state (rt_task1 (answered t st v r)) = ts_state (rt_task1 r)"
  "ts_capabilities (rt_task0 (answered t st v r)) = ts_capabilities (rt_task0 r)"
  "ts_capabilities (rt_task1 (answered t st v r)) = ts_capabilities (rt_task1 r)"
  by (simp_all add: answered_def upd_def)

lemma post_answered:
  assumes "trap_pre t r"
  shows "trap_post t r (Inr (Outcome_Resume t), answered t st v r)"
  using trap_preD [OF assms] by (simp add: trap_post_def answered_inv exited_same_def)

lemma resume_post: "trap_pre t r \<Longrightarrow> trap_post t r (resume t st v r)"
  using post_answered trap_preD(1) by (simp add: resume_eq)

lemma resume_validated_post: "trap_pre t r \<Longrightarrow> trap_post t r (resume_validated t st v r)"
  using post_answered trap_preD(1,2) by (simp add: resume_validated_eq)

lemma switch_next_eq:
  assumes "core r" "task_state r 1 \<noteq> TaskState_Running" "task_state r 2 \<noteq> TaskState_Running"
    and "rt_queue r = queue_of xs" "distinct xs" "set xs = ready_set r" "xs \<noteq> []"
  shows "switch_next r = (Inr (hd xs), dispatched (hd xs) (tl xs) r)"
    and "runtime_inv (dispatched (hd xs) (tl xs) r)" "valid_task (hd xs)"
    and "task_state (dispatched (hd xs) (tl xs) r) (hd xs) = TaskState_Running"
    and "exited_same r (dispatched (hd xs) (tl xs) r)"
proof -
  obtain y ys where xs: "xs = y # ys" using assms(7) by (cases xs) auto
  have "y \<in> ready_set r" using assms(6) xs by auto
  then have y: "valid_task y" "task_state r y = TaskState_Ready" by (simp_all add: ready_member)
  show "switch_next r = (Inr (hd xs), dispatched (hd xs) (tl xs) r)"
    using dispatch_next_eq [OF assms(1-3), of y ys] assms(4-6) xs
    by (simp add: switch_next_def act_bind_def)
  show "runtime_inv (dispatched (hd xs) (tl xs) r)"
    using dispatched_inv [OF assms(1-3), of y ys] assms(5,6) xs by simp
  show "valid_task (hd xs)" using y xs by simp
  show "task_state (dispatched (hd xs) (tl xs) r) (hd xs) = TaskState_Running"
    using y xs by (simp add: dispatched_def task_slot_upd)
  show "exited_same r (dispatched (hd xs) (tl xs) r)"
    using y xs by (auto simp: exited_same_def dispatched_def valid_task_def)
qed


section \<open>Yield and exit\<close>

lemma exited_same_trans: "exited_same r r' \<Longrightarrow> exited_same r' r'' \<Longrightarrow> exited_same r r''"
  by (simp add: exited_same_def)

lemma yield_post:
  assumes pre: "trap_pre t r"
  shows "trap_post t r (runtime_yield t rdi rsi rdx r)"
proof (cases "rdi \<noteq> 0 \<or> rsi \<noteq> 0 \<or> rdx \<noteq> 0")
  case True
  then show ?thesis using resume_post [OF pre] by (simp add: runtime_yield_def)
next
  case False
  note p = trap_preD [OF pre]
  let ?q = "if task_state r (other t) = TaskState_Ready then [other t] else []"
  define r1 where "r1 = upd t (\<lambda>s. s\<lparr>ts_context := context_set_result Status_Ok 0 (ts_context s),
    ts_state := TaskState_Ready\<rparr>) r"
  define r2 where "r2 = r1\<lparr>rt_queue := queue_of (?q @ [t])\<rparr>"
  have ne: "other t \<noteq> t" using p(1) by (auto simp: valid_task_def)
  have "core r2"
    using p(1,3,5) by (simp add: r2_def r1_def core_similar similar_def)
  moreover have st: "task_state r2 t = TaskState_Ready" "task_state r2 (other t) = task_state r (other t)"
    using p(1) ne by (simp_all add: r2_def r1_def task_slot_upd)
  then have nr: "task_state r2 1 \<noteq> TaskState_Running" "task_state r2 2 \<noteq> TaskState_Running"
    using p(1,6) by (auto simp: valid_task_def)
  moreover have "set (?q @ [t]) = ready_set r2"
    using st p(1) ne by (auto simp: ready_member valid_task_def)
  moreover have "distinct (?q @ [t])" using ne by simp
  moreover have "rt_queue r2 = queue_of (?q @ [t])" by (simp add: r2_def)
  ultimately have sw: "switch_next r2 = (Inr (hd (?q @ [t])), dispatched (hd (?q @ [t])) (tl (?q @ [t])) r2)"
    and post: "runtime_inv (dispatched (hd (?q @ [t])) (tl (?q @ [t])) r2)" "valid_task (hd (?q @ [t]))"
      "task_state (dispatched (hd (?q @ [t])) (tl (?q @ [t])) r2) (hd (?q @ [t])) = TaskState_Running"
      "exited_same r2 (dispatched (hd (?q @ [t])) (tl (?q @ [t])) r2)"
    using switch_next_eq [of r2 "?q @ [t]"] by blast+
  have "exited_same r r2" using st p(1,5) by (auto simp: exited_same_def valid_task_def)
  with post(4) have "exited_same r (dispatched (hd (?q @ [t])) (tl (?q @ [t])) r2)"
    by (rule exited_same_trans [rotated])
  moreover have "queue_push_action t r1 = (Inr (), r2)"
    unfolding r2_def by (rule queue_push_action_eq) (use p(7) ne in \<open>auto simp: r1_def\<close>)
  then have "runtime_yield t rdi rsi rdx r =
      (Inr (Outcome_Switch (hd (?q @ [t]))), dispatched (hd (?q @ [t])) (tl (?q @ [t])) r2)"
    using False sw p(1)
    by (simp add: runtime_yield_def act_then_def act_bind_def set_result_eq upd_upd flip: r1_def)
  ultimately show ?thesis using post by (simp add: trap_post_def)
qed

end
