(* ===== verification/Runtime_Traps.thy ===== *)
theory Runtime_Traps
  imports Runtime_Inv
begin

text \<open>
  Every operation of the trap handler keeps the runtime invariant: one lemma per operation, of the
  form \<open>trap_pre t r \<Longrightarrow> trap_post t r (operation r)\<close>, collected in \<open>handle_trap_inner_post\<close>.
\<close>


lemma slot_inv_state:
  assumes "slot_inv i s" "ct_state (ts_capabilities s) = Cap_Live"
    and "st \<noteq> TaskState_Dead" "st \<noteq> TaskState_Staged"
  shows "slot_inv i (s\<lparr>ts_state := st\<rparr>)"
proof -
  have "ts_state s \<noteq> TaskState_Dead"
    using slot_inv_table_state(2) [OF assms(1)] assms(2) by auto
  then show ?thesis using assms by (simp add: slot_inv_def)
qed

lemma slot_inv_context:
  "same_identity c (ts_context s) \<Longrightarrow> slot_inv i (s\<lparr>ts_context := c\<rparr>) = slot_inv i s"
  by (rule similar_slot_inv) (simp add: similar_def)

lemma live_state:
  assumes "slot_inv i s" "ct_state (ts_capabilities s) = Cap_Live"
  shows "ts_state s \<noteq> TaskState_Dead" "ts_state s \<noteq> TaskState_Staged"
  using slot_inv_table_state(2,3) [OF assms(1)] assms(2) by auto

text \<open>Replacing the state of a task whose table is live, in each profile.\<close>

lemma coop_core_state0:
  assumes "coop_core r" "ct_state (ts_capabilities (rt_task0 r)) = Cap_Live"
    and "st \<in> {TaskState_Ready, TaskState_Running, TaskState_Exited}"
  shows "coop_core (r\<lparr>rt_task0 := (rt_task0 r)\<lparr>ts_state := st\<rparr>\<rparr>)"
proof -
  have s: "slot_inv 1 (rt_task0 r)" "slot_inv 2 (rt_task1 r)" and ep: "endpoint_inv r"
    using assms(1) by (simp_all add: coop_core_def slots_inv_def)
  have st: "st \<noteq> TaskState_Dead" "st \<noteq> TaskState_Staged" using assms(3) by auto
  note live = live_state [OF s(1) assms(2)] and s1 = slot_inv_state [OF s(1) assms(2) st]
  have "endpoint_inv (r\<lparr>rt_task0 := (rt_task0 r)\<lparr>ts_state := st\<rparr>\<rparr>)"
    using ep live(1) st(1) by (simp add: endpoint_inv_def Let_def)
  moreover have "st \<in> {TaskState_Ready, TaskState_Running, TaskState_Exited, TaskState_Dead}"
    using assms(3) by auto
  ultimately show ?thesis
    using assms(1) s s1 unfolding coop_core_def slots_inv_def by simp
qed

lemma coop_core_state1:
  assumes "coop_core r" "ct_state (ts_capabilities (rt_task1 r)) = Cap_Live"
    and "st \<in> {TaskState_Ready, TaskState_Running, TaskState_BlockedReceive, TaskState_Exited}"
    and "st = TaskState_BlockedReceive \<longrightarrow>
         \<not> ep_occupied (rt_endpoint r) \<and> ct_state (ts_capabilities (rt_task0 r)) = Cap_Live"
  shows "coop_core (r\<lparr>rt_task1 := (rt_task1 r)\<lparr>ts_state := st\<rparr>\<rparr>)"
proof -
  have s: "slot_inv 1 (rt_task0 r)" "slot_inv 2 (rt_task1 r)" and ep: "endpoint_inv r"
    using assms(1) by (simp_all add: coop_core_def slots_inv_def)
  have st: "st \<noteq> TaskState_Dead" "st \<noteq> TaskState_Staged" using assms(3) by auto
  note live = live_state [OF s(2) assms(2)] and s1 = slot_inv_state [OF s(2) assms(2) st]
  have "endpoint_inv (r\<lparr>rt_task1 := (rt_task1 r)\<lparr>ts_state := st\<rparr>\<rparr>)"
    using ep live(1) st(1) assms(4) by (simp add: endpoint_inv_def Let_def)
  moreover have "st \<in> {TaskState_Ready, TaskState_Running, TaskState_BlockedReceive, TaskState_Exited,
      TaskState_Dead}"
    using assms(3) by auto
  ultimately show ?thesis
    using assms(1) s s1 unfolding coop_core_def slots_inv_def by simp
qed

lemma sup_core_state0:
  assumes "sup_core r" "ct_state (ts_capabilities (rt_task0 r)) = Cap_Live"
    and "st \<in> {TaskState_Ready, TaskState_Running, TaskState_Exited}"
  shows "sup_core (r\<lparr>rt_task0 := (rt_task0 r)\<lparr>ts_state := st\<rparr>\<rparr>)"
proof -
  have s: "slot_inv 1 (rt_task0 r)" "slot_inv 2 (rt_task1 r)"
    using assms(1) by (simp_all add: sup_core_def slots_inv_def)
  have st: "st \<noteq> TaskState_Dead" "st \<noteq> TaskState_Staged" using assms(3) by auto
  note live = live_state [OF s(1) assms(2)] and s1 = slot_inv_state [OF s(1) assms(2) st]
  have "st \<in> {TaskState_Ready, TaskState_Running, TaskState_Exited, TaskState_Dead}"
    using assms(3) by auto
  then show ?thesis
    using assms(1) s s1 live st unfolding sup_core_def slots_inv_def by simp
qed

lemma sup_core_state1:
  assumes "sup_core r" "ct_state (ts_capabilities (rt_task1 r)) = Cap_Live"
    and "st \<in> {TaskState_Ready, TaskState_Running, TaskState_Exited}"
    and "ts_state (rt_task1 r) \<noteq> TaskState_BlockedApproval"
  shows "sup_core (r\<lparr>rt_task1 := (rt_task1 r)\<lparr>ts_state := st\<rparr>\<rparr>)"
proof -
  have s: "slot_inv 1 (rt_task0 r)" "slot_inv 2 (rt_task1 r)"
    using assms(1) by (simp_all add: sup_core_def slots_inv_def)
  have st: "st \<noteq> TaskState_Dead" "st \<noteq> TaskState_Staged" "st \<noteq> TaskState_BlockedReceive"
    "st \<noteq> TaskState_BlockedApproval"
    using assms(3) by auto
  note live = live_state [OF s(2) assms(2)] and s1 = slot_inv_state [OF s(2) assms(2) st(1,2)]
  show ?thesis
    using assms(1,4) s s1 live st unfolding sup_core_def slots_inv_def by simp
qed

lemma core_exit:
  assumes "core r" "valid_task t" "task_state r t = TaskState_Running"
  shows "core (upd t (\<lambda>s. s\<lparr>ts_state := TaskState_Exited\<rparr>) r)"
proof -
  have live: "ct_state (ts_capabilities (task_slot r t)) = Cap_Live"
    using slot_inv_table_state(1) [OF core_slot_inv [OF assms(1,2)]] assms(3) by simp
  show ?thesis
    using assms live
    by (auto simp: core_def valid_task_def coop_core_state0 coop_core_state1 sup_core_state0 sup_core_state1)
qed

lemma sched_leave:
  assumes "sched_inv r" "valid_task t" "task_state r t = TaskState_Running"
    and "st \<noteq> TaskState_Running" "st \<noteq> TaskState_Ready"
  shows "sched_inv (upd t (\<lambda>s. s\<lparr>ts_state := st\<rparr>) r)"
  using assms by (auto simp: sched_inv_def valid_task_def queue_inv_def ready_set_def)

lemma trap_table_live:
  assumes "trap_pre t r"
  shows "table_ok (ts_capabilities (task_slot r t))" "ct_state (ts_capabilities (task_slot r t)) = Cap_Live"
proof -
  note p = trap_preD [OF assms]
  have s: "slot_inv t (task_slot r t)" using p(3,1) by (rule core_slot_inv)
  then show "table_ok (ts_capabilities (task_slot r t))" by (simp add: slot_inv_def)
  show "ct_state (ts_capabilities (task_slot r t)) = Cap_Live"
    using slot_inv_table_state(1) [OF s] p(5) by simp
qed


lemma exit_post:
  assumes pre: "trap_pre t r"
  shows "trap_post t r (runtime_exit t a b c r)"
proof (cases "a \<noteq> 0 \<or> b \<noteq> 0 \<or> c \<noteq> 0")
  case True
  then show ?thesis using resume_post [OF pre] by (simp add: runtime_exit_def)
next
  case False
  note p = trap_preD [OF pre]
  let ?r = "upd t (\<lambda>s. s\<lparr>ts_state := TaskState_Exited\<rparr>) r"
  have inv: "runtime_inv ?r"
    using core_exit [OF p(3,1,5)] sched_leave [OF p(4,1,5)] by (simp add: runtime_inv_core)
  have ne: "other t \<noteq> t" using p(1) by (auto simp: valid_task_def)
  have "runtime_exit t a b c r = (Inr (Outcome_Exit t), ?r)"
    using False p(1) runtime_inv_validate [OF inv] by (simp add: runtime_exit_def act_then_def act_bind_def)
  then show ?thesis using inv p(1) ne trap_table_live(2) [OF pre] by (simp add: trap_post_def task_slot_upd)
qed


section \<open>Duplicate and close\<close>

text \<open>A table operation that keeps the table live, keeps its identity and only attenuates.\<close>

definition table_refines :: "CapabilityTable \<Rightarrow> CapabilityTable \<Rightarrow> bool" where
  "table_refines t t' \<longleftrightarrow> table_ok t' \<and> ct_state t' = ct_state t \<and> ct_task_id t' = ct_task_id t
     \<and> ct_task_generation t' = ct_task_generation t
     \<and> (\<forall>limit. rights_within limit t \<longrightarrow> rights_within limit t')"

lemma attenuates_rights_within:
  "cap.attenuates t t' \<Longrightarrow> rights_within limit t \<Longrightarrow> rights_within limit t'"
  unfolding cap.attenuates_def rights_within_def derived_entry_def
  by (metis rights_subset_trans)

lemma duplicate_refines:
  assumes "table_ok t" "ct_state t = Cap_Live"
  shows "table_refines t (snd (table_duplicate task gen src rights t))"
proof -
  obtain x t' where eq: "table_duplicate task gen src rights t = (x, t')" by fastforce
  have inv: "table_live_ok t" using assms by (simp add: table_live_ok_def)
  have "ct_task_id t' = ct_task_id t \<and> ct_task_generation t' = ct_task_generation t"
    using eq allocate_frame by (auto simp: table_duplicate_def split: sum.splits if_splits)
  with cap.dup_preserves [OF inv eq] eq assms(2) show ?thesis
    by (auto simp: table_refines_def table_live_ok_def attenuates_rights_within)
qed

lemma close_refines:
  assumes "table_ok t" "ct_state t = Cap_Live"
  shows "table_refines t (snd (table_close task gen raw t))"
proof -
  obtain x t' where eq: "table_close task gen raw t = (x, t')" by fastforce
  have inv: "table_live_ok t" using assms by (simp add: table_live_ok_def)
  have "ct_task_id t' = ct_task_id t \<and> ct_task_generation t' = ct_task_generation t"
    using eq by (auto simp: table_close_def Let_def split: option.splits if_splits)
  with cap.cls_preserves [OF inv eq] eq assms(2) show ?thesis
    by (auto simp: table_refines_def table_live_ok_def attenuates_rights_within)
qed

lemma core_table:
  assumes "core r" "valid_task t" "ct_state (ts_capabilities (task_slot r t)) = Cap_Live"
    and "table_refines (ts_capabilities (task_slot r t)) tab"
  shows "core (upd t (\<lambda>s. s\<lparr>ts_capabilities := tab\<rparr>) r)"
proof -
  have tab: "table_ok tab" "ct_state tab = Cap_Live" "ct_task_id tab = ct_task_id (ts_capabilities (task_slot r t))"
    "ct_task_generation tab = ct_task_generation (ts_capabilities (task_slot r t))"
    "rights_within l (ts_capabilities (task_slot r t)) \<Longrightarrow> rights_within l tab" for l
    using assms(3,4) by (simp_all add: table_refines_def)
  have s: "slot_inv t (task_slot r t)" using assms(1,2) by (rule core_slot_inv)
  note live = live_state [OF s assms(3)]
  have s': "slot_inv t ((task_slot r t)\<lparr>ts_capabilities := tab\<rparr>)"
    using s tab live by (simp add: slot_inv_def assms(3))
  show ?thesis
  proof (cases "t = SENDER_TASK_ID")
    case True
    then have "coop_core r \<Longrightarrow> coop_core (upd t (\<lambda>s. s\<lparr>ts_capabilities := tab\<rparr>) r)"
      and "sup_core r \<Longrightarrow> sup_core (upd t (\<lambda>s. s\<lparr>ts_capabilities := tab\<rparr>) r)"
      using assms(3) s' tab live
      by (simp_all add: coop_core_def sup_core_def slots_inv_def endpoint_inv_def Let_def)
    with assms(1) show ?thesis by (auto simp: core_def)
  next
    case False
    then have "t = RECEIVER_TASK_ID" using assms(2) by (simp add: valid_task_def)
    then have "coop_core r \<Longrightarrow> coop_core (upd t (\<lambda>s. s\<lparr>ts_capabilities := tab\<rparr>) r)"
      and "sup_core r \<Longrightarrow> sup_core (upd t (\<lambda>s. s\<lparr>ts_capabilities := tab\<rparr>) r)"
      using assms(3) s' tab live
      by (simp_all add: coop_core_def sup_core_def slots_inv_def endpoint_inv_def Let_def)
    with assms(1) show ?thesis by (auto simp: core_def)
  qed
qed

lemma table_call_inv:
  assumes "trap_pre t r" "table_refines (ts_capabilities (task_slot r t)) tab"
  shows "trap_pre t (upd t (\<lambda>s. s\<lparr>ts_capabilities := tab\<rparr>) r)"
proof -
  note p = trap_preD [OF assms(1)]
  have live: "ct_state (ts_capabilities (task_slot r t)) = Cap_Live"
    using slot_inv_table_state(1) [OF core_slot_inv [OF p(3,1)]] p(5) by simp
  show ?thesis
    using core_table [OF p(3,1) live assms(2)] p(1,4,5)
    by (simp add: trap_pre_def runtime_inv_core sched_upd_same task_slot_upd)
qed

lemma trap_post_mono:
  assumes "trap_post t r' res" "exited_same r r'" "task_state r' (other t) = task_state r (other t)"
  shows "trap_post t r res"
  using assms exited_same_trans
  by (auto simp: trap_post_def split: prod.splits sum.splits TrapOutcome.splits)

lemma table_call_post:
  assumes "trap_pre t r" "table_refines (ts_capabilities (task_slot r t)) tab"
  shows "trap_post t r (resume_validated t st v (upd t (\<lambda>s. s\<lparr>ts_capabilities := tab\<rparr>) r))"
proof -
  let ?r = "upd t (\<lambda>s. s\<lparr>ts_capabilities := tab\<rparr>) r"
  note p = trap_preD [OF assms(1)]
  have "trap_post t ?r (resume_validated t st v ?r)"
    by (rule resume_validated_post [OF table_call_inv [OF assms]])
  moreover have "exited_same r ?r" "task_state ?r (other t) = task_state r (other t)"
    using p(1) by (auto simp: exited_same_def valid_task_def)
  ultimately show ?thesis by (rule trap_post_mono)
qed

lemma duplicate_post:
  assumes pre: "trap_pre t r"
  shows "trap_post t r (runtime_duplicate t src rights res r)"
proof (cases "res \<noteq> 0")
  case True
  then show ?thesis using resume_post [OF pre] by (simp add: runtime_duplicate_def)
next
  case False
  note p = trap_preD [OF pre]
  let ?call = "table_duplicate t (ts_generation (task_slot r t)) src rights (ts_capabilities (task_slot r t))"
  note post = table_call_post [OF pre duplicate_refines [OF trap_table_live [OF pre],
        of t "ts_generation (task_slot r t)" src rights]]
  show ?thesis
    using False p(1) post
    by (cases "fst ?call") (simp_all add: runtime_duplicate_def act_bind_def slot_capabilities_eq)
qed

lemma close_post:
  assumes pre: "trap_pre t r"
  shows "trap_post t r (runtime_close t raw res1 res2 r)"
proof (cases "res1 \<noteq> 0 \<or> res2 \<noteq> 0")
  case True
  then show ?thesis using resume_post [OF pre] by (simp add: runtime_close_def)
next
  case False
  note p = trap_preD [OF pre]
  note post = table_call_post [OF pre close_refines [OF trap_table_live [OF pre],
        of t "ts_generation (task_slot r t)" raw]]
  show ?thesis
    using False p(1) post by (simp add: runtime_close_def act_bind_def slot_capabilities_eq)
qed


section \<open>Send and receive\<close>

lemma coop_endpoint:
  assumes "coop_core r" "endpoint_inv (r\<lparr>rt_endpoint := e\<rparr>)"
  shows "coop_core (r\<lparr>rt_endpoint := e\<rparr>)"
  using assms by (simp add: coop_core_def slots_inv_def)

lemma coop_core_queue [simp]: "coop_core (r\<lparr>rt_queue := q\<rparr>) = coop_core r"
  by (simp add: coop_core_def slots_inv_def endpoint_inv_def Let_def)

lemma sup_core_queue [simp]: "sup_core (r\<lparr>rt_queue := q\<rparr>) = sup_core r"
  by (simp add: sup_core_def slots_inv_def)

lemma task_slot_other_fields [simp]:
  "task_slot (r\<lparr>rt_endpoint := e\<rparr>) t = task_slot r t"
  "task_slot (r\<lparr>rt_broker := b\<rparr>) t = task_slot r t"
  "task_slot (r\<lparr>rt_manifest := m\<rparr>) t = task_slot r t"
  "task_slot (r\<lparr>rt_effect := f\<rparr>) t = task_slot r t"
  by (simp_all add: task_slot_def)

lemma sched_other_fields [simp]:
  "sched_inv (r\<lparr>rt_endpoint := e\<rparr>) = sched_inv r"
  "sched_inv (r\<lparr>rt_broker := b\<rparr>) = sched_inv r"
  "sched_inv (r\<lparr>rt_manifest := m\<rparr>) = sched_inv r"
  "sched_inv (r\<lparr>rt_effect := f\<rparr>) = sched_inv r"
  by (simp_all add: sched_inv_def queue_inv_def ready_set_def)

lemma resolve_endpoint_coop:
  assumes "core r" "resolve_endpoint r t h right = Inr ()"
  shows "coop_core r"
proof -
  have "ep_object_generation (rt_endpoint r) = 1"
    using assms(2) by (auto simp: resolve_endpoint_def and_then_eq_Inr split: if_splits)
  moreover have "sup_core r \<Longrightarrow> rt_endpoint r = EMPTY_ENDPOINT" by (simp add: sup_core_def)
  ultimately have "\<not> sup_core r" by (auto simp: EMPTY_ENDPOINT_def)
  with assms(1) show ?thesis by (simp add: core_def)
qed

lemma resolve_endpoint_right:
  assumes "valid_task t" "resolve_endpoint r t h right = Inr ()"
  obtains e where "live_entry (ts_capabilities (task_slot r t)) h = Some e" "ce_rights e AND right \<noteq> 0"
  using assms by (auto simp: resolve_endpoint_def and_then_eq_Inr resolve_def resolve_typed_eq_Inr split: if_splits)

text \<open>Waking the receiver: from blocked to the end of an empty queue while the sender runs.\<close>

definition woken :: "TrapStatus \<Rightarrow> u64 \<Rightarrow> Runtime \<Rightarrow> Runtime" where
  "woken st v r =
     r\<lparr>rt_task1 := (rt_task1 r)\<lparr>ts_context := context_set_result st v (ts_context (rt_task1 r)),
         ts_state := TaskState_Ready\<rparr>,
       rt_queue := queue_of [RECEIVER_TASK_ID]\<rparr>"

lemma woken_sched:
  assumes "task_state r 1 = TaskState_Running"
  shows "sched_inv (woken st v r)"
  using assms sched_running_iff [of 1 "woken st v r"] by (simp add: woken_def)

lemma woken_sched_idle:
  assumes "task_state r 1 \<noteq> TaskState_Ready"
  shows "sched_inv (woken st v r)"
  using assms by (simp add: woken_def sched_inv_def queue_inv_def ready_set_def exI [of _ "[2 :: u64]"])

lemma coop_core_woken:
  assumes "coop_core r" "ts_state (rt_task1 r) = TaskState_BlockedReceive"
  shows "coop_core (woken st v r)"
proof -
  have s1: "slot_inv 2 (rt_task1 r)" using assms(1) by (simp add: coop_core_def slots_inv_def)
  have live: "ct_state (ts_capabilities (rt_task1 r)) = Cap_Live"
    using slot_inv_table_state(1) [OF s1] assms(2) by simp
  let ?r1 = "r\<lparr>rt_task1 := (rt_task1 r)\<lparr>ts_state := TaskState_Ready\<rparr>\<rparr>"
  have "coop_core ?r1" by (rule coop_core_state1 [OF assms(1) live]) simp_all
  then have "coop_core (?r1\<lparr>rt_task1 := (rt_task1 ?r1)\<lparr>ts_context := context_set_result st v (ts_context (rt_task1 r))\<rparr>\<rparr>)"
    by (subst coop_core_similar1) (simp_all add: similar_def)
  moreover have "woken st v r = (?r1\<lparr>rt_task1 := (rt_task1 ?r1)\<lparr>ts_context :=
      context_set_result st v (ts_context (rt_task1 r))\<rparr>\<rparr>)\<lparr>rt_queue := queue_of [2]\<rparr>"
    by (simp add: woken_def)
  ultimately show ?thesis by (simp only: coop_core_queue)
qed

lemma coop_trap_pre:
  "coop_core r \<Longrightarrow> sched_inv r \<Longrightarrow> valid_task t \<Longrightarrow> task_state r t = TaskState_Running \<Longrightarrow> trap_pre t r"
  by (simp add: trap_pre_def runtime_inv_def)

lemma endpoint_invD:
  assumes "endpoint_inv r"
  shows "ep_receiver_generation (rt_endpoint r) \<noteq> 0 \<Longrightarrow> ct_state (ts_capabilities (rt_task1 r)) = Cap_Live"
    and "ep_sender_generation (rt_endpoint r) \<noteq> 0 \<Longrightarrow> ct_state (ts_capabilities (rt_task0 r)) = Cap_Live"
    and "\<not> ep_occupied (rt_endpoint r) \<Longrightarrow> ep_payload (rt_endpoint r) = 0"
  using assms by (auto simp: endpoint_inv_def Let_def split: if_splits)

lemma endpoint_store:
  assumes "endpoint_inv r" "ct_state (ts_capabilities (rt_task1 r)) = Cap_Live"
    and "ts_state (rt_task1 r) \<noteq> TaskState_BlockedReceive"
  shows "endpoint_inv (r\<lparr>rt_endpoint := (rt_endpoint r)\<lparr>ep_occupied := True, ep_payload := v\<rparr>\<rparr>)"
  using assms by (simp add: endpoint_inv_def Let_def)

lemma endpoint_take:
  assumes "endpoint_inv r"
  shows "endpoint_inv (r\<lparr>rt_endpoint := (rt_endpoint r)\<lparr>ep_occupied := False, ep_payload := 0\<rparr>\<rparr>)"
  using assms by (simp add: endpoint_inv_def Let_def)

text \<open>The state after a delivered message, without the answer to the sender.\<close>

definition delivered :: "u64 \<Rightarrow> Runtime \<Rightarrow> Runtime" where
  "delivered message r =
     (if ts_state (rt_task1 r) = TaskState_BlockedReceive then woken Status_Ok message r
      else r\<lparr>rt_endpoint := (rt_endpoint r)\<lparr>ep_occupied := True, ep_payload := message\<rparr>\<rparr>)"

lemma delivered_pre:
  assumes pre: "trap_pre t r" and coop: "coop_core r"
    and "ep_receiver_generation (rt_endpoint r) \<noteq> 0"
  shows "trap_pre t (delivered message r)" "exited_same r (delivered message r)"
    "task_state r (other t) = TaskState_Exited \<longleftrightarrow> task_state (delivered message r) (other t) = TaskState_Exited"
proof -
  note p = trap_preD [OF pre]
  have ep: "endpoint_inv r" using coop by (simp add: coop_core_def)
  have live: "ct_state (ts_capabilities (rt_task1 r)) = Cap_Live" using endpoint_invD(1) [OF ep] assms(3) .
  have "trap_pre t (delivered message r) \<and> exited_same r (delivered message r)
    \<and> (task_state r (other t) = TaskState_Exited \<longleftrightarrow> task_state (delivered message r) (other t) = TaskState_Exited)"
  proof (cases "ts_state (rt_task1 r) = TaskState_BlockedReceive")
    case True
    then have t: "t = 1" using p(1,5) by (auto simp: valid_task_def)
    have "coop_core (woken Status_Ok message r)" by (rule coop_core_woken [OF coop True])
    moreover have "sched_inv (woken Status_Ok message r)" using p(5) t by (intro woken_sched) simp
    moreover have "task_state (woken Status_Ok message r) 1 = TaskState_Running" using p(5) t by (simp add: woken_def)
    ultimately have "trap_pre t (delivered message r)"
      using True t by (simp add: delivered_def coop_trap_pre)
    then show ?thesis using True t by (simp add: delivered_def woken_def exited_same_def)
  next
    case False
    have "coop_core (delivered message r)"
      using False endpoint_store [OF ep live False] by (simp add: delivered_def coop_endpoint [OF coop])
    then show ?thesis
      using False p(1,4,5) by (simp add: delivered_def coop_trap_pre exited_same_def)
  qed
  then show "trap_pre t (delivered message r)" "exited_same r (delivered message r)"
    "task_state r (other t) = TaskState_Exited \<longleftrightarrow> task_state (delivered message r) (other t) = TaskState_Exited"
    by blast+
qed

lemma trap_post_resume:
  assumes "trap_pre t r'" "exited_same r r'"
  shows "trap_post t r (resume_validated t st v r')"
proof -
  note p = trap_preD [OF assms(1)]
  have "exited_same r' (answered t st v r')" by (simp add: exited_same_def)
  with assms p show ?thesis
    by (simp add: resume_validated_eq trap_post_def answered_inv exited_same_def)
qed

lemma send_delivers:
  assumes pre: "trap_pre t r" and res: "resolve_endpoint r t handle CAPABILITY_RIGHT_SEND = Inr ()"
    and "ep_receiver_generation (rt_endpoint r) \<noteq> 0" "\<not> ep_occupied (rt_endpoint r)"
  shows "runtime_send t handle message 0 r = resume_validated t Status_Ok 0 (delivered message r)"
proof -
  note p = trap_preD [OF pre]
  have coop: "coop_core r" using resolve_endpoint_coop [OF p(3) res] .
  then have payload: "ep_payload (rt_endpoint r) = 0"
    using endpoint_invD(3) [of r] assms(4) by (simp add: coop_core_def)
  have unchanged: "(rt_endpoint r)\<lparr>ep_occupied := False, ep_payload := 0\<rparr> = rt_endpoint r"
    using payload assms(4) by simp
  show ?thesis
  proof (cases "ts_state (rt_task1 r) = TaskState_BlockedReceive")
    case True
    then have t: "t = 1" using p(1,5) by (auto simp: valid_task_def)
    have q: "rt_queue r = queue_of []" using p(7) t True by simp
    let ?e = "(rt_endpoint r)\<lparr>ep_occupied := False, ep_payload := 0\<rparr>"
    let ?r = "upd 2 (\<lambda>s. s\<lparr>ts_context := context_set_result Status_Ok message (ts_context s),
        ts_state := TaskState_Ready\<rparr>) (r\<lparr>rt_endpoint := ?e\<rparr>)"
    have "queue_push_action 2 ?r = (Inr (), ?r\<lparr>rt_queue := queue_of ([] @ [2])\<rparr>)"
      by (rule queue_push_action_eq) (use q in simp_all)
    moreover have "?r\<lparr>rt_queue := queue_of ([] @ [2])\<rparr> = woken Status_Ok message r"
      using unchanged by (simp add: woken_def)
    ultimately show ?thesis
      using True res assms(3,4)
      by (simp add: runtime_send_def act_then_def act_bind_def set_result_eq delivered_def Let_def)
  next
    case False
    then show ?thesis
      using res assms(3,4) by (simp add: runtime_send_def act_then_def act_bind_def delivered_def)
  qed
qed

lemma send_post:
  assumes pre: "trap_pre t r"
  shows "trap_post t r (runtime_send t handle message reserved r)"
proof (cases "reserved = 0 \<and> resolve_endpoint r t handle CAPABILITY_RIGHT_SEND = Inr ()
    \<and> ep_receiver_generation (rt_endpoint r) \<noteq> 0 \<and> \<not> ep_occupied (rt_endpoint r)")
  case True
  then have coop: "coop_core r" using resolve_endpoint_coop trap_preD(3) [OF pre] by blast
  have "runtime_send t handle message reserved r = resume_validated t Status_Ok 0 (delivered message r)"
    using send_delivers [OF pre] True by simp
  with True show ?thesis
    using trap_post_resume delivered_pre [OF pre coop] by simp
next
  case False
  show ?thesis
  proof (cases "resolve_endpoint r t handle CAPABILITY_RIGHT_SEND")
    case (Inl st)
    then show ?thesis
      using resume_validated_post [OF pre] by (cases "reserved = 0") (simp_all add: runtime_send_def)
  next
    case (Inr u)
    with False show ?thesis
      using resume_validated_post [OF pre]
      by (cases "reserved = 0"; cases "ep_receiver_generation (rt_endpoint r) = 0") (simp_all add: runtime_send_def)
  qed
qed


lemma rights_within_and:
  assumes "rights_within limit t" "live_entry t raw = Some e" "limit AND right = 0"
  shows "ce_rights e AND right = 0"
  using assms rights_subset_and unfolding rights_within_def by blast

lemma receive_only_receiver:
  assumes "trap_pre t r" "resolve_endpoint r t h CAPABILITY_RIGHT_RECEIVE = Inr ()"
  shows "t = RECEIVER_TASK_ID" "coop_core r"
proof -
  note p = trap_preD [OF assms(1)]
  show coop: "coop_core r" using p(3) assms(2) by (rule resolve_endpoint_coop)
  obtain e where e: "live_entry (ts_capabilities (task_slot r t)) h = Some e" "ce_rights e AND 2 \<noteq> 0"
    using resolve_endpoint_right [OF p(1) assms(2)] by auto
  show "t = RECEIVER_TASK_ID"
  proof (rule ccontr)
    assume "t \<noteq> RECEIVER_TASK_ID"
    then have "t = 1" using p(1) by (simp add: valid_task_def)
    moreover have "rights_within 5 (ts_capabilities (rt_task0 r))" using coop by (simp add: coop_core_def)
    ultimately show False using rights_within_and [of 5 _ h e 2] e by simp
  qed
qed

text \<open>Blocking the running task and switching to the other one, if that one is ready.\<close>

lemma block_switch:
  assumes "valid_task t" "core r1" "task_state r1 t \<noteq> TaskState_Running" "task_state r1 t \<noteq> TaskState_Ready"
    and "task_state r1 (other t) = TaskState_Ready" "rt_queue r1 = queue_of [other t]"
  shows "switch_next r1 = (Inr (other t), dispatched (other t) [] r1)"
    and "runtime_inv (dispatched (other t) [] r1)"
    and "task_state (dispatched (other t) [] r1) (other t) = TaskState_Running"
    and "exited_same r1 (dispatched (other t) [] r1)"
proof -
  have "set [other t] = ready_set r1" using assms(1,4,5) by (auto simp: ready_member valid_task_def)
  moreover have "task_state r1 1 \<noteq> TaskState_Running" "task_state r1 2 \<noteq> TaskState_Running"
    using assms(1,3,5) by (auto simp: valid_task_def)
  ultimately show "switch_next r1 = (Inr (other t), dispatched (other t) [] r1)"
    and "runtime_inv (dispatched (other t) [] r1)"
    and "task_state (dispatched (other t) [] r1) (other t) = TaskState_Running"
    and "exited_same r1 (dispatched (other t) [] r1)"
    using switch_next_eq [of r1 "[other t]"] assms(2,6) by simp_all
qed

lemma receive_blocks:
  assumes pre: "trap_pre 2 r" and coop: "coop_core r"
    and "\<not> ep_occupied (rt_endpoint r)" "ep_sender_generation (rt_endpoint r) \<noteq> 0"
    and rdy: "task_state r 1 = TaskState_Ready"
  defines "r1 \<equiv> upd 2 (\<lambda>s. s\<lparr>ts_state := TaskState_BlockedReceive\<rparr>) r"
  shows "switch_next r1 = (Inr 1, dispatched 1 [] r1)" "runtime_inv (dispatched 1 [] r1)"
    "task_state (dispatched 1 [] r1) 1 = TaskState_Running" "exited_same r (dispatched 1 [] r1)"
proof -
  note p = trap_preD [OF pre]
  have ep: "endpoint_inv r" using coop by (simp add: coop_core_def)
  have live: "ct_state (ts_capabilities (rt_task0 r)) = Cap_Live" using endpoint_invD(2) [OF ep] assms(4) .
  have live1: "ct_state (ts_capabilities (rt_task1 r)) = Cap_Live" using trap_table_live(2) [OF pre] by simp
  have "coop_core r1"
    unfolding r1_def upd_2 by (rule coop_core_state1 [OF coop live1]) (use assms(3) live in simp_all)
  then have core: "core r1" by (simp add: core_def)
  have st: "task_state r1 2 = TaskState_BlockedReceive" "task_state r1 1 = TaskState_Ready"
    using rdy by (simp_all add: r1_def)
  have q: "rt_queue r1 = queue_of [1]" using p(7) rdy by (simp add: r1_def)
  note b = block_switch [of 2 r1]
  show "switch_next r1 = (Inr 1, dispatched 1 [] r1)" "runtime_inv (dispatched 1 [] r1)"
    "task_state (dispatched 1 [] r1) 1 = TaskState_Running"
    using b(1-3) core st q by simp_all
  have "exited_same r1 (dispatched 1 [] r1)" using b(4) core st q by simp
  moreover have "exited_same r r1" using p(5) by (simp add: exited_same_def r1_def)
  ultimately show "exited_same r (dispatched 1 [] r1)" by (rule exited_same_trans [rotated])
qed

lemma receive_blocked_error:
  assumes "trap_pre 2 r" "task_state r 1 = TaskState_Exited"
  shows "fst (switch_next (upd 2 (\<lambda>s. s\<lparr>ts_state := TaskState_BlockedReceive\<rparr>) r)) = Inl Err_NoRunnableTask"
proof -
  note p = trap_preD [OF assms(1)]
  have "rt_queue r = queue_of []" using p(7) assms(2) by simp
  then have "dispatch_next (upd 2 (\<lambda>s. s\<lparr>ts_state := TaskState_BlockedReceive\<rparr>) r) =
      (Inl Err_NoRunnableTask, upd 2 (\<lambda>s. s\<lparr>ts_state := TaskState_BlockedReceive\<rparr>) r)"
    using assms(2) by (subst dispatch_empty) simp_all
  then show ?thesis by (simp add: switch_next_def act_bind_def)
qed

lemma receive_post:
  assumes pre: "trap_pre t r"
  shows "trap_post t r (runtime_receive t handle m1 m2 r)"
proof (cases "m1 = 0 \<and> m2 = 0 \<and> resolve_endpoint r t handle CAPABILITY_RIGHT_RECEIVE = Inr ()")
  case False
  then have "\<exists>st. runtime_receive t handle m1 m2 r = resume t st 0 r"
    by (cases "resolve_endpoint r t handle CAPABILITY_RIGHT_RECEIVE") (auto simp: runtime_receive_def)
  then show ?thesis using resume_post [OF pre] by auto
next
  case True
  then have m: "m1 = 0" "m2 = 0" and res: "resolve_endpoint r t handle CAPABILITY_RIGHT_RECEIVE = Inr ()" by auto
  note p = trap_preD [OF pre] and ro = receive_only_receiver [OF pre res]
  have t: "t = 2" using ro(1) by simp
  have ep: "endpoint_inv r" using ro(2) by (simp add: coop_core_def)
  consider "ep_occupied (rt_endpoint r)"
    | "\<not> ep_occupied (rt_endpoint r)" "ep_sender_generation (rt_endpoint r) = 0"
    | "\<not> ep_occupied (rt_endpoint r)" "ep_sender_generation (rt_endpoint r) \<noteq> 0" by blast
  then show ?thesis
  proof cases
    case 1
    let ?r = "r\<lparr>rt_endpoint := (rt_endpoint r)\<lparr>ep_occupied := False, ep_payload := 0\<rparr>\<rparr>"
    have "coop_core ?r" by (rule coop_endpoint [OF ro(2) endpoint_take [OF ep]])
    then have "trap_pre t ?r" using p(1,4,5) by (simp add: coop_trap_pre)
    moreover have "runtime_receive t handle m1 m2 r =
        resume_validated t Status_Ok (ep_payload (rt_endpoint r)) ?r"
      using 1 m res by (simp add: runtime_receive_def act_then_def act_bind_def)
    ultimately show ?thesis by (simp add: trap_post_resume exited_same_def)
  next
    case 2
    then have "runtime_receive t handle m1 m2 r = resume t Status_PeerExited 0 r"
      using m res by (simp add: runtime_receive_def)
    then show ?thesis using resume_post [OF pre] by simp
  next
    case 3
    have live: "ct_state (ts_capabilities (rt_task0 r)) = Cap_Live" using endpoint_invD(2) [OF ep 3(2)] .
    have s0: "slot_inv 1 (rt_task0 r)" using core_slot_inv [OF p(3), of 1] by simp
    have "ts_state (rt_task0 r) \<in> {TaskState_Ready, TaskState_Running, TaskState_Exited, TaskState_Dead}"
      using ro(2) by (simp add: coop_core_def)
    then have st0: "task_state r 1 = TaskState_Ready \<or> task_state r 1 = TaskState_Exited"
      using live_state(1) [OF s0 live] p(6) t by auto
    let ?r1 = "upd 2 (\<lambda>s. s\<lparr>ts_state := TaskState_BlockedReceive\<rparr>) r"
    have eq: "runtime_receive t handle m1 m2 r =
        act_bind switch_next (\<lambda>next. act_then (act_read runtime_validate) (act_return (Outcome_Switch next))) ?r1"
      using 3 m res t by (simp add: runtime_receive_def act_then_def act_bind_def)
    from st0 show ?thesis
    proof
      assume rdy: "task_state r 1 = TaskState_Ready"
      note b = receive_blocks [OF pre [unfolded t] ro(2) 3 rdy]
      have "runtime_receive t handle m1 m2 r = (Inr (Outcome_Switch 1), dispatched 1 [] ?r1)"
        unfolding eq using b(1) runtime_inv_validate [OF b(2)] by (simp add: act_bind_def act_then_def)
      then show ?thesis using b(2-4) by (simp add: trap_post_def)
    next
      assume ex: "task_state r 1 = TaskState_Exited"
      have "fst (switch_next ?r1) = Inl Err_NoRunnableTask"
        by (rule receive_blocked_error [OF pre [unfolded t] ex])
      then have "fst (runtime_receive t handle m1 m2 r) = Inl Err_NoRunnableTask"
        unfolding eq by (cases "switch_next ?r1") (simp add: act_bind_def)
      then show ?thesis using ex t by (cases "runtime_receive t handle m1 m2 r") (simp add: trap_post_def)
    qed
  qed
qed


section \<open>Launch\<close>

lemma building_install:
  "install_object_building OBJECT_TYPE_APPROVAL_BROKER \<lparr>or_id = 1, or_generation = 1\<rparr>
     CAPABILITY_RIGHT_SUBMIT_APPROVAL (table_building 2 5) =
   (Inr 16, (table_building 2 5)\<lparr>ct_slots := (ct_slots (table_building 2 5))
      [0 := CapabilitySlot_EMPTY\<lparr>cs_entry := Some
         \<lparr>ce_task_id = 2, ce_task_generation = 5, ce_object_type = 3, ce_rights = 16,
          ce_object = \<lparr>or_id = 1, or_generation = 1\<rparr>\<rparr>\<rparr>]\<rparr>)"
proof -
  have pos: "position slot_available (replicate 16 CapabilitySlot_EMPTY) = Some 0"
    by (simp add: numeral_eq_Suc slot_available_def CapabilitySlot_EMPTY_def)
  have parts: "from_parts 0 1 = Some 16"
    by (simp add: from_parts_def CAPABILITY_GENERATION_MAX_def push_bit_eq_mult)
  show ?thesis
    by (simp add: install_object_building_def table_building_def table_allocate_def valid_rights_def
        CAPABILITY_RIGHTS_V1_def pos parts) (simp add: CapabilitySlot_EMPTY_def parts)
qed

text \<open>The workload's table once its single route is installed and the table published.\<close>

definition workload_table :: CapabilityTable where
  "workload_table =
     snd (table_publish (snd (install_object_building OBJECT_TYPE_APPROVAL_BROKER
       \<lparr>or_id = 1, or_generation = 1\<rparr> CAPABILITY_RIGHT_SUBMIT_APPROVAL (table_building 2 5))))"

lemma workload_table_ok:
  "table_ok workload_table" "ct_state workload_table = Cap_Live" "ct_task_id workload_table = 2"
  "ct_task_generation workload_table = 5"
proof -
  have b: "table_ok (table_building 2 5)" by (rule table_ok_building) simp_all
  have i: "table_ok (snd (install_object_building OBJECT_TYPE_APPROVAL_BROKER
       \<lparr>or_id = 1, or_generation = 1\<rparr> CAPABILITY_RIGHT_SUBMIT_APPROVAL (table_building 2 5)))"
    by (rule install_ok [OF b surjective_pairing])
  show "table_ok workload_table"
    unfolding workload_table_def by (rule publish_ok [OF i surjective_pairing])
  show "ct_state workload_table = Cap_Live" "ct_task_id workload_table = 2"
    "ct_task_generation workload_table = 5"
    unfolding workload_table_def building_install by (simp_all add: table_publish_def table_building_def)
qed

lemma install_workload:
  assumes "ts_capabilities (rt_task1 r) = table_building 2 5"
  shows "\<exists>r1. install_routes (take (unat (lm_route_count REGISTERED_LAUNCH_MANIFEST))
            (lm_routes REGISTERED_LAUNCH_MANIFEST)) r = (Inr (), r1)
     \<and> task1_capabilities table_publish r1 =
         (Inr (), r\<lparr>rt_task1 := (rt_task1 r)\<lparr>ts_capabilities := workload_table\<rparr>\<rparr>)"
proof -
  obtain tab where inst: "install_object_building OBJECT_TYPE_APPROVAL_BROKER
      \<lparr>or_id = 1, or_generation = 1\<rparr> CAPABILITY_RIGHT_SUBMIT_APPROVAL (table_building 2 5) = (Inr 16, tab)"
    and state: "ct_state tab = Cap_Building"
    using building_install by (auto simp: table_building_def)
  have pub: "table_publish tab = (Inr (), workload_table)"
    unfolding workload_table_def inst using state by (simp add: table_publish_def)
  let ?r1 = "r\<lparr>rt_task1 := (rt_task1 r)\<lparr>ts_capabilities := tab\<rparr>\<rparr>"
  have "install_routes (take (unat (lm_route_count REGISTERED_LAUNCH_MANIFEST))
            (lm_routes REGISTERED_LAUNCH_MANIFEST)) r = (Inr (), ?r1)"
    using assms inst by (simp add: REGISTERED_LAUNCH_MANIFEST_def task1_capabilities_def)
  moreover have "task1_capabilities table_publish ?r1 =
         (Inr (), r\<lparr>rt_task1 := (rt_task1 r)\<lparr>ts_capabilities := workload_table\<rparr>\<rparr>)"
    using pub by (simp add: task1_capabilities_def)
  ultimately show ?thesis by blast
qed

definition launched :: "Runtime \<Rightarrow> Runtime" where
  "launched r =
     r\<lparr>rt_task1 := (rt_task1 r)\<lparr>ts_capabilities := workload_table, ts_state := TaskState_Ready\<rparr>,
       rt_manifest := published_manifest, rt_queue := queue_of [RECEIVER_TASK_ID]\<rparr>"

lemma launched_core:
  assumes "sup_core r" "ts_state (rt_task1 r) = TaskState_Staged"
  shows "sup_core (launched r)"
proof -
  have s: "slot_inv 1 (rt_task0 r)" "slot_inv 2 (rt_task1 r)" and g: "ts_generation (rt_task1 r) = 5"
    using assms by (simp_all add: sup_core_def slots_inv_def)
  have "slot_inv 2 ((rt_task1 r)\<lparr>ts_capabilities := workload_table, ts_state := TaskState_Ready\<rparr>)"
    using s(2) assms(2) g by (simp add: slot_inv_def workload_table_ok)
  with assms s show ?thesis
    by (simp add: launched_def sup_core_def slots_inv_def workload_table_ok)
qed

lemma sup_trap_pre:
  "sup_core r \<Longrightarrow> sched_inv r \<Longrightarrow> valid_task t \<Longrightarrow> task_state r t = TaskState_Running \<Longrightarrow> trap_pre t r"
  by (simp add: trap_pre_def runtime_inv_def)

lemma core_profile: "core r \<Longrightarrow> rt_profile r = Profile_Supervised \<Longrightarrow> sup_core r"
  by (auto simp: core_def coop_core_def)

lemma launched_pre:
  assumes pre: "trap_pre t r" and sup: "sup_core r" and staged: "ts_state (rt_task1 r) = TaskState_Staged"
  shows "t = 1" "trap_pre t (launched r)" "exited_same r (launched r)"
proof -
  note p = trap_preD [OF pre]
  show t: "t = 1" using p(1,5) staged by (auto simp: valid_task_def)
  have "sched_inv (launched r)"
    using p(5) t sched_running_iff [of 1 "launched r"] by (simp add: launched_def)
  moreover have "task_state (launched r) 1 = TaskState_Running" using p(5) t by (simp add: launched_def)
  ultimately show "trap_pre t (launched r)"
    using launched_core [OF sup staged] t by (simp add: sup_trap_pre)
  show "exited_same r (launched r)" using staged by (simp add: exited_same_def launched_def)
qed

lemma start_cases:
  assumes pre: "trap_pre t r"
  obtains (refused) st where "start_workload t handle mid res r = resume t st 0 r"
    | (started) "t = 1" "sup_core r" "ts_state (rt_task1 r) = TaskState_Staged"
        "start_workload t handle mid res r = resume_validated t Status_Ok 0 (launched r)"
proof (cases "res = 0 \<and> rt_profile r = Profile_Supervised
    \<and> resolve_object r t handle OBJECT_TYPE_TASK_CONTROL CAPABILITY_RIGHT_START TASK_CONTROL_OBJECT_ID
        FIXED_OBJECT_GENERATION = Inr ()
    \<and> mid = MANIFEST_ID \<and> ts_state (rt_task1 r) = TaskState_Staged
    \<and> manifest_validate REGISTERED_LAUNCH_MANIFEST (ts_generation (rt_task1 r))
        (ab_object_generation (rt_broker r)) (available_slots (ts_capabilities (rt_task1 r))) = Inr ()")
  case False
  then have "\<exists>st. start_workload t handle mid res r = resume t st 0 r"
    by (cases "resolve_object r t handle OBJECT_TYPE_TASK_CONTROL CAPABILITY_RIGHT_START
          TASK_CONTROL_OBJECT_ID FIXED_OBJECT_GENERATION")
      (auto simp: start_workload_def start_workload_with_failure_def is_err_def Let_def)
  then show ?thesis using refused by blast
next
  case True
  note p = trap_preD [OF pre]
  have sup: "sup_core r" using core_profile [OF p(3)] True by simp
  have staged: "ts_state (rt_task1 r) = TaskState_Staged" using True by simp
  have caps: "ts_capabilities (rt_task1 r) = table_building 2 5" using sup staged by (simp add: sup_core_def)
  note l = launched_pre [OF pre sup staged]
  obtain r1 where r1: "install_routes (take (unat (lm_route_count REGISTERED_LAUNCH_MANIFEST))
            (lm_routes REGISTERED_LAUNCH_MANIFEST)) r = (Inr (), r1)"
    "task1_capabilities table_publish r1 =
         (Inr (), r\<lparr>rt_task1 := (rt_task1 r)\<lparr>ts_capabilities := workload_table\<rparr>\<rparr>)"
    using install_workload [OF caps] by blast
  have q: "rt_queue r = queue_of []" using p(7) l(1) staged by simp
  let ?r2 = "r\<lparr>rt_manifest := published_manifest,
      rt_task1 := (rt_task1 r)\<lparr>ts_capabilities := workload_table, ts_state := TaskState_Ready\<rparr>\<rparr>"
  have "queue_push_action 2 ?r2 = (Inr (), ?r2\<lparr>rt_queue := queue_of ([] @ [2])\<rparr>)"
    by (rule queue_push_action_eq) (use q in simp_all)
  then have "queue_push_action 2 ?r2 = (Inr (), launched r)" by (simp add: launched_def)
  then have "start_workload t handle mid res r = resume_validated t Status_Ok 0 (launched r)"
    using True r1
    by (simp add: start_workload_def start_workload_with_failure_def is_err_def Let_def act_then_def act_bind_def)
  then show ?thesis using started [OF l(1) sup staged] by simp
qed

lemma start_post:
  assumes pre: "trap_pre t r"
  shows "trap_post t r (start_workload t handle mid res r)"
  using pre
proof (cases rule: start_cases [of t r handle mid res])
  case (refused st)
  then show ?thesis using resume_post [OF pre] by simp
next
  case started
  then show ?thesis using trap_post_resume launched_pre [OF pre started(2,3)] by simp
qed


section \<open>Approval requests\<close>

lemma sup_coreD:
  assumes "sup_core r"
  shows "slot_inv 1 (rt_task0 r)" "slot_inv 2 (rt_task1 r)"
    and "ts_state (rt_task0 r) \<noteq> TaskState_Dead \<Longrightarrow> broker_inv (rt_broker r)"
    and "ts_state (rt_task0 r) = TaskState_Dead \<Longrightarrow> rt_broker r = ApprovalBroker_DEAD"
    and "ts_state (rt_task1 r) = TaskState_BlockedApproval \<longleftrightarrow>
          ab_state (rt_broker r) = Broker_Pending \<or> ab_state (rt_broker r) = Broker_Approved"
    and "ct_state (ts_capabilities (rt_task0 r)) = Cap_Closing \<Longrightarrow> ab_state (rt_broker r) = Broker_Closing"
    and "ct_state (ts_capabilities (rt_task0 r)) = Cap_Live \<Longrightarrow> effect_inv (rt_effect r)"
    and "ts_state (rt_task0 r) \<in> {TaskState_Ready, TaskState_Running, TaskState_Exited, TaskState_Dead}"
  using assms by (simp_all add: sup_core_def slots_inv_def)

definition the_request :: "u64 \<Rightarrow> u64 \<Rightarrow> ApprovalRequestV1" where
  "the_request sequence argument =
     \<lparr>ar_principal_id = PRINCIPAL_ID, ar_workload_task_id = RECEIVER_TASK_ID,
      ar_workload_generation = WORKLOAD_GENERATION, ar_sequence = sequence,
      ar_action_id = APPROVAL_ACTION_ID_COMMIT_SYNTHETIC_VALUE, ar_effect_object_id = TEST_EFFECT_OBJECT_ID,
      ar_effect_object_generation = FIXED_OBJECT_GENERATION, ar_argument = argument,
      ar_requested_rights = CAPABILITY_RIGHT_COMMIT_EFFECT, ar_resulting_rights = 0\<rparr>"

definition submitted_broker :: "u64 \<Rightarrow> ApprovalBroker \<Rightarrow> ApprovalBroker" where
  "submitted_broker argument b =
     (let b1 = b\<lparr>ab_request_kind := 1, ab_request := the_request (ab_next_sequence b) argument,
                 ab_request_present := True, ab_state := Broker_Pending,
                 ab_decision_epoch := ab_decision_epoch b + 1\<rparr>
      in if ab_next_sequence b = u64_MAX then b1\<lparr>ab_sequence_exhausted := True\<rparr>
         else b1\<lparr>ab_next_sequence := ab_next_sequence b + 1\<rparr>)"

definition submitted :: "u64 \<Rightarrow> Runtime \<Rightarrow> Runtime" where
  "submitted argument r =
     r\<lparr>rt_broker := submitted_broker argument (rt_broker r),
       rt_task1 := (rt_task1 r)\<lparr>ts_state := TaskState_BlockedApproval\<rparr>\<rparr>"

lemma succ_nonzero: "a \<noteq> u64_MAX \<Longrightarrow> a + 1 \<noteq> (0 :: u64)"
  using checked_add_one_None [of a] checked_add_SomeD [of a 1] by (cases "checked_add a 1") auto

lemma checked_succ: "a \<noteq> u64_MAX \<Longrightarrow> checked_add a 1 = Some (a + 1)"
  using checked_add_one_None [of a] checked_add_SomeD [of a 1] by (cases "checked_add a 1") auto

lemma the_request_valid: "s \<noteq> 0 \<Longrightarrow> \<not> request_invalid (the_request s a)"
  by (simp add: request_invalid_def the_request_def)

lemma submitted_broker_inv:
  assumes "broker_inv b" "ab_state b = Broker_Empty" "ab_decision_epoch b \<noteq> u64_MAX"
  shows "broker_inv (submitted_broker argument b)" "ab_state (submitted_broker argument b) = Broker_Pending"
proof -
  have "ab_next_sequence b \<noteq> u64_MAX \<Longrightarrow> ab_next_sequence b + 1 \<noteq> 0"
    and "ab_decision_epoch b + 1 \<noteq> 0"
    using succ_nonzero assms(3) by auto
  moreover have "u64_MAX \<noteq> 0" by (simp add: u64_MAX_def)
  ultimately show "broker_inv (submitted_broker argument b)"
    using assms
    by (simp add: broker_inv_def submitted_broker_def request_open_def request_cleared_def the_request_valid Let_def)
  show "ab_state (submitted_broker argument b) = Broker_Pending"
    by (simp add: submitted_broker_def Let_def)
qed

lemma submitted_core:
  assumes "sup_core r" "ts_state (rt_task1 r) = TaskState_Running"
    and "ab_state (rt_broker r) = Broker_Empty" "ab_decision_epoch (rt_broker r) \<noteq> u64_MAX"
  shows "sup_core (submitted argument r)"
proof -
  note d = sup_coreD [OF assms(1)]
  have nd: "ts_state (rt_task0 r) \<noteq> TaskState_Dead" using d(4) assms(3) by (auto simp: ApprovalBroker_DEAD_def)
  have live: "ct_state (ts_capabilities (rt_task1 r)) = Cap_Live"
    using slot_inv_table_state(1) [OF d(2)] assms(2) by simp
  have "slot_inv 2 ((rt_task1 r)\<lparr>ts_state := TaskState_BlockedApproval\<rparr>)"
    by (rule slot_inv_state [OF d(2) live]) simp_all
  moreover have "ct_state (ts_capabilities (rt_task0 r)) \<noteq> Cap_Closing" using d(6) assms(3) by auto
  ultimately show ?thesis
    using assms(1,2) nd d(1) submitted_broker_inv [OF d(3) [OF nd] assms(3,4)]
    by (simp add: submitted_def sup_core_def slots_inv_def)
qed

lemma submit_effective:
  assumes pre: "trap_pre 2 r" and sup: "sup_core r"
    and "ab_state (rt_broker r) = Broker_Empty" "ab_decision_epoch (rt_broker r) \<noteq> u64_MAX"
  shows "trap_post 2 r (act_bind switch_next
    (\<lambda>next. act_then (act_read runtime_validate) (act_return (Outcome_Switch next))) (submitted argument r))"
proof -
  note p = trap_preD [OF pre] and d = sup_coreD [OF sup]
  have run: "ts_state (rt_task1 r) = TaskState_Running" using p(5) by simp
  have core: "core (submitted argument r)"
    using submitted_core [OF sup run assms(3,4)] by (simp add: core_def)
  have nd: "ts_state (rt_task0 r) \<noteq> TaskState_Dead" using d(4) assms(3) by (auto simp: ApprovalBroker_DEAD_def)
  have st: "task_state (submitted argument r) 2 = TaskState_BlockedApproval"
    "task_state (submitted argument r) 1 = task_state r 1"
    by (simp_all add: submitted_def)
  have "task_state r 1 = TaskState_Ready \<or> task_state r 1 = TaskState_Exited"
    using d(8) nd p(6) by auto
  then show ?thesis
  proof
    assume rdy: "task_state r 1 = TaskState_Ready"
    have q: "rt_queue (submitted argument r) = queue_of [1]" using p(7) rdy by (simp add: submitted_def)
    note b = block_switch [of 2 "submitted argument r"]
    have "exited_same r (submitted argument r)" using run by (simp add: exited_same_def submitted_def)
    moreover have "exited_same (submitted argument r) (dispatched 1 [] (submitted argument r))"
      using b(4) core st rdy q by simp
    ultimately have "exited_same r (dispatched 1 [] (submitted argument r))" by (rule exited_same_trans)
    then show ?thesis
      using b(1-3) core st rdy q runtime_inv_validate [of "dispatched 1 [] (submitted argument r)"]
      by (simp add: act_bind_def act_then_def trap_post_def)
  next
    assume ex: "task_state r 1 = TaskState_Exited"
    have q: "rt_queue (submitted argument r) = queue_of []" using p(7) ex by (simp add: submitted_def)
    have "dispatch_next (submitted argument r) = (Inl Err_NoRunnableTask, submitted argument r)"
      using st ex q by (subst dispatch_empty) simp_all
    then show ?thesis using ex by (simp add: act_bind_def switch_next_def trap_post_def)
  qed
qed

lemma submit_cases:
  assumes pre: "trap_pre t r"
  obtains (refused) st where "submit_approval t handle kind argument r = resume_validated t st 0 r"
    | (accepted) "t = 2" "sup_core r" "ab_state (rt_broker r) = Broker_Empty"
        "ab_decision_epoch (rt_broker r) \<noteq> u64_MAX" "\<not> ab_sequence_exhausted (rt_broker r)"
        "submit_approval t handle kind argument r = act_bind switch_next
           (\<lambda>next. act_then (act_read runtime_validate) (act_return (Outcome_Switch next))) (submitted argument r)"
proof (cases "rt_profile r = Profile_Supervised
    \<and> resolve_object r t handle OBJECT_TYPE_APPROVAL_BROKER CAPABILITY_RIGHT_SUBMIT_APPROVAL
        APPROVAL_BROKER_OBJECT_ID (ab_object_generation (rt_broker r)) = Inr ()
    \<and> ab_state (rt_broker r) = Broker_Empty \<and> \<not> ab_sequence_exhausted (rt_broker r)
    \<and> ab_decision_epoch (rt_broker r) \<noteq> u64_MAX
    \<and> kind = 1 \<and> t = 2 \<and> rt_manifest r = published_manifest")
  case False
  then have "\<exists>st. submit_approval t handle kind argument r = resume_validated t st 0 r"
    by (cases "resolve_object r t handle OBJECT_TYPE_APPROVAL_BROKER CAPABILITY_RIGHT_SUBMIT_APPROVAL
          APPROVAL_BROKER_OBJECT_ID (ab_object_generation (rt_broker r))"; cases "ab_state (rt_broker r)")
      (auto simp: submit_approval_def Let_def)
  then show ?thesis using refused by blast
next
  case True
  note p = trap_preD [OF pre]
  have sup: "sup_core r" using core_profile [OF p(3)] True by simp
  have h: "rt_profile r = Profile_Supervised"
    "resolve_object r t handle OBJECT_TYPE_APPROVAL_BROKER CAPABILITY_RIGHT_SUBMIT_APPROVAL
        APPROVAL_BROKER_OBJECT_ID (ab_object_generation (rt_broker r)) = Inr ()"
    "ab_state (rt_broker r) = Broker_Empty" "\<not> ab_sequence_exhausted (rt_broker r)"
    "ab_decision_epoch (rt_broker r) \<noteq> u64_MAX" "kind = 1" "t = 2" "rt_manifest r = published_manifest"
    using True by auto
  have "submit_approval t handle kind argument r = act_bind switch_next
      (\<lambda>next. act_then (act_read runtime_validate) (act_return (Outcome_Switch next))) (submitted argument r)"
    using h checked_succ [OF h(5)]
    by (simp add: submit_approval_def Let_def)
      (simp add: act_then_def act_bind_def modify_broker_def submitted_def submitted_broker_def the_request_def)
  then show ?thesis by (rule accepted [OF h(7) sup h(3,5,4)])
qed

lemma submit_post:
  assumes pre: "trap_pre t r"
  shows "trap_post t r (submit_approval t handle kind argument r)"
  using pre
proof (cases rule: submit_cases [of t r handle kind argument])
  case (refused st)
  then show ?thesis using resume_validated_post [OF pre] by simp
next
  case accepted
  then show ?thesis using submit_effective pre by simp
qed

lemma inspect_post:
  assumes pre: "trap_pre t r"
  shows "trap_post t r (inspect_approval t handle k a r)"
proof (cases "k = 0 \<and> a = 0 \<and> rt_profile r = Profile_Supervised
    \<and> resolve_object r t handle OBJECT_TYPE_APPROVAL_BROKER CAPABILITY_RIGHT_DECIDE_APPROVAL
        APPROVAL_BROKER_OBJECT_ID (ab_object_generation (rt_broker r)) = Inr ()
    \<and> ab_state (rt_broker r) = Broker_Pending \<and> ab_request_present (rt_broker r)")
  case False
  then have "\<exists>st. inspect_approval t handle k a r = resume_validated t st 0 r"
    by (cases "resolve_object r t handle OBJECT_TYPE_APPROVAL_BROKER CAPABILITY_RIGHT_DECIDE_APPROVAL
          APPROVAL_BROKER_OBJECT_ID (ab_object_generation (rt_broker r))")
      (auto simp: inspect_approval_def Let_def)
  then show ?thesis using resume_validated_post [OF pre] by auto
next
  case True
  note p = trap_preD [OF pre]
  let ?f = "\<lambda>s. s\<lparr>ts_context := (ts_context s)\<lparr>cx_rax := status_code Status_Ok,
      cx_rdi := ar_sequence (ab_request (rt_broker r)), cx_rsi := ab_request_kind (rt_broker r),
      cx_rdx := ar_argument (ab_request (rt_broker r))\<rparr>\<rparr>"
  have inv: "runtime_inv (upd t ?f r)"
    using p(1-4) by (simp add: runtime_inv_core core_similar similar_def same_identity_def sched_upd_same)
  have "inspect_approval t handle k a r = (Inr (Outcome_Resume t), upd t ?f r)"
    using True p(1) runtime_inv_validate [OF inv] by (simp add: inspect_approval_def Let_def act_then_def act_bind_def)
  moreover have "exited_same r (upd t ?f r)" by (simp add: exited_same_def upd_def)
  ultimately show ?thesis using inv p(1,5) by (simp add: trap_post_def task_slot_upd)
qed


section \<open>Decisions and commits\<close>

lemma wake_workload_eq:
  assumes "ts_state (rt_task1 r) = TaskState_BlockedApproval" "rt_queue r = queue_of []"
  shows "wake_workload st v r = (Inr (), woken st v r)"
proof -
  let ?r = "upd 2 (\<lambda>s. s\<lparr>ts_context := context_set_result st v (ts_context s), ts_state := TaskState_Ready\<rparr>) r"
  have "queue_push_action 2 ?r = (Inr (), ?r\<lparr>rt_queue := queue_of ([] @ [2])\<rparr>)"
    by (rule queue_push_action_eq) (use assms(2) in simp_all)
  then show ?thesis
    using assms(1) by (simp add: wake_workload_def act_bind_def act_then_def set_result_eq woken_def)
qed

lemma request_cleared_clear [simp]: "request_cleared (clear_request b)"
  by (simp add: request_cleared_def clear_request_def ApprovalBroker_DEAD_def)

lemma broker_inv_cleared:
  assumes "broker_inv b" "e \<noteq> 0" "st = Broker_Empty \<or> st = Broker_Closing"
  shows "broker_inv ((clear_request (b\<lparr>ab_decision_epoch := e\<rparr>))\<lparr>ab_state := st\<rparr>)"
  using assms by (auto simp: broker_inv_def clear_request_def request_cleared_def ApprovalBroker_DEAD_def)

lemma broker_inv_cleared_same:
  assumes "broker_inv b" "st = Broker_Empty \<or> st = Broker_Closing"
  shows "broker_inv ((clear_request b)\<lparr>ab_state := st\<rparr>)"
  using assms by (auto simp: broker_inv_def clear_request_def request_cleared_def ApprovalBroker_DEAD_def)

text \<open>Closing the request of a blocked workload and waking it, with any new effect record.\<close>

lemma woken_sup_core:
  assumes "sup_core r" "ts_state (rt_task1 r) = TaskState_BlockedApproval"
    and "ts_state (rt_task0 r) = TaskState_Running"
    and "broker_inv b" "ab_state b = Broker_Empty \<or> ab_state b = Broker_Closing" "effect_inv f"
  shows "sup_core ((woken st v r)\<lparr>rt_broker := b, rt_effect := f\<rparr>)"
proof -
  note d = sup_coreD [OF assms(1)]
  have live: "ct_state (ts_capabilities (rt_task1 r)) = Cap_Live" "ct_state (ts_capabilities (rt_task0 r)) = Cap_Live"
    using slot_inv_table_state(1) [OF d(2)] slot_inv_table_state(1) [OF d(1)] assms(2,3) by simp_all
  have s: "slot_inv 2 ((rt_task1 r)\<lparr>ts_context := context_set_result st v (ts_context (rt_task1 r)),
      ts_state := TaskState_Ready\<rparr>)"
    using slot_inv_state [of 2 "(rt_task1 r)\<lparr>ts_context := context_set_result st v (ts_context (rt_task1 r))\<rparr>"
        TaskState_Ready] slot_inv_context d(2) live(1) by simp
  have nb: "ab_state b \<noteq> Broker_Pending" "ab_state b \<noteq> Broker_Approved" using assms(5) by auto
  show ?thesis
    using assms(1-4,6) s d(1) live nb by (simp add: woken_def sup_core_def slots_inv_def)
qed

lemma woken_pre:
  assumes pre: "trap_pre 1 r" and sup: "sup_core r" and bl: "ts_state (rt_task1 r) = TaskState_BlockedApproval"
    and b: "broker_inv b" "ab_state b = Broker_Empty \<or> ab_state b = Broker_Closing" "effect_inv f"
  shows "trap_pre 1 ((woken st v r)\<lparr>rt_broker := b, rt_effect := f\<rparr>)"
    "exited_same r ((woken st v r)\<lparr>rt_broker := b, rt_effect := f\<rparr>)"
proof -
  have run: "ts_state (rt_task0 r) = TaskState_Running" using trap_preD(5) [OF pre] by simp
  show "trap_pre 1 ((woken st v r)\<lparr>rt_broker := b, rt_effect := f\<rparr>)"
    using woken_sup_core [OF sup bl run b] woken_sched [of r] run
    by (intro sup_trap_pre) (simp_all add: woken_def)
  show "exited_same r ((woken st v r)\<lparr>rt_broker := b, rt_effect := f\<rparr>)"
    using bl by (simp add: exited_same_def woken_def)
qed

lemma woken_post:
  assumes pre: "trap_pre 1 r" and sup: "sup_core r" and bl: "ts_state (rt_task1 r) = TaskState_BlockedApproval"
    and b: "broker_inv b" "ab_state b = Broker_Empty \<or> ab_state b = Broker_Closing" "effect_inv f"
  shows "trap_post 1 r (resume_validated 1 st' v' ((woken st v r)\<lparr>rt_broker := b, rt_effect := f\<rparr>))"
  by (rule trap_post_resume [OF woken_pre [OF assms]])

lemma open_request:
  assumes pre: "trap_pre t r" and sup: "sup_core r" and "ab_request_present (rt_broker r)"
  shows "t = 1" "ts_state (rt_task1 r) = TaskState_BlockedApproval" "broker_inv (rt_broker r)"
    "effect_inv (rt_effect r)" "rt_queue r = queue_of []"
    "ab_state (rt_broker r) = Broker_Pending \<or> ab_state (rt_broker r) = Broker_Approved"
proof -
  note p = trap_preD [OF pre] and d = sup_coreD [OF sup]
  have nd: "ts_state (rt_task0 r) \<noteq> TaskState_Dead" using d(4) assms(3) by (auto simp: ApprovalBroker_DEAD_def)
  show inv: "broker_inv (rt_broker r)" by (rule d(3) [OF nd])
  then show ps: "ab_state (rt_broker r) = Broker_Pending \<or> ab_state (rt_broker r) = Broker_Approved"
    using assms(3) by (cases "ab_state (rt_broker r)") (simp_all add: broker_inv_def request_cleared_def)
  then show bl: "ts_state (rt_task1 r) = TaskState_BlockedApproval" using d(5) by blast
  then show t: "t = 1" using p(1,5) by (auto simp: valid_task_def)
  have "ct_state (ts_capabilities (rt_task0 r)) = Cap_Live" using trap_table_live(2) [OF pre] t by simp
  then show "effect_inv (rt_effect r)" by (rule d(7))
  show "rt_queue r = queue_of []" using p(7) t bl by simp
qed

definition decided_broker :: "ApprovalBroker \<Rightarrow> ApprovalBroker" where
  "decided_broker b = (clear_request (b\<lparr>ab_decision_epoch := ab_decision_epoch b + 1\<rparr>))\<lparr>ab_state := Broker_Empty\<rparr>"

definition approved_broker :: "ApprovalBroker \<Rightarrow> ApprovalBroker" where
  "approved_broker b =
     b\<lparr>ab_decision_epoch := ab_decision_epoch b + 1, ab_state := Broker_Approved,
       ab_approval_epoch := ab_decision_epoch b + 1, ab_expiry_epoch := ab_decision_epoch b + 1 + 1\<rparr>"

lemma decided_broker_inv:
  assumes "broker_inv b" "ab_decision_epoch b \<noteq> u64_MAX"
  shows "broker_inv (decided_broker b)" "ab_state (decided_broker b) = Broker_Empty"
  using broker_inv_cleared [OF assms(1) succ_nonzero [OF assms(2)]] by (simp_all add: decided_broker_def)

lemma approved_pre:
  assumes pre: "trap_pre 1 r" and sup: "sup_core r" and pend: "ab_state (rt_broker r) = Broker_Pending"
    and e: "ab_decision_epoch (rt_broker r) \<noteq> u64_MAX" "ab_decision_epoch (rt_broker r) + 1 \<noteq> u64_MAX"
  shows "trap_pre 1 (r\<lparr>rt_broker := approved_broker (rt_broker r)\<rparr>)"
proof -
  note p = trap_preD [OF pre] and d = sup_coreD [OF sup]
  have run: "ts_state (rt_task0 r) = TaskState_Running" using p(5) by simp
  have b: "broker_inv (rt_broker r)" using d(3) run by simp
  have "broker_inv (approved_broker (rt_broker r))"
    using b pend succ_nonzero [OF e(1)] e(2)
    by (simp add: broker_inv_def approved_broker_def request_open_def)
  moreover have "ts_state (rt_task1 r) = TaskState_BlockedApproval" using d(5) pend by blast
  moreover have "ct_state (ts_capabilities (rt_task0 r)) = Cap_Live" using trap_table_live(2) [OF pre] by simp
  ultimately have "sup_core (r\<lparr>rt_broker := approved_broker (rt_broker r)\<rparr>)"
    using sup run by (simp add: sup_core_def slots_inv_def approved_broker_def)
  then show ?thesis using p by (intro sup_trap_pre) simp_all
qed

lemma exhausted_eq:
  assumes "ts_state (rt_task1 r) = TaskState_BlockedApproval" "rt_queue r = queue_of []"
  shows "fail_broker_epoch_exhaustion r =
    (Inr (), (woken Status_BrokerUnavailable 0 r)
       \<lparr>rt_broker := (clear_request (rt_broker r))\<lparr>ab_state := Broker_Closing\<rparr>, rt_effect := rt_effect r\<rparr>)"
  using assms wake_workload_eq [OF assms]
  by (simp add: fail_broker_epoch_exhaustion_def act_bind_def act_then_def modify_broker_def woken_def)

lemma decide_exhausted_post:
  assumes pre: "trap_pre t r" and sup: "sup_core r" and present: "ab_request_present (rt_broker r)"
  shows "trap_post t r (act_then fail_broker_epoch_exhaustion (resume_validated t Status_BrokerUnavailable 0) r)"
proof -
  note o = open_request [OF assms]
  have b: "broker_inv ((clear_request (rt_broker r))\<lparr>ab_state := Broker_Closing\<rparr>)"
    by (rule broker_inv_cleared_same [OF o(3)]) simp
  have "trap_post 1 r (resume_validated 1 Status_BrokerUnavailable 0 ((woken Status_BrokerUnavailable 0 r)
      \<lparr>rt_broker := (clear_request (rt_broker r))\<lparr>ab_state := Broker_Closing\<rparr>, rt_effect := rt_effect r\<rparr>))"
    by (rule woken_post) (use pre o b sup in simp_all)
  then show ?thesis using exhausted_eq [OF o(2,5)] o(1) by (simp add: act_then_def act_bind_def)
qed

text \<open>The state after an effective decision, without the answer to the supervisor.\<close>

definition decided :: "u64 \<Rightarrow> Runtime \<Rightarrow> Runtime" where
  "decided decision r =
     (if decision = DECISION_APPROVE then r\<lparr>rt_broker := approved_broker (rt_broker r)\<rparr>
      else (woken (if decision = DECISION_DENY then Status_ApprovalDenied else Status_ApprovalExpired) 0 r)
        \<lparr>rt_broker := decided_broker (rt_broker r), rt_effect := rt_effect r\<rparr>)"

definition decision_open :: "u64 \<Rightarrow> ApprovalBroker \<Rightarrow> bool" where
  "decision_open decision b \<longleftrightarrow> ab_decision_epoch b \<noteq> u64_MAX
     \<and> (decision = DECISION_DENY \<and> ab_state b = Broker_Pending \<or> decision = DECISION_EXPIRE
        \<or> decision = DECISION_APPROVE \<and> ab_state b = Broker_Pending \<and> ab_decision_epoch b + 1 \<noteq> u64_MAX)"

lemma decided_pre:
  assumes pre: "trap_pre t r" and sup: "sup_core r" and present: "ab_request_present (rt_broker r)"
    and dec: "decision_open decision (rt_broker r)"
  shows "trap_pre t (decided decision r)" "exited_same r (decided decision r)"
proof -
  note o = open_request [OF pre sup present]
  have pre1: "trap_pre 1 r" using pre o(1) by simp
  have e: "ab_decision_epoch (rt_broker r) \<noteq> u64_MAX" using dec by (simp add: decision_open_def)
  note w = woken_pre [OF pre1 sup o(2) decided_broker_inv(1) [OF o(3) e] disjI1 [OF decided_broker_inv(2) [OF o(3) e]] o(4)]
  have a: "trap_pre 1 (r\<lparr>rt_broker := approved_broker (rt_broker r)\<rparr>)" if "decision = DECISION_APPROVE"
    using dec that by (intro approved_pre [OF pre1 sup _ e]) (simp_all add: decision_open_def)
  show "trap_pre t (decided decision r)" using a w(1) o(1) by (simp add: decided_def)
  show "exited_same r (decided decision r)" using w(2) by (simp add: decided_def) (simp add: exited_same_def)
qed

lemma decide_applied_eq:
  assumes pre: "trap_pre t r" and sup: "sup_core r" and present: "ab_request_present (rt_broker r)"
    and dec: "decision_open decision (rt_broker r)"
  shows "act_then (modify_broker (\<lambda>b. b\<lparr>ab_decision_epoch := ab_decision_epoch (rt_broker r) + 1\<rparr>))
     (act_then (apply_decision decision (ab_decision_epoch (rt_broker r) + 1))
     (resume_validated t Status_Ok 0)) r = resume_validated t Status_Ok 0 (decided decision r)"
proof (cases "decision = DECISION_APPROVE")
  case True
  then show ?thesis
    by (simp add: act_then_def act_bind_def modify_broker_def apply_decision_def approved_broker_def decided_def)
next
  case False
  note o = open_request [OF pre sup present]
  let ?st = "if decision = DECISION_DENY then Status_ApprovalDenied else Status_ApprovalExpired"
  let ?r = "r\<lparr>rt_broker := decided_broker (rt_broker r)\<rparr>"
  have w: "wake_workload ?st 0 ?r = (Inr (), woken ?st 0 ?r)"
    by (rule wake_workload_eq) (use o in simp_all)
  have d: "woken ?st 0 ?r = decided decision r" using False by (simp add: decided_def woken_def)
  have "decision = 0 \<or> decision = 2" using dec False by (auto simp: decision_open_def)
  then have "apply_decision decision (ab_decision_epoch (rt_broker r) + 1)
      (r\<lparr>rt_broker := (rt_broker r)\<lparr>ab_decision_epoch := ab_decision_epoch (rt_broker r) + 1\<rparr>\<rparr>) =
      wake_workload ?st 0 ?r"
    by (elim disjE) (simp_all add: apply_decision_def act_then_def act_bind_def modify_broker_def decided_broker_def)
  then show ?thesis
    unfolding act_then_def act_bind_def modify_broker_def act_modify_apply using w d by simp
qed

lemma decide_status_None:
  assumes "decide_status r t handle sequence decision = None"
  shows "rt_profile r = Profile_Supervised"
    "resolve_object r t handle OBJECT_TYPE_APPROVAL_BROKER CAPABILITY_RIGHT_DECIDE_APPROVAL
        APPROVAL_BROKER_OBJECT_ID (ab_object_generation (rt_broker r)) = Inr ()"
    "ab_request_present (rt_broker r)" "ar_sequence (ab_request (rt_broker r)) = sequence"
    "decision = DECISION_DENY \<or> decision = DECISION_EXPIRE
     \<or> decision = DECISION_APPROVE \<and> ab_state (rt_broker r) = Broker_Pending"
    "decision = DECISION_DENY \<Longrightarrow> ab_state (rt_broker r) = Broker_Pending"
  using assms unfolding decide_status_def Let_def
  by (auto split: if_split_asm sum.split_asm)

lemma decide_cases:
  assumes pre: "trap_pre t r"
  obtains (refused) st where "decide_status r t handle sequence decision = Some st"
        "decide_approval t handle sequence decision r = resume_validated t st 0 r"
    | (exhausted) "sup_core r" "ab_request_present (rt_broker r)"
        "ab_decision_epoch (rt_broker r) = u64_MAX
         \<or> decision = DECISION_APPROVE \<and> ab_decision_epoch (rt_broker r) + 1 = u64_MAX"
        "ab_state (rt_broker r) = Broker_Pending \<or> decision \<noteq> DECISION_APPROVE"
        "decide_approval t handle sequence decision r =
           act_then fail_broker_epoch_exhaustion (resume_validated t Status_BrokerUnavailable 0) r"
    | (applied) "sup_core r" "ab_request_present (rt_broker r)" "decision_open decision (rt_broker r)"
        "ar_sequence (ab_request (rt_broker r)) = sequence"
        "decide_approval t handle sequence decision r = resume_validated t Status_Ok 0 (decided decision r)"
proof (cases "decide_status r t handle sequence decision")
  case (Some st)
  then show ?thesis using refused by (simp add: decide_approval_def)
next
  case None
  note h = decide_status_None [OF None]
  have sup: "sup_core r" using core_profile [OF trap_preD(3) [OF pre]] h(1) by simp
  let ?e = "ab_decision_epoch (rt_broker r)"
  show ?thesis
  proof (cases "?e = u64_MAX \<or> decision = DECISION_APPROVE \<and> ?e + 1 = u64_MAX")
    case True
    then have "decide_approval t handle sequence decision r =
        act_then fail_broker_epoch_exhaustion (resume_validated t Status_BrokerUnavailable 0) r"
      using None checked_add_one_None [of ?e] checked_succ [of ?e]
      by (cases "?e = u64_MAX") (simp_all add: decide_approval_def)
    then show ?thesis by (rule exhausted [OF sup h(3) True, rotated]) (use h(5) in auto)
  next
    case False
    then have "checked_add ?e 1 = Some (?e + 1)" using checked_succ by blast
    then have "decide_approval t handle sequence decision r =
        act_then (modify_broker (\<lambda>b. b\<lparr>ab_decision_epoch := ?e + 1\<rparr>))
          (act_then (apply_decision decision (?e + 1)) (resume_validated t Status_Ok 0)) r"
      using None False by (auto simp: decide_approval_def)
    moreover have dec: "decision_open decision (rt_broker r)"
      using h(5,6) False by (auto simp: decision_open_def)
    ultimately show ?thesis
      using applied [OF sup h(3) dec h(4)] decide_applied_eq [OF pre sup h(3) dec] by simp
  qed
qed

lemma decide_post:
  assumes pre: "trap_pre t r"
  shows "trap_post t r (decide_approval t handle sequence decision r)"
  using pre
proof (cases rule: decide_cases [of t r handle sequence decision])
  case (refused st)
  then show ?thesis using resume_validated_post [OF pre] by simp
next
  case exhausted
  then show ?thesis using decide_exhausted_post [OF pre exhausted(1,2)] by simp
next
  case applied
  then show ?thesis using trap_post_resume [OF decided_pre [OF pre applied(1-3)]] by simp
qed

lemma commit_status_None:
  assumes "commit_status r t handle sequence argument = None"
  shows "rt_profile r = Profile_Supervised"
    "resolve_object r t handle OBJECT_TYPE_TEST_EFFECT CAPABILITY_RIGHT_COMMIT_EFFECT TEST_EFFECT_OBJECT_ID
       (se_object_generation (rt_effect r)) = Inr ()"
    "ab_state (rt_broker r) = Broker_Approved" "ab_request_present (rt_broker r)"
    "ar_sequence (ab_request (rt_broker r)) = sequence" "ar_argument (ab_request (rt_broker r)) = argument"
    "\<not> se_occupied (rt_effect r)" "ab_decision_epoch (rt_broker r) < ab_expiry_epoch (rt_broker r)"
  using assms unfolding commit_status_def Let_def
  by (simp_all add: not_le split: if_split_asm sum.split_asm)

lemma commit_eq:
  assumes pre: "trap_pre t r" and none: "commit_status r t handle sequence argument = None"
  shows "commit_effect t handle sequence argument r =
    resume_validated t Status_Ok 0 ((woken Status_Ok argument r)
      \<lparr>rt_broker := decided_broker (rt_broker r),
       rt_effect := (rt_effect r)\<lparr>se_occupied := True, se_value := argument\<rparr>\<rparr>)"
proof -
  note h = commit_status_None [OF none]
  have sup: "sup_core r" using core_profile [OF trap_preD(3) [OF pre]] h(1) by simp
  note o = open_request [OF pre sup h(4)]
  let ?e = "ab_decision_epoch (rt_broker r)"
  have e: "?e \<noteq> u64_MAX" "ab_expiry_epoch (rt_broker r) = ?e + 1"
    using o(3) h(3) by (simp_all add: broker_inv_def)
  let ?r = "r\<lparr>rt_effect := (rt_effect r)\<lparr>se_occupied := True, se_value := argument\<rparr>,
      rt_broker := decided_broker (rt_broker r)\<rparr>"
  have "wake_workload Status_Ok argument ?r = (Inr (), woken Status_Ok argument ?r)"
    by (rule wake_workload_eq) (use o in simp_all)
  moreover have "woken Status_Ok argument ?r = (woken Status_Ok argument r)
      \<lparr>rt_broker := decided_broker (rt_broker r),
       rt_effect := (rt_effect r)\<lparr>se_occupied := True, se_value := argument\<rparr>\<rparr>"
    by (simp add: woken_def)
  ultimately show ?thesis
    using none checked_succ [OF e(1)] e(2)
    by (simp add: commit_effect_def act_then_def act_bind_def decided_broker_def)
qed

lemma commit_post:
  assumes pre: "trap_pre t r"
  shows "trap_post t r (commit_effect t handle sequence argument r)"
proof (cases "commit_status r t handle sequence argument")
  case (Some st)
  then show ?thesis using resume_validated_post [OF pre] by (simp add: commit_effect_def)
next
  case None
  note h = commit_status_None [OF None]
  have sup: "sup_core r" using core_profile [OF trap_preD(3) [OF pre]] h(1) by simp
  note o = open_request [OF pre sup h(4)]
  have e: "ab_decision_epoch (rt_broker r) \<noteq> u64_MAX" using o(3) h(3) by (simp add: broker_inv_def)
  have f: "effect_inv ((rt_effect r)\<lparr>se_occupied := True, se_value := argument\<rparr>)"
    using o(4) by (simp add: effect_inv_def)
  have "trap_post 1 r (resume_validated 1 Status_Ok 0 ((woken Status_Ok argument r)
      \<lparr>rt_broker := decided_broker (rt_broker r),
       rt_effect := (rt_effect r)\<lparr>se_occupied := True, se_value := argument\<rparr>\<rparr>))"
    by (rule woken_post) (use pre o sup f decided_broker_inv [OF o(3) e] in simp_all)
  then show ?thesis using commit_eq [OF pre None] o(1) by simp
qed


section \<open>The trap handler\<close>

lemma handle_trap_inner_post:
  assumes pre: "trap_pre t r"
  shows "trap_post t r (handle_trap_inner t r)"
proof -
  note p = trap_preD [OF pre]
  have run: "running_task r = Inr t" using running_task_iff [OF p(2)] p(1,5) by simp
  have ctx: "runtime_context r t = Inr (ts_context (task_slot r t))" using p(1) by (simp add: runtime_context_def)
  let ?c = "ts_context (task_slot r t)"
  note posts = resume_post resume_validated_post yield_post send_post receive_post exit_post duplicate_post
    close_post start_post submit_post inspect_post decide_post commit_post
  show ?thesis
  proof (cases "TrapOperation_parse (cx_rax ?c)")
    case None
    then show ?thesis
      using posts [OF pre] run ctx by (simp add: handle_trap_inner_def act_bind_def Let_def)
  next
    case (Some opn)
    then show ?thesis
      using posts [OF pre] run ctx by (cases opn) (simp_all add: handle_trap_inner_def act_bind_def Let_def)
  qed
qed

end
