(* ===== verification/Runtime_Teardown.thy ===== *)
theory Runtime_Teardown
  imports Runtime_Traps
begin

text \<open>
  The two phases of teardown: the first releases the authority of an exited task and wakes a task
  that waits for it, the second reclaims the slot and dispatches the other task.
\<close>


section \<open>Teardown\<close>

definition closing_table :: "CapabilityTable \<Rightarrow> CapabilityTable" where
  "closing_table t = snd (begin_closing t)"

lemma closing_table:
  assumes "table_ok t" "ct_state t = Cap_Live"
  shows "begin_closing t = (Inr (), closing_table t)" "table_ok (closing_table t)"
    "ct_state (closing_table t) = Cap_Closing" "ct_task_id (closing_table t) = ct_task_id t"
    "ct_task_generation (closing_table t) = ct_task_generation t"
    "mark_closing t = (Inr (), t\<lparr>ct_state := Cap_Closing\<rparr>)"
    "close_all (t\<lparr>ct_state := Cap_Closing\<rparr>) = (Inr (), closing_table t)"
    "rights_within limit (closing_table t)"
proof -
  show b: "begin_closing t = (Inr (), closing_table t)"
    unfolding closing_table_def begin_closing_eq using assms(2) by simp
  show "table_ok (closing_table t)" by (rule begin_closing_ok [OF assms(1) b])
  show "ct_state (closing_table t) = Cap_Closing" "ct_task_id (closing_table t) = ct_task_id t"
    "ct_task_generation (closing_table t) = ct_task_generation t"
    unfolding closing_table_def begin_closing_eq using assms(2) by simp_all
  show m: "mark_closing t = (Inr (), t\<lparr>ct_state := Cap_Closing\<rparr>)" using assms(2) by (simp add: mark_closing_def)
  show "close_all (t\<lparr>ct_state := Cap_Closing\<rparr>) = (Inr (), closing_table t)"
    using b m unfolding begin_closing_def by (simp add: act_then_def act_bind_def)
  have len: "length (ct_slots t) = 16" using assms(1) by (simp add: table_ok_def table_shape_def)
  have "live_entry (closing_table t) raw = None" for raw
  proof (cases "handle_decode raw")
    case None
    then show ?thesis by (simp add: live_entry_def)
  next
    case (Some p)
    then obtain i g where d: "handle_decode raw = Some (i, g)" by (cases p) auto
    then have "i < 16" by (auto dest: handle_decode_SomeD)
    then have "cs_entry (ct_slots (closing_table t) ! i) = None"
      unfolding closing_table_def begin_closing_eq using assms(2) len by simp
    with d show ?thesis by (simp add: live_entry_def)
  qed
  then show "rights_within limit (closing_table t)" by (simp add: rights_within_def)
qed

text \<open>The slot of an exited task with its table closed, and with everything reclaimed.\<close>

lemma slot_inv_closing:
  assumes "slot_inv i s" "ts_state s = TaskState_Exited" "ct_state (ts_capabilities s) = Cap_Live"
  shows "slot_inv i (s\<lparr>ts_capabilities := closing_table (ts_capabilities s)\<rparr>)"
proof -
  have ok: "table_ok (ts_capabilities s)" using assms(1) by (simp add: slot_inv_def)
  show ?thesis using assms closing_table [OF ok assms(3)] by (simp add: slot_inv_def)
qed

definition unblocked :: "TaskState \<Rightarrow> TaskState" where
  "unblocked st =
     (if st = TaskState_BlockedReceive \<or> st = TaskState_BlockedApproval then TaskState_Ready else st)"

text \<open>Cooperative teardown, first phase.\<close>

definition coop_released :: "u64 \<Rightarrow> Runtime \<Rightarrow> Runtime" where
  "coop_released t r =
     (let r1 = upd t (\<lambda>s. s\<lparr>ts_capabilities := closing_table (ts_capabilities s)\<rparr>) r
      in if t = SENDER_TASK_ID then
           (let r2 = r1\<lparr>rt_endpoint := (rt_endpoint r)\<lparr>ep_sender_task := 0, ep_sender_generation := 0\<rparr>\<rparr>
            in if ts_state (rt_task1 r) = TaskState_BlockedReceive then woken Status_PeerExited 0 r2 else r2)
         else r1\<lparr>rt_endpoint := (rt_endpoint r)\<lparr>ep_receiver_task := 0, ep_receiver_generation := 0,
                   ep_occupied := False, ep_payload := 0\<rparr>\<rparr>)"

lemma empty_queue:
  assumes "sched_inv r" "ts_state (rt_task0 r) \<noteq> TaskState_Ready" "ts_state (rt_task1 r) \<noteq> TaskState_Ready"
  shows "rt_queue r = queue_of []"
  using assms by (auto simp: sched_inv_def queue_inv_def ready_set_def)

lemma slot_inv_woken:
  assumes "slot_inv 2 s" "ct_state (ts_capabilities s) = Cap_Live"
  shows "slot_inv 2 (s\<lparr>ts_context := context_set_result st v (ts_context s), ts_state := TaskState_Ready\<rparr>)"
  using slot_inv_state [of 2 "s\<lparr>ts_context := context_set_result st v (ts_context s)\<rparr>" TaskState_Ready]
    slot_inv_context assms by simp

lemma coop_released_core:
  assumes coop: "coop_core r" and t: "valid_task t" and ex: "task_state r t = TaskState_Exited"
    and live: "ct_state (ts_capabilities (task_slot r t)) = Cap_Live"
  shows "coop_core (coop_released t r)"
proof -
  have s: "slot_inv 1 (rt_task0 r)" "slot_inv 2 (rt_task1 r)" and ep: "endpoint_inv r"
    using coop by (simp_all add: coop_core_def slots_inv_def)
  show ?thesis
  proof (cases "t = SENDER_TASK_ID")
    case True
    then have e: "ts_state (rt_task0 r) = TaskState_Exited" "ct_state (ts_capabilities (rt_task0 r)) = Cap_Live"
      using ex live by simp_all
    have ok: "table_ok (ts_capabilities (rt_task0 r))" using s(1) by (simp add: slot_inv_def)
    note c = closing_table [OF ok e(2)] and sc = slot_inv_closing [OF s(1) e]
    show ?thesis
    proof (cases "ts_state (rt_task1 r) = TaskState_BlockedReceive")
      case bl: True
      have live1: "ct_state (ts_capabilities (rt_task1 r)) = Cap_Live"
        using slot_inv_table_state(1) [OF s(2)] bl by simp
      note sw = slot_inv_woken [OF s(2) live1, of Status_PeerExited 0]
      show ?thesis
        using coop True bl e c sc sw ep
        by (simp add: coop_released_def woken_def coop_core_def slots_inv_def endpoint_inv_def Let_def)
    next
      case False
      then show ?thesis
        using coop True e c sc s(2) ep
        by (simp add: coop_released_def coop_core_def slots_inv_def endpoint_inv_def Let_def)
    qed
  next
    case False
    then have "t = 2" using t by (simp add: valid_task_def)
    then have e: "ts_state (rt_task1 r) = TaskState_Exited" "ct_state (ts_capabilities (rt_task1 r)) = Cap_Live"
      using ex live by simp_all
    have ok: "table_ok (ts_capabilities (rt_task1 r))" using s(2) by (simp add: slot_inv_def)
    note c = closing_table [OF ok e(2)] and sc = slot_inv_closing [OF s(2) e]
    show ?thesis
      using coop \<open>t = 2\<close> e c sc s(1) ep
      by (simp add: coop_released_def coop_core_def slots_inv_def endpoint_inv_def Let_def)
  qed
qed

lemma upd_sched_caps: "valid_task t \<Longrightarrow> sched_inv (upd t (\<lambda>s. s\<lparr>ts_capabilities := c s\<rparr>) r) = sched_inv r"
  by (simp add: sched_upd_same)

lemma coop_released_states:
  assumes "valid_task t" "task_state r t = TaskState_Exited" "coop_core r"
  shows "task_state (coop_released t r) t = TaskState_Exited"
    "task_state (coop_released t r) (other t) = unblocked (task_state r (other t))"
    "ct_state (ts_capabilities (task_slot (coop_released t r) t)) =
       ct_state (closing_table (ts_capabilities (task_slot r t)))"
proof -
  have "ts_state (rt_task0 r) \<noteq> TaskState_BlockedReceive" "ts_state (rt_task0 r) \<noteq> TaskState_BlockedApproval"
    "ts_state (rt_task1 r) \<noteq> TaskState_BlockedApproval"
    using assms(3) by (auto simp: coop_core_def)
  then show "task_state (coop_released t r) t = TaskState_Exited"
    "task_state (coop_released t r) (other t) = unblocked (task_state r (other t))"
    "ct_state (ts_capabilities (task_slot (coop_released t r) t)) =
       ct_state (closing_table (ts_capabilities (task_slot r t)))"
    using assms(1,2) by (auto simp: valid_task_def coop_released_def woken_def unblocked_def Let_def)
qed

lemma coop_released_sched:
  assumes "sched_inv r" "valid_task t" "task_state r t = TaskState_Exited"
  shows "sched_inv (coop_released t r)"
proof (cases "t = SENDER_TASK_ID \<and> ts_state (rt_task1 r) = TaskState_BlockedReceive")
  case True
  then show ?thesis
    using assms(3) by (simp add: coop_released_def Let_def) (rule woken_sched_idle, simp)
next
  case False
  then show ?thesis
    using assms(1) upd_sched_caps [OF assms(2), of "\<lambda>s. closing_table (ts_capabilities s)" r]
    by (auto simp: coop_released_def Let_def)
qed

lemma begin_teardown_coop:
  assumes inv: "runtime_inv r" and coop: "coop_core r" and t: "valid_task t"
    and ex: "task_state r t = TaskState_Exited" and live: "ct_state (ts_capabilities (task_slot r t)) = Cap_Live"
  shows "begin_teardown_inner t r = (Inr (), coop_released t r)" "runtime_inv (coop_released t r)"
proof -
  have sched: "sched_inv r" and core: "core r" using inv by (simp_all add: runtime_inv_core)
  have prof: "rt_profile r = Profile_Cooperative" using coop by (simp add: coop_core_def)
  show inv': "runtime_inv (coop_released t r)"
    using coop_released_core [OF coop t ex live] coop_released_sched [OF sched t ex]
    by (simp add: runtime_inv_def)
  have s: "slot_inv t (task_slot r t)" by (rule core_slot_inv [OF core t])
  then have ok: "table_ok (ts_capabilities (task_slot r t))" by (simp add: slot_inv_def)
  note c = closing_table [OF ok live]
  have ep: "endpoint_inv r" using coop by (simp add: coop_core_def)
  show "begin_teardown_inner t r = (Inr (), coop_released t r)"
  proof (cases "t = SENDER_TASK_ID")
    case True
    let ?r2 = "r\<lparr>rt_task0 := (rt_task0 r)\<lparr>ts_capabilities := closing_table (ts_capabilities (rt_task0 r))\<rparr>,
        rt_endpoint := (rt_endpoint r)\<lparr>ep_sender_task := 0, ep_sender_generation := 0\<rparr>\<rparr>"
    show ?thesis
    proof (cases "ts_state (rt_task1 r) = TaskState_BlockedReceive")
      case bl: True
      have q: "rt_queue r = queue_of []" using empty_queue [OF sched] ex True bl by simp
      have occ: "\<not> ep_occupied (rt_endpoint r)" using ep bl by (simp add: endpoint_inv_def Let_def)
      let ?r3 = "upd 2 (\<lambda>s. s\<lparr>ts_context := context_set_result Status_PeerExited 0 (ts_context s),
          ts_state := TaskState_Ready\<rparr>) ?r2"
      have "queue_push_action 2 ?r3 = (Inr (), ?r3\<lparr>rt_queue := queue_of ([] @ [2])\<rparr>)"
        by (rule queue_push_action_eq) (use q in simp_all)
      moreover have "?r3\<lparr>rt_queue := queue_of ([] @ [2])\<rparr> = coop_released t r"
        using True bl by (simp add: coop_released_def woken_def Let_def)
      ultimately show ?thesis
        using True ex prof c(1) bl occ runtime_inv_validate [OF inv']
        by (simp add: begin_teardown_inner_def act_bind_def act_then_def act_propagate_def
            slot_capabilities_eq release_endpoint_def set_result_eq)
    next
      case False
      then have "coop_released t r = ?r2" using True by (simp add: coop_released_def Let_def)
      then show ?thesis
        using True False ex prof c(1) runtime_inv_validate [OF inv']
        by (simp add: begin_teardown_inner_def act_bind_def act_then_def act_propagate_def
            slot_capabilities_eq release_endpoint_def)
    qed
  next
    case False
    then have t2: "t = 2" using t by (simp add: valid_task_def)
    then show ?thesis
      using ex prof c(1) runtime_inv_validate [OF inv']
      by (simp add: begin_teardown_inner_def act_bind_def act_then_def act_propagate_def
          slot_capabilities_eq release_endpoint_def coop_released_def Let_def)
  qed
qed


text \<open>Supervised teardown, first phase.\<close>

definition closing_broker :: "ApprovalBroker \<Rightarrow> ApprovalBroker" where
  "closing_broker b =
     (clear_request b)\<lparr>ab_state := Broker_Closing, ab_supervisor_task_id := 0, ab_supervisor_generation := 0\<rparr>"

definition orphaned_broker :: "Runtime \<Rightarrow> ApprovalBroker" where
  "orphaned_broker r =
     (let broker = clear_request (rt_broker r);
          broker =
            (if \<not> (ab_state broker = Broker_Closing \<or> ab_state broker = Broker_Dead)
             then broker\<lparr>ab_state := (if ts_state (rt_task0 r) = TaskState_Dead then Broker_Closing
                                       else Broker_Empty)\<rparr>
             else broker)
      in broker\<lparr>ab_workload_task_id := 0, ab_workload_generation := 0\<rparr>)"

definition terminal_status :: "Runtime \<Rightarrow> TrapStatus" where
  "terminal_status r =
     (case ab_state (rt_broker r) of
        Broker_Pending \<Rightarrow> Status_ApprovalDenied
      | Broker_Approved \<Rightarrow> Status_ApprovalExpired
      | _ \<Rightarrow> Status_BrokerUnavailable)"

definition sup_released :: "u64 \<Rightarrow> Runtime \<Rightarrow> Runtime" where
  "sup_released t r =
     (if t = SENDER_TASK_ID then
        (let r1 = (if ts_state (rt_task1 r) = TaskState_BlockedApproval
                   then woken (terminal_status r) 0 r else r)
         in r1\<lparr>rt_broker := closing_broker (rt_broker r), rt_effect := SyntheticEffect_EMPTY,
               rt_task0 := (rt_task0 r)\<lparr>ts_capabilities := closing_table (ts_capabilities (rt_task0 r))\<rparr>\<rparr>)
      else
        r\<lparr>rt_manifest := ManifestPublication_EMPTY, rt_broker := orphaned_broker r,
          rt_task1 := (rt_task1 r)\<lparr>ts_capabilities := closing_table (ts_capabilities (rt_task1 r))\<rparr>\<rparr>)"

lemma closing_broker_inv:
  assumes "broker_inv b"
  shows "broker_inv (closing_broker b)" "ab_state (closing_broker b) = Broker_Closing"
proof -
  show "ab_state (closing_broker b) = Broker_Closing" by (simp add: closing_broker_def)
  show "broker_inv (closing_broker b)"
    using assms by (simp add: broker_inv_def closing_broker_def clear_request_def request_cleared_def ApprovalBroker_DEAD_def)
qed

lemma orphaned_broker_inv:
  assumes "broker_inv (rt_broker r)" "ts_state (rt_task0 r) \<noteq> TaskState_Dead"
    and "ab_state (rt_broker r) \<noteq> Broker_Pending" "ab_state (rt_broker r) \<noteq> Broker_Approved"
  shows "broker_inv (orphaned_broker r)" "ab_state (orphaned_broker r) = ab_state (rt_broker r)"
  using assms
  by (cases "ab_state (rt_broker r)";
      simp add: broker_inv_def orphaned_broker_def clear_request_def request_cleared_def ApprovalBroker_DEAD_def Let_def)+

lemma orphaned_broker_dead:
  "rt_broker r = ApprovalBroker_DEAD \<Longrightarrow> orphaned_broker r = ApprovalBroker_DEAD"
  by (simp add: orphaned_broker_def clear_request_def ApprovalBroker_DEAD_def Let_def)

lemma sup_released_core:
  assumes sup: "sup_core r" and t: "valid_task t" and ex: "task_state r t = TaskState_Exited"
    and live: "ct_state (ts_capabilities (task_slot r t)) = Cap_Live"
  shows "sup_core (sup_released t r)"
proof -
  note d = sup_coreD [OF sup]
  show ?thesis
  proof (cases "t = SENDER_TASK_ID")
    case True
    then have e: "ts_state (rt_task0 r) = TaskState_Exited" "ct_state (ts_capabilities (rt_task0 r)) = Cap_Live"
      using ex live by simp_all
    have ok: "table_ok (ts_capabilities (rt_task0 r))" using d(1) by (simp add: slot_inv_def)
    note c = closing_table [OF ok e(2)] and sc = slot_inv_closing [OF d(1) e]
    have nd: "ts_state (rt_task0 r) \<noteq> TaskState_Dead" using e(1) by simp
    note b = closing_broker_inv [OF d(3) [OF nd]]
    show ?thesis
    proof (cases "ts_state (rt_task1 r) = TaskState_BlockedApproval")
      case bl: True
      have live1: "ct_state (ts_capabilities (rt_task1 r)) = Cap_Live"
        using slot_inv_table_state(1) [OF d(2)] bl by simp
      note sw = slot_inv_woken [OF d(2) live1, of "terminal_status r" 0]
      show ?thesis
        using sup True bl e c sc sw b live1
        by (simp add: sup_released_def woken_def sup_core_def slots_inv_def Let_def)
    next
      case False
      then show ?thesis
        using sup True e c sc d(2) b by (simp add: sup_released_def sup_core_def slots_inv_def Let_def)
    qed
  next
    case False
    then have t2: "t = 2" using t by (simp add: valid_task_def)
    then have e: "ts_state (rt_task1 r) = TaskState_Exited" "ct_state (ts_capabilities (rt_task1 r)) = Cap_Live"
      using ex live by simp_all
    have ok: "table_ok (ts_capabilities (rt_task1 r))" using d(2) by (simp add: slot_inv_def)
    note c = closing_table [OF ok e(2)] and sc = slot_inv_closing [OF d(2) e]
    have nb: "ab_state (rt_broker r) \<noteq> Broker_Pending" "ab_state (rt_broker r) \<noteq> Broker_Approved"
      using d(5) e(1) by auto
    show ?thesis
    proof (cases "ts_state (rt_task0 r) = TaskState_Dead")
      case True
      then show ?thesis
        using sup t2 e c sc d(1) orphaned_broker_dead [OF d(4) [OF True]] d(4) [OF True]
        by (simp add: sup_released_def sup_core_def slots_inv_def)
    next
      case nd: False
      note ob = orphaned_broker_inv [OF d(3) [OF nd] nd nb]
      show ?thesis
        using sup t2 e c sc d(1) nd nb ob by (simp add: sup_released_def sup_core_def slots_inv_def)
    qed
  qed
qed

lemma sched_frame:
  assumes "ts_state (rt_task0 r') = ts_state (rt_task0 r)" "ts_state (rt_task1 r') = ts_state (rt_task1 r)"
    and "rt_queue r' = rt_queue r"
  shows "sched_inv r' = sched_inv r"
  using assms by (simp add: sched_inv_def queue_inv_def ready_set_def)

lemma sup_released_sched:
  assumes "sched_inv r" "valid_task t" "task_state r t = TaskState_Exited"
  shows "sched_inv (sup_released t r)"
proof (cases "t = SENDER_TASK_ID \<and> ts_state (rt_task1 r) = TaskState_BlockedApproval")
  case True
  have "sched_inv (woken (terminal_status r) 0 r)" using True assms(3) by (intro woken_sched_idle) simp
  moreover have "sched_inv (sup_released t r) = sched_inv (woken (terminal_status r) 0 r)"
    by (rule sched_frame) (use True in \<open>simp_all add: sup_released_def woken_def Let_def\<close>)
  ultimately show ?thesis by simp
next
  case False
  have "sched_inv (sup_released t r) = sched_inv r"
    by (rule sched_frame) (use False in \<open>auto simp: sup_released_def Let_def\<close>)
  with assms(1) show ?thesis by simp
qed

lemma sup_released_states:
  assumes "valid_task t" "task_state r t = TaskState_Exited" "sup_core r"
  shows "task_state (sup_released t r) t = TaskState_Exited"
    "task_state (sup_released t r) (other t) = unblocked (task_state r (other t))"
    "ct_state (ts_capabilities (task_slot (sup_released t r) t)) =
       ct_state (closing_table (ts_capabilities (task_slot r t)))"
proof -
  have "ts_state (rt_task0 r) \<noteq> TaskState_BlockedReceive" "ts_state (rt_task0 r) \<noteq> TaskState_BlockedApproval"
    "ts_state (rt_task1 r) \<noteq> TaskState_BlockedReceive"
    using assms(3) sup_coreD(8) [OF assms(3)] by (auto simp: sup_core_def)
  then show "task_state (sup_released t r) t = TaskState_Exited"
    "task_state (sup_released t r) (other t) = unblocked (task_state r (other t))"
    "ct_state (ts_capabilities (task_slot (sup_released t r) t)) =
       ct_state (closing_table (ts_capabilities (task_slot r t)))"
    using assms(1,2) by (auto simp: valid_task_def sup_released_def woken_def unblocked_def Let_def)
qed

lemma release_supervisor_eq:
  assumes sched: "sched_inv r" and ex: "ts_state (rt_task0 r) = TaskState_Exited"
    and r1_def: "r1 = r\<lparr>rt_task0 := (rt_task0 r)\<lparr>ts_capabilities := c\<rparr>\<rparr>"
  shows "release_supervised 1 r1 =
    (Inr (), (if ts_state (rt_task1 r) = TaskState_BlockedApproval then woken (terminal_status r) 0 r1 else r1)
       \<lparr>rt_broker := closing_broker (rt_broker r), rt_effect := SyntheticEffect_EMPTY\<rparr>)"
proof (cases "ts_state (rt_task1 r) = TaskState_BlockedApproval")
  case True
  have q: "rt_queue r = queue_of []" using empty_queue [OF sched] ex True by simp
  have ts: "terminal_status r1 = terminal_status r" by (simp add: terminal_status_def r1_def)
  have w: "wake_workload (terminal_status r) 0 r1 = (Inr (), woken (terminal_status r) 0 r1)"
    by (rule wake_workload_eq) (use True q in \<open>simp_all add: r1_def\<close>)
  then show ?thesis
    using True ts
    by (simp add: release_supervised_def act_then_def act_bind_def closing_broker_def r1_def flip: terminal_status_def)
      (simp add: woken_def)
next
  case False
  then show ?thesis
    by (simp add: release_supervised_def act_then_def act_bind_def closing_broker_def r1_def)
qed

text \<open>The first phase needs no more of the broker than that the state it leaves is valid.\<close>

lemma begin_teardown_sup_eq:
  assumes prof: "rt_profile r = Profile_Supervised" and sched: "sched_inv r" and t: "valid_task t"
    and ex: "task_state r t = TaskState_Exited" and live: "ct_state (ts_capabilities (task_slot r t)) = Cap_Live"
    and ok: "table_ok (ts_capabilities (task_slot r t))" and v: "runtime_validate (sup_released t r) = Inr ()"
  shows "begin_teardown_inner t r = (Inr (), sup_released t r)"
proof (cases "t = SENDER_TASK_ID")
  case True
  note c = closing_table [OF ok live]
  let ?c = "(ts_capabilities (rt_task0 r))\<lparr>ct_state := Cap_Closing\<rparr>"
  let ?r1 = "r\<lparr>rt_task0 := (rt_task0 r)\<lparr>ts_capabilities := ?c\<rparr>\<rparr>"
  let ?r2 = "(if ts_state (rt_task1 r) = TaskState_BlockedApproval then woken (terminal_status r) 0 ?r1 else ?r1)
      \<lparr>rt_broker := closing_broker (rt_broker r), rt_effect := SyntheticEffect_EMPTY\<rparr>"
  have "release_supervised 1 ?r1 = (Inr (), ?r2)" using release_supervisor_eq [OF sched _ refl, of ?c] ex True by simp
  moreover have "?r2\<lparr>rt_task0 := (rt_task0 ?r2)\<lparr>ts_capabilities := closing_table (ts_capabilities (rt_task0 r))\<rparr>\<rparr> =
      sup_released t r" using True by (simp add: sup_released_def woken_def Let_def)
  moreover have "ts_capabilities (rt_task0 ?r2) = ?c" by (simp add: woken_def)
  ultimately show ?thesis
    using True ex prof c(6,7) v
    by (simp add: begin_teardown_inner_def act_bind_def act_then_def act_propagate_def slot_capabilities_eq)
next
  case False
  note c = closing_table [OF ok live]
  from False have t2: "t = 2" using t by (simp add: valid_task_def)
  let ?r1 = "r\<lparr>rt_task1 := (rt_task1 r)\<lparr>ts_capabilities := (ts_capabilities (rt_task1 r))\<lparr>ct_state := Cap_Closing\<rparr>\<rparr>\<rparr>"
  have "release_supervised 2 ?r1 =
      (Inr (), ?r1\<lparr>rt_manifest := ManifestPublication_EMPTY, rt_broker := orphaned_broker r\<rparr>)"
    by (simp add: release_supervised_def orphaned_broker_def Let_def)
  moreover have "sup_released t r = r\<lparr>rt_manifest := ManifestPublication_EMPTY, rt_broker := orphaned_broker r,
        rt_task1 := (rt_task1 r)\<lparr>ts_capabilities := closing_table (ts_capabilities (rt_task1 r))\<rparr>\<rparr>"
    using t2 by (simp add: sup_released_def)
  ultimately show ?thesis
    using t2 ex prof c(6,7) v
    by (simp add: begin_teardown_inner_def act_bind_def act_then_def act_propagate_def slot_capabilities_eq)
qed

lemma begin_teardown_sup:
  assumes inv: "runtime_inv r" and sup: "sup_core r" and t: "valid_task t"
    and ex: "task_state r t = TaskState_Exited" and live: "ct_state (ts_capabilities (task_slot r t)) = Cap_Live"
  shows "begin_teardown_inner t r = (Inr (), sup_released t r)" "runtime_inv (sup_released t r)"
proof -
  have sched: "sched_inv r" and core: "core r" using inv by (simp_all add: runtime_inv_core)
  show inv': "runtime_inv (sup_released t r)"
    using sup_released_core [OF sup t ex live] sup_released_sched [OF sched t ex] by (simp add: runtime_inv_def)
  have "table_ok (ts_capabilities (task_slot r t))" using core_slot_inv [OF core t] by (simp add: slot_inv_def)
  then show "begin_teardown_inner t r = (Inr (), sup_released t r)"
    using sup by (intro begin_teardown_sup_eq [OF _ sched t ex live _ runtime_inv_validate [OF inv']])
      (simp_all add: sup_core_def)
qed


section \<open>Reclamation\<close>

definition dead_slot :: "TaskSlot \<Rightarrow> TaskSlot" where
  "dead_slot s = s\<lparr>ts_capabilities := table_dead, ts_state := TaskState_Dead, ts_generation := 0,
     ts_context := context_clear_dead (ts_context s)\<rparr>"

definition reclaimed :: "u64 \<Rightarrow> Runtime \<Rightarrow> Runtime" where
  "reclaimed t r =
     (let r1 = upd t dead_slot r;
          r2 = (if rt_profile r = Profile_Supervised \<and> t = SENDER_TASK_ID
                then r1\<lparr>rt_broker := ApprovalBroker_DEAD, rt_effect := SyntheticEffect_EMPTY\<rparr> else r1)
      in if task_state r (other t) = TaskState_Dead
         then r2\<lparr>rt_endpoint := EMPTY_ENDPOINT, rt_manifest := ManifestPublication_EMPTY,
                rt_broker := ApprovalBroker_DEAD, rt_effect := SyntheticEffect_EMPTY\<rparr>
         else r2)"

lemma finish_dead_eq:
  assumes "table_ok c" "ct_state c = Cap_Closing"
  shows "finish_dead c = (Inr (), table_dead)"
  using assms by (auto simp: finish_dead_def table_ok_def table_validate_def split: if_splits)

lemma dead_slot_simps [simp]:
  "ts_state (dead_slot s) = TaskState_Dead" "ts_generation (dead_slot s) = 0"
  "ts_capabilities (dead_slot s) = table_dead" "ct_state table_dead = Cap_Dead"
  by (simp_all add: dead_slot_def table_dead_def)

lemma slot_inv_dead: "slot_inv i s \<Longrightarrow> slot_inv i (dead_slot s)"
  by (simp add: slot_inv_def dead_slot_def context_clear_dead_def context_initial_def)

lemma rights_within_dead [simp]: "rights_within limit table_dead"
  by (auto simp: rights_within_def live_entry_def table_dead_def CapabilitySlot_EMPTY_def
      dest!: handle_decode_SomeD split: option.splits prod.splits)

lemma reclaimed_coop:
  assumes coop: "coop_core r" and t: "valid_task t" and ex: "task_state r t = TaskState_Exited"
    and closing: "ct_state (ts_capabilities (task_slot r t)) = Cap_Closing"
  shows "coop_core (reclaimed t r)"
proof -
  have s: "slot_inv 1 (rt_task0 r)" "slot_inv 2 (rt_task1 r)" and ep: "endpoint_inv r"
    using coop by (simp_all add: coop_core_def slots_inv_def)
  note d = slot_inv_dead [OF s(1)] slot_inv_dead [OF s(2)]
  note t0 = slot_inv_table_state(2) [OF s(1)] and t1 = slot_inv_table_state(2) [OF s(2)]
  consider "t = 1" | "t = 2" using t by (auto simp: valid_task_def)
  then show ?thesis
  proof cases
    case 1
    then show ?thesis
      using coop s d ep ex closing t1
      by (cases "ts_state (rt_task1 r) = TaskState_Dead")
        (simp_all add: reclaimed_def coop_core_def slots_inv_def endpoint_inv_def EMPTY_ENDPOINT_def Let_def, blast)
  next
    case 2
    then show ?thesis
      using coop s d ep ex closing t0
      by (cases "ts_state (rt_task0 r) = TaskState_Dead")
        (simp_all add: reclaimed_def coop_core_def slots_inv_def endpoint_inv_def EMPTY_ENDPOINT_def Let_def)
  qed
qed

lemma reclaimed_sup:
  assumes sup: "sup_core r" and t: "valid_task t" and ex: "task_state r t = TaskState_Exited"
    and closing: "ct_state (ts_capabilities (task_slot r t)) = Cap_Closing"
  shows "sup_core (reclaimed t r)"
proof -
  note c = sup_coreD [OF sup]
  note d = slot_inv_dead [OF c(1)] slot_inv_dead [OF c(2)]
  note t0 = slot_inv_table_state(2) [OF c(1)] and t1 = slot_inv_table_state(2) [OF c(2)]
  have dead: "ab_state ApprovalBroker_DEAD = Broker_Dead" by (simp add: ApprovalBroker_DEAD_def)
  consider "t = 1" | "t = 2" using t by (auto simp: valid_task_def)
  then show ?thesis
  proof cases
    case 1
    then have "ab_state (rt_broker r) = Broker_Closing" using sup closing by (simp add: sup_core_def)
    then show ?thesis
      using 1 sup c(1,2) d ex closing t1 dead
      by (cases "ts_state (rt_task1 r) = TaskState_Dead")
        (simp_all add: reclaimed_def sup_core_def slots_inv_def Let_def)
  next
    case 2
    then show ?thesis
      using sup c(1,2) d ex closing t0 dead
      by (cases "ts_state (rt_task0 r) = TaskState_Dead")
        (simp_all add: reclaimed_def sup_core_def slots_inv_def Let_def)
  qed
qed

lemma reclaimed_states:
  assumes "valid_task t"
  shows "task_state (reclaimed t r) t = TaskState_Dead"
    "task_state (reclaimed t r) (other t) = task_state r (other t)"
    "rt_queue (reclaimed t r) = rt_queue r"
  using assms by (auto simp: valid_task_def reclaimed_def Let_def)

lemma reclaimed_inv:
  assumes inv: "runtime_inv r" and t: "valid_task t" and ex: "task_state r t = TaskState_Exited"
    and closing: "ct_state (ts_capabilities (task_slot r t)) = Cap_Closing"
  shows "runtime_inv (reclaimed t r)"
proof -
  have "core r" "sched_inv r" using inv by (simp_all add: runtime_inv_core)
  then have "core (reclaimed t r)"
    using reclaimed_coop [OF _ t ex closing] reclaimed_sup [OF _ t ex closing] by (auto simp: core_def)
  moreover have "sched_inv (reclaimed t r)"
    using \<open>sched_inv r\<close> t ex reclaimed_states [OF t, of r]
    by (auto simp: valid_task_def sched_inv_def queue_inv_def ready_set_def)
  ultimately show ?thesis by (simp add: runtime_inv_core)
qed

lemma complete_teardown_inner_eq:
  assumes inv: "runtime_inv r" and t: "valid_task t" and ex: "task_state r t = TaskState_Exited"
    and closing: "ct_state (ts_capabilities (task_slot r t)) = Cap_Closing"
  shows "complete_teardown_inner t r = dispatch_next (reclaimed t r)"
proof -
  have "slot_inv t (task_slot r t)" using inv t core_slot_inv by (simp add: runtime_inv_core)
  then have fd: "finish_dead (ts_capabilities (task_slot r t)) = (Inr (), table_dead)"
    using closing finish_dead_eq by (simp add: slot_inv_def)
  have v: "runtime_validate (reclaimed t r) = Inr ()"
    by (rule runtime_inv_validate [OF reclaimed_inv [OF assms]])
  have "t = 1 \<or> t = 2" using t by (auto simp: valid_task_def)
  with ex closing fd v show ?thesis
    by (cases "rt_profile r"; cases "task_state r (other t) = TaskState_Dead"; elim disjE)
      (simp_all add: complete_teardown_inner_def act_bind_def act_then_def act_propagate_def
        slot_capabilities_eq reclaimed_def dead_slot_def rt_tasks_def Let_def)
qed

text \<open>Dispatch from any invariant state.\<close>

lemma dispatch_next_cases:
  assumes inv: "runtime_inv r" and d: "dispatch_next r = (x, r')"
  obtains (busy) "x = Inl Err_WrongState" "r' = r" "task_state r 1 = TaskState_Running \<or> task_state r 2 = TaskState_Running"
    | (all_dead) "x = Inr None" "r' = r" "task_state r 1 = TaskState_Dead" "task_state r 2 = TaskState_Dead"
    | (none) "x = Inl Err_NoRunnableTask" "r' = r" "ready_set r = {}"
    | (runs) t ts where "x = Inr (Some t)" "r' = dispatched t ts r" "rt_queue r = queue_of (t # ts)"
        "valid_task t" "task_state r t = TaskState_Ready" "runtime_inv r'"
proof (cases "task_state r 1 = TaskState_Running \<or> task_state r 2 = TaskState_Running")
  case True
  then have "dispatch_next r = (Inl Err_WrongState, r)" by (auto simp: dispatch_next_def rt_tasks_def)
  with d True busy show ?thesis by simp
next
  case False
  then have nr: "task_state r 1 \<noteq> TaskState_Running" "task_state r 2 \<noteq> TaskState_Running" by auto
  have core: "core r" using inv by (simp add: runtime_inv_core)
  obtain xs where xs: "rt_queue r = queue_of xs" "distinct xs" "set xs = ready_set r"
    using inv by (auto simp: runtime_inv_core sched_inv_def queue_inv_def)
  show ?thesis
  proof (cases xs)
    case Nil
    then show ?thesis
      using dispatch_empty [OF nr] xs d all_dead none
      by (cases "task_state r 1 = TaskState_Dead \<and> task_state r 2 = TaskState_Dead") auto
  next
    case (Cons t ts)
    have "t \<in> ready_set r" using xs Cons by auto
    then show ?thesis
      using dispatch_next_eq [OF core nr, of t ts] dispatched_inv [OF core nr, of t ts] xs Cons d runs [of t ts]
      by (auto simp: ready_member)
  qed
qed

lemma dispatch_next_inv: "runtime_inv r \<Longrightarrow> runtime_inv (snd (dispatch_next r))"
  by (cases "dispatch_next r") (auto elim: dispatch_next_cases)

text \<open>The kernel hands the validated root of the running task to \<open>capture_trap\<close>, which is not zero.\<close>

lemma core_context:
  assumes core: "core r" and t: "valid_task t" and s: "slot_inv t ((task_slot r t)\<lparr>ts_context := c\<rparr>)"
  shows "core (upd t (\<lambda>s. s\<lparr>ts_context := c\<rparr>) r)"
proof -
  have coop: "coop_core (upd t (\<lambda>s. s\<lparr>ts_context := c\<rparr>) r)" if "coop_core r"
    using that t s
    by (cases "t = 1") (simp_all add: valid_task_def coop_core_def slots_inv_def endpoint_inv_def Let_def)
  have "sup_core (upd t (\<lambda>s. s\<lparr>ts_context := c\<rparr>) r)" if "sup_core r"
    using that t s by (cases "t = 1") (simp_all add: valid_task_def sup_core_def slots_inv_def)
  with coop core show ?thesis unfolding core_def by blast
qed

lemma capture_trap_eq:
  "capture_trap t frame root g r =
     (if \<not> valid_task t then (Inl Err_InvalidTask, r)
      else if task_state r t \<noteq> TaskState_Running \<or> ts_generation (task_slot r t) \<noteq> g
      then (Inl Err_WrongState, r)
      else (Inr (), upd t (\<lambda>s. s\<lparr>ts_context := from_trap frame t g root\<rparr>) r))"
  by (cases "valid_task t") (simp_all add: capture_trap_def act_bind_def, simp add: slot_def valid_task_def)

lemma capture_trap_inv:
  assumes "runtime_inv r" "root \<noteq> 0"
  shows "runtime_inv (snd (capture_trap t frame root g r))"
proof (cases "valid_task t \<and> task_state r t = TaskState_Running \<and> ts_generation (task_slot r t) = g")
  case True
  have core: "core r" "sched_inv r" using assms(1) by (simp_all add: runtime_inv_core)
  then have "slot_inv t ((task_slot r t)\<lparr>ts_context := from_trap frame t g root\<rparr>)"
    using core_slot_inv [of r t] True assms(2) by (simp add: slot_inv_def from_trap_def)
  then show ?thesis
    using True core core_context [OF core(1)] by (simp add: capture_trap_eq runtime_inv_core sched_upd_same)
next
  case False
  with assms show ?thesis by (auto simp: capture_trap_eq)
qed

end
