(* ===== verification/Runtime_Construct.thy ===== *)
theory Runtime_Construct
  imports Runtime_Teardown
begin

text \<open>
  Construction of both runtime profiles: the tables that publication builds, the published runtimes in
  closed form, and the rollback of a failed publication.
\<close>


section \<open>Tables under construction\<close>

definition filled_slot :: "CapabilityEntry \<Rightarrow> CapabilitySlot" where
  "filled_slot e = CapabilitySlot_EMPTY\<lparr>cs_entry := Some e\<rparr>"

definition table_of :: "CapabilityTableState \<Rightarrow> u64 \<Rightarrow> u64 \<Rightarrow> CapabilityEntry list \<Rightarrow> CapabilityTable" where
  "table_of st task g es =
     \<lparr>ct_task_id = task, ct_task_generation = g, ct_state = st,
      ct_slots = map filled_slot es @ replicate (CAPABILITY_SLOT_COUNT - length es) CapabilitySlot_EMPTY\<rparr>"

lemma table_building_of: "table_building task g = table_of Cap_Building task g []"
  by (simp add: table_building_def table_of_def)

lemma table_of_simps [simp]:
  "ct_state (table_of st task g es) = st" "ct_task_id (table_of st task g es) = task"
  "ct_task_generation (table_of st task g es) = g"
  by (simp_all add: table_of_def)

lemma position_append:
  "position p (xs @ ys) = (case position p xs of None \<Rightarrow> map_option (\<lambda>i. length xs + i) (position p ys) | Some i \<Rightarrow> Some i)"
  by (induction xs; cases "position p ys") (auto split: option.splits)

lemma position_filled: "position slot_available (map filled_slot es) = None"
  by (simp add: position_None_iff slot_available_def filled_slot_def)

lemma position_table_of:
  assumes "length es < 16"
  shows "position slot_available (ct_slots (table_of st task g es)) = Some (length es)"
proof -
  obtain k where "16 - length es = Suc k" using assms by (metis Suc_diff_Suc)
  then show ?thesis
    by (simp add: table_of_def position_append position_filled)
      (simp add: slot_available_def CapabilitySlot_EMPTY_def)
qed

lemma slots_table_of:
  assumes "length es < 16"
  shows "ct_slots (table_of st task g es) ! length es = CapabilitySlot_EMPTY"
    and "(table_of st task g es)\<lparr>ct_slots := (ct_slots (table_of st task g es))[length es := filled_slot e]\<rparr>
         = table_of st task g (es @ [e])"
proof -
  obtain k where k: "16 - length es = Suc k" "16 - Suc (length es) = k" using assms by (metis Suc_diff_Suc diff_Suc_1 diff_Suc_eq_diff_pred diff_commute One_nat_def)
  then show "ct_slots (table_of st task g es) ! length es = CapabilitySlot_EMPTY"
    by (simp add: table_of_def nth_append)
  show "(table_of st task g es)\<lparr>ct_slots := (ct_slots (table_of st task g es))[length es := filled_slot e]\<rparr>
         = table_of st task g (es @ [e])"
    using k by (simp add: table_of_def list_update_append)
qed

lemma from_parts_first: "i < 16 \<Longrightarrow> \<exists>h. from_parts i 1 = Some h"
  by (simp add: from_parts_def CAPABILITY_GENERATION_MAX_def)

definition entry_for :: "u64 \<Rightarrow> u64 \<Rightarrow> u32 \<Rightarrow> ObjectReference \<Rightarrow> u64 \<Rightarrow> CapabilityEntry" where
  "entry_for task g ty obj rights =
     \<lparr>ce_task_id = task, ce_task_generation = g, ce_object_type = ty, ce_rights = rights, ce_object = obj\<rparr>"

lemma install_table_of:
  assumes "length es < 16" "valid_rights ty rights" "task \<noteq> 0" "g \<noteq> 0" "or_id obj \<noteq> 0" "or_generation obj \<noteq> 0"
  shows "install_object_building ty obj rights (table_of Cap_Building task g es) =
    (Inr (the (from_parts (length es) 1)), table_of Cap_Building task g (es @ [entry_for task g ty obj rights]))"
proof -
  obtain h where h: "from_parts (length es) 1 = Some h" using from_parts_first assms(1) by auto
  note s = slots_table_of [OF assms(1)]
  have "CapabilitySlot_EMPTY\<lparr>cs_entry := Some e\<rparr> = filled_slot e" for e by (simp add: filled_slot_def)
  moreover have "cs_generation CapabilitySlot_EMPTY = 1" by (simp add: CapabilitySlot_EMPTY_def)
  ultimately show ?thesis
    using assms(2-) s h
    by (simp add: install_object_building_def table_allocate_def position_table_of [OF assms(1)] entry_for_def)
qed

lemma publish_table_of:
  "table_publish (table_of Cap_Building task g es) = (Inr (), table_of Cap_Live task g es)"
  by (simp add: table_publish_def) (simp add: table_of_def)

lemma table_of_entries: "live_entry (table_of st task g es) raw = Some e \<Longrightarrow> e \<in> set es"
  by (auto simp: live_entry_def table_of_def nth_append filled_slot_def CapabilitySlot_EMPTY_def
      split: option.splits prod.splits if_splits dest!: handle_decode_SomeD)

lemma table_of_ok:
  assumes "length es \<le> 16" "task \<noteq> 0" "g \<noteq> 0" "st = Cap_Building \<or> st = Cap_Live"
    and "\<forall>e \<in> set es. ce_task_id e = task \<and> ce_task_generation e = g \<and> ce_object_type e \<noteq> 0
          \<and> valid_rights (ce_object_type e) (ce_rights e) \<and> or_id (ce_object e) \<noteq> 0
          \<and> or_generation (ce_object e) \<noteq> 0"
  shows "table_ok (table_of st task g es)"
  using assms
  by (auto simp: table_ok_def table_shape_def table_validate_def table_of_def slot_invalid_def filled_slot_def
      CapabilitySlot_EMPTY_def CAPABILITY_GENERATION_MAX_def)


section \<open>Publication\<close>

text \<open>Whatever was installed, a rolled back publication leaves two reclaimed slots.\<close>

lemma fold_rollback_frame:
  "let r' = fold (\<lambda>(task, handle) r. snd (slot_mut task
       (\<lambda>s. s\<lparr>ts_capabilities := rollback_install handle (ts_capabilities s)\<rparr>) r)) hs r
   in rt_profile r' = rt_profile r \<and> ts_id (rt_task0 r') = ts_id (rt_task0 r)
      \<and> ts_id (rt_task1 r') = ts_id (rt_task1 r)"
  by (induction hs arbitrary: r) (auto simp: Let_def slot_mut_def split: prod.splits)

lemma fold_rollback_supervisor_frame:
  "let r' = fold (\<lambda>handle r. r\<lparr>rt_task0 := (rt_task0 r)\<lparr>ts_capabilities :=
        rollback_install handle (ts_capabilities (rt_task0 r))\<rparr>\<rparr>) hs r
   in rt_profile r' = rt_profile r \<and> rt_endpoint r' = rt_endpoint r
      \<and> ts_id (rt_task0 r') = ts_id (rt_task0 r) \<and> rt_task1 r' = rt_task1 r"
  by (induction hs arbitrary: r) (auto simp: Let_def)

lemma slot_inv_clear_dead: "ts_id s = i \<Longrightarrow> slot_inv i (slot_clear_dead s)"
  by (simp add: slot_inv_def slot_clear_dead_def context_clear_dead_def context_initial_def table_ok_dead)

lemma dead_sched:
  "ts_state (rt_task0 r) = TaskState_Dead \<Longrightarrow> ts_state (rt_task1 r) = TaskState_Dead \<Longrightarrow>
   rt_queue r = queue_of [] \<Longrightarrow> sched_inv r"
  by (simp add: sched_inv_def queue_inv_def ready_set_def)

lemma slot_clear_dead_simps [simp]:
  "ts_state (slot_clear_dead s) = TaskState_Dead" "ts_capabilities (slot_clear_dead s) = table_dead"
  "ts_generation (slot_clear_dead s) = 0"
  by (simp_all add: slot_clear_dead_def)

lemma rollback_publication_inv:
  assumes "rt_profile r = Profile_Cooperative" "ts_id (rt_task0 r) = 1" "ts_id (rt_task1 r) = 2"
  shows "runtime_inv (rollback_publication installed r)"
    "task_state (rollback_publication installed r) 1 = TaskState_Dead"
    "task_state (rollback_publication installed r) 2 = TaskState_Dead"
proof -
  have "coop_core (rollback_publication installed r)" "sched_inv (rollback_publication installed r)"
    using assms fold_rollback_frame [of "rev installed" r]
    by (auto simp: rollback_publication_def Let_def coop_core_def slots_inv_def slot_inv_clear_dead
        endpoint_inv_def EMPTY_ENDPOINT_def queue_new_of intro: dead_sched)
  then show "runtime_inv (rollback_publication installed r)" by (simp add: runtime_inv_def)
  show "task_state (rollback_publication installed r) 1 = TaskState_Dead"
    "task_state (rollback_publication installed r) 2 = TaskState_Dead"
    by (simp_all add: rollback_publication_def Let_def)
qed

lemma rollback_supervisor_publication_inv:
  assumes "rt_profile r = Profile_Supervised" "ts_id (rt_task0 r) = 1" "ts_id (rt_task1 r) = 2"
    "rt_endpoint r = EMPTY_ENDPOINT"
  shows "runtime_inv (rollback_supervisor_publication installed r)"
    "task_state (rollback_supervisor_publication installed r) 1 = TaskState_Dead"
    "task_state (rollback_supervisor_publication installed r) 2 = TaskState_Dead"
proof -
  have "sup_core (rollback_supervisor_publication installed r)"
    "sched_inv (rollback_supervisor_publication installed r)"
    using assms fold_rollback_supervisor_frame [of "rev installed" r]
    by (auto simp: rollback_supervisor_publication_def Let_def sup_core_def slots_inv_def slot_inv_clear_dead
        ApprovalBroker_DEAD_def queue_new_of intro: dead_sched)
  then show "runtime_inv (rollback_supervisor_publication installed r)" by (simp add: runtime_inv_def)
  show "task_state (rollback_supervisor_publication installed r) 1 = TaskState_Dead"
    "task_state (rollback_supervisor_publication installed r) 2 = TaskState_Dead"
    by (simp_all add: rollback_supervisor_publication_def Let_def)
qed

text \<open>The runtime both publications lead to.\<close>

definition endpoint_ref :: ObjectReference where
  "endpoint_ref = \<lparr>or_id = ENDPOINT_ID, or_generation = ENDPOINT_GENERATION\<rparr>"

definition sender_entry :: "u64 \<Rightarrow> CapabilityEntry" where
  "sender_entry g = entry_for SENDER_TASK_ID g OBJECT_TYPE_ENDPOINT endpoint_ref
     (CAPABILITY_RIGHT_SEND OR CAPABILITY_RIGHT_DUPLICATE)"

definition receiver_entry :: "u64 \<Rightarrow> CapabilityEntry" where
  "receiver_entry g = entry_for RECEIVER_TASK_ID g OBJECT_TYPE_ENDPOINT endpoint_ref CAPABILITY_RIGHT_RECEIVE"

definition published_coop :: "TaskContextV1 \<Rightarrow> TaskContextV1 \<Rightarrow> Runtime" where
  "published_coop s v =
     \<lparr>rt_profile = Profile_Cooperative,
      rt_task0 = \<lparr>ts_id = SENDER_TASK_ID, ts_generation = cx_generation s, ts_state = TaskState_Ready,
        ts_context = s, ts_capabilities = table_of Cap_Live SENDER_TASK_ID (cx_generation s) [sender_entry (cx_generation s)]\<rparr>,
      rt_task1 = \<lparr>ts_id = RECEIVER_TASK_ID, ts_generation = cx_generation v, ts_state = TaskState_Ready,
        ts_context = v, ts_capabilities = table_of Cap_Live RECEIVER_TASK_ID (cx_generation v) [receiver_entry (cx_generation v)]\<rparr>,
      rt_queue = queue_of [RECEIVER_TASK_ID, SENDER_TASK_ID],
      rt_endpoint = \<lparr>ep_object_generation = ENDPOINT_GENERATION, ep_sender_task = SENDER_TASK_ID,
        ep_sender_generation = cx_generation s, ep_receiver_task = RECEIVER_TASK_ID,
        ep_receiver_generation = cx_generation v, ep_occupied = False, ep_payload = 0\<rparr>,
      rt_manifest = ManifestPublication_EMPTY, rt_broker = ApprovalBroker_DEAD, rt_effect = SyntheticEffect_EMPTY\<rparr>"

lemma valid_endpoint_rights:
  "valid_rights OBJECT_TYPE_ENDPOINT (CAPABILITY_RIGHT_SEND OR CAPABILITY_RIGHT_DUPLICATE)"
  "valid_rights OBJECT_TYPE_ENDPOINT CAPABILITY_RIGHT_RECEIVE"
  by (simp_all add: valid_rights_def CAPABILITY_RIGHTS_V1_def)

lemma published_coop_inv:
  assumes "cx_task_id s = SENDER_TASK_ID" "cx_task_id v = RECEIVER_TASK_ID" "cx_generation s \<noteq> 0"
    "cx_generation v \<noteq> 0" "cx_root s \<noteq> 0" "cx_root v \<noteq> 0"
  shows "runtime_inv (published_coop s v)"
proof -
  have "table_ok (table_of Cap_Live 1 (cx_generation s) [sender_entry (cx_generation s)])"
    by (rule table_of_ok) (use assms valid_endpoint_rights in \<open>simp_all add: sender_entry_def entry_for_def endpoint_ref_def\<close>)
  moreover have "table_ok (table_of Cap_Live 2 (cx_generation v) [receiver_entry (cx_generation v)])"
    by (rule table_of_ok) (use assms valid_endpoint_rights in \<open>simp_all add: receiver_entry_def entry_for_def endpoint_ref_def\<close>)
  moreover have "rights_within 5 (table_of Cap_Live 1 (cx_generation s) [sender_entry (cx_generation s)])"
    by (auto simp: rights_within_def rights_subset_def sender_entry_def entry_for_def dest!: table_of_entries)
  ultimately have "coop_core (published_coop s v)"
    using assms by (simp add: published_coop_def coop_core_def slots_inv_def slot_inv_def endpoint_inv_def Let_def)
  moreover have "sched_inv (published_coop s v)"
    unfolding sched_inv_def queue_inv_def
    by (intro conjI exI [of _ "[2, 1]"]) (auto simp: published_coop_def ready_set_def)
  ultimately show ?thesis by (simp add: runtime_inv_def)
qed

lemma publish_initial_None:
  assumes "cx_generation s \<noteq> 0" "cx_generation v \<noteq> 0"
  shows "publish_initial None (unpublished s v) =
    (case runtime_validate (published_coop s v) of
       Inl e \<Rightarrow> (Inl e, rollback_publication [(1, the (from_parts 0 1)), (2, the (from_parts 0 1))] (published_coop s v))
     | Inr _ \<Rightarrow> (Inr (), published_coop s v))"
proof -
  have i1: "install_building 5 (table_of Cap_Building 1 (cx_generation s) []) =
      (Inr (the (from_parts 0 1)), table_of Cap_Building 1 (cx_generation s) [sender_entry (cx_generation s)])"
    using install_table_of [of "[]" OBJECT_TYPE_ENDPOINT 5 1 "cx_generation s" endpoint_ref] assms(1)
      valid_endpoint_rights
    by (simp add: install_building_def sender_entry_def endpoint_ref_def)
  have i2: "install_building 2 (table_of Cap_Building 2 (cx_generation v) []) =
      (Inr (the (from_parts 0 1)), table_of Cap_Building 2 (cx_generation v) [receiver_entry (cx_generation v)])"
    using install_table_of [of "[]" OBJECT_TYPE_ENDPOINT 2 2 "cx_generation v" endpoint_ref] assms(2)
      valid_endpoint_rights
    by (simp add: install_building_def receiver_entry_def endpoint_ref_def)
  show ?thesis
    using i1 i2
    by (simp add: publish_initial_def unpublished_def act_propagate_def slot_capabilities_eq act_bind_def
        act_then_def table_building_of publish_tables_def publish_table_of queue_push_action_def queue_new_of
        queue_push_of published_coop_def split: sum.splits)
qed


definition coop_frame :: "Runtime \<Rightarrow> bool" where
  "coop_frame r \<longleftrightarrow> rt_profile r = Profile_Cooperative \<and> ts_id (rt_task0 r) = 1 \<and> ts_id (rt_task1 r) = 2"

definition sup_frame :: "Runtime \<Rightarrow> bool" where
  "sup_frame r \<longleftrightarrow> rt_profile r = Profile_Supervised \<and> ts_id (rt_task0 r) = 1 \<and> ts_id (rt_task1 r) = 2
     \<and> rt_endpoint r = EMPTY_ENDPOINT"

text \<open>A failed publication: the slots are reclaimed and nothing is queued or published.\<close>

definition rolled_back :: "Runtime \<Rightarrow> bool" where
  "rolled_back r \<longleftrightarrow> runtime_inv r \<and> task_state r 1 = TaskState_Dead \<and> task_state r 2 = TaskState_Dead"

lemma rolled_back_coop: "coop_frame r \<Longrightarrow> rolled_back (rollback_publication installed r)"
  using rollback_publication_inv by (simp add: coop_frame_def rolled_back_def)

lemma rolled_back_sup: "sup_frame r \<Longrightarrow> rolled_back (rollback_supervisor_publication installed r)"
  using rollback_supervisor_publication_inv by (simp add: sup_frame_def rolled_back_def)

lemma slot_capabilities_frame:
  "slot_capabilities t f r = (x, r') \<Longrightarrow> coop_frame r \<Longrightarrow> coop_frame r'"
  by (auto simp: slot_capabilities_def slot_def slot_mut_def coop_frame_def split: prod.splits if_splits)

lemma propagate_frame:
  "act_propagate (slot_capabilities t f) r = (x, r') \<Longrightarrow> coop_frame r \<Longrightarrow> coop_frame r'"
  by (auto simp: act_propagate_def act_bind_def split: prod.splits sum.splits dest: slot_capabilities_frame)

lemma publish_installs_frame:
  "publish_installs f steps installed r = (x, r') \<Longrightarrow> coop_frame r \<Longrightarrow>
   (\<forall>e. x = Inl e \<longrightarrow> rolled_back r') \<and> (\<forall>hs. x = Inr hs \<longrightarrow> coop_frame r')"
proof (induction f steps installed r rule: publish_installs.induct)
  case (2 f step task rights rest installed r)
  show ?case
  proof (cases "act_propagate (slot_capabilities task (install_building rights)) r")
    case (Pair y r1)
    then have "coop_frame r1" using propagate_frame 2(3) by blast
    with 2 Pair rolled_back_coop show ?thesis by (cases y) (auto split: if_splits)
  qed
qed auto

lemma publish_tables_frame: "publish_tables r = (x, r') \<Longrightarrow> coop_frame r \<Longrightarrow> coop_frame r'"
  by (auto simp: publish_tables_def act_then_def act_bind_def split: prod.splits sum.splits dest: propagate_frame)

lemma queue_push_action_frame:
  "queue_push_action t r = (x, r') \<Longrightarrow> coop_frame r' = coop_frame r \<and> sup_frame r' = sup_frame r"
  by (auto simp: queue_push_action_def coop_frame_def sup_frame_def split: prod.splits)

lemma push_validate_frame:
  "act_then (queue_push_action a) (act_then (queue_push_action b) (act_read runtime_validate)) r = (x, r') \<Longrightarrow>
   coop_frame r \<Longrightarrow> coop_frame r'"
  by (auto simp: act_then_def act_bind_def split: prod.splits sum.splits dest: queue_push_action_frame)

lemma publish_initial_failed:
  assumes "publish_initial f r = (Inl e, r')" "coop_frame r"
  shows "rolled_back r'"
proof -
  define steps where "steps = [(0, SENDER_TASK_ID, CAPABILITY_RIGHT_SEND OR CAPABILITY_RIGHT_DUPLICATE),
    (1::nat, RECEIVER_TASK_ID, CAPABILITY_RIGHT_RECEIVE)]"
  obtain x r1 where 1: "publish_installs f steps [] r = (x, r1)" by fastforce
  note f1 = publish_installs_frame [OF 1 assms(2)]
  obtain y r2 where 2: "publish_tables r1 = (y, r2)" by fastforce
  let ?ep = "\<lparr>ep_object_generation = ENDPOINT_GENERATION, ep_sender_task = SENDER_TASK_ID,
      ep_sender_generation = ts_generation (rt_task0 r2), ep_receiver_task = RECEIVER_TASK_ID,
      ep_receiver_generation = ts_generation (rt_task1 r2), ep_occupied = False, ep_payload = 0\<rparr>"
  obtain z r3 where 3: "act_then (queue_push_action RECEIVER_TASK_ID)
      (act_then (queue_push_action SENDER_TASK_ID) (act_read runtime_validate)) (r2\<lparr>rt_endpoint := ?ep\<rparr>) = (z, r3)"
    by fastforce
  have f2: "coop_frame r2" if "coop_frame r1" using publish_tables_frame [OF 2 that] .
  then have f3: "coop_frame r3" if "coop_frame r1"
    using push_validate_frame [OF 3] that by (simp add: coop_frame_def)
  show ?thesis
    using assms(1) 1 2 3 f1 f2 f3 rolled_back_coop
    unfolding publish_initial_def steps_def
    by (cases x; cases y; cases z) (auto split: if_splits)
qed

lemma task0_frame: "task0_capabilities f r = (x, r') \<Longrightarrow> sup_frame r \<Longrightarrow> sup_frame r'"
  by (auto simp: task0_capabilities_def sup_frame_def split: prod.splits)

lemma supervisor_installs_frame:
  "supervisor_installs f steps installed r = (x, r') \<Longrightarrow> sup_frame r \<Longrightarrow>
   (\<forall>e. x = Inl e \<longrightarrow> rolled_back r') \<and> (\<forall>hs. x = Inr hs \<longrightarrow> sup_frame r')"
proof (induction f steps installed r rule: supervisor_installs.induct)
  case (2 f step ty obj rights rest installed r)
  show ?case
  proof (cases "task0_capabilities (install_object_building ty
      \<lparr>or_id = obj, or_generation = FIXED_OBJECT_GENERATION\<rparr> rights) r")
    case (Pair y r1)
    then have "sup_frame r1" using task0_frame 2(3) by blast
    with 2 Pair rolled_back_sup show ?thesis by (cases y) (auto split: if_splits)
  qed
qed auto

lemma publish_supervisor_failed:
  assumes "publish_supervisor f r = (Inl e, r')" "sup_frame r"
  shows "rolled_back r'"
proof -
  define steps where "steps = [(0::nat, OBJECT_TYPE_TASK_CONTROL, TASK_CONTROL_OBJECT_ID, CAPABILITY_RIGHT_START),
      (1, OBJECT_TYPE_APPROVAL_BROKER, APPROVAL_BROKER_OBJECT_ID, CAPABILITY_RIGHT_DECIDE_APPROVAL),
      (2, OBJECT_TYPE_TEST_EFFECT, TEST_EFFECT_OBJECT_ID, CAPABILITY_RIGHT_COMMIT_EFFECT)]"
  obtain x r1 where 1: "supervisor_installs f steps [] r = (x, r1)" by fastforce
  note f1 = supervisor_installs_frame [OF 1 assms(2)]
  obtain y r2 where 2: "task0_capabilities table_publish r1 = (y, r2)" by fastforce
  let ?r3 = "r2\<lparr>rt_broker := (rt_broker r2)\<lparr>ab_state := Broker_Empty\<rparr>\<rparr>"
  obtain z r4 where 3: "act_then (queue_push_action SENDER_TASK_ID) (act_read runtime_validate) ?r3 = (z, r4)"
    by fastforce
  have f2: "sup_frame r2 \<and> sup_frame ?r3" if "sup_frame r1"
    using task0_frame [OF 2 that] by (simp add: sup_frame_def)
  then have f3: "sup_frame r4" if "sup_frame r1"
    using 3 that
    by (auto simp: act_then_def act_bind_def split: prod.splits sum.splits dest: queue_push_action_frame)
  show ?thesis
    using assms(1) 1 2 3 f1 f2 f3 rolled_back_sup
    unfolding publish_supervisor_def steps_def
    by (cases x; cases y; cases z) (auto simp: Let_def split: if_splits)
qed

lemma unpublished_frames: "coop_frame (unpublished s v)" "sup_frame (unpublished_supervised s v)"
  by (simp_all add: unpublished_def unpublished_supervised_def coop_frame_def sup_frame_def)

section \<open>Construction\<close>

lemma validate_roots:
  assumes "runtime_validate r = Inr ()" "valid_task t" "task_state r t \<noteq> TaskState_Dead"
  shows "cx_root (ts_context (task_slot r t)) \<noteq> 0" "ts_generation (task_slot r t) \<noteq> 0"
    "cx_task_id (ts_context (task_slot r t)) = ts_id (task_slot r t)"
  using assms
  by (auto simp: valid_task_def runtime_validate_def slot_validate_def Let_def and_then_eq_Inr split: if_splits)

lemma runtime_new_inv:
  assumes "runtime_new s v = Inr r"
  shows "r = published_coop s v" "runtime_inv r"
proof -
  have g: "cx_task_id s = 1" "cx_task_id v = 2" "cx_generation s \<noteq> 0" "cx_generation v \<noteq> 0"
    and c: "construct s v None = Inr r"
    using assms by (auto simp: runtime_new_def split: if_splits)
  then have val: "runtime_validate (published_coop s v) = Inr ()" and r: "r = published_coop s v"
    using publish_initial_None [of s v] by (auto simp: construct_def split: sum.splits)
  have "cx_root s \<noteq> 0" "cx_root v \<noteq> 0"
    using validate_roots(1) [OF val, of 1] validate_roots(1) [OF val, of 2] by (simp_all add: published_coop_def)
  then show "r = published_coop s v" "runtime_inv r" using published_coop_inv [of s v] g r by simp_all
qed

lemma runtime_new_succeeds:
  assumes "cx_task_id s = SENDER_TASK_ID" "cx_task_id v = RECEIVER_TASK_ID" "cx_generation s \<noteq> 0"
    "cx_generation v \<noteq> 0" "cx_generation s \<noteq> cx_generation v" "cx_root s \<noteq> 0" "cx_root v \<noteq> 0"
  shows "runtime_new s v = Inr (published_coop s v)"
  using assms published_coop_inv [of s v] publish_initial_None [of s v]
  by (simp add: runtime_new_def construct_def runtime_inv_validate)


definition fixed_ref :: "u64 \<Rightarrow> ObjectReference" where
  "fixed_ref i = \<lparr>or_id = i, or_generation = FIXED_OBJECT_GENERATION\<rparr>"

definition supervisor_entries :: "CapabilityEntry list" where
  "supervisor_entries =
     [entry_for SENDER_TASK_ID SUPERVISOR_GENERATION OBJECT_TYPE_TASK_CONTROL
        (fixed_ref TASK_CONTROL_OBJECT_ID) CAPABILITY_RIGHT_START,
      entry_for SENDER_TASK_ID SUPERVISOR_GENERATION OBJECT_TYPE_APPROVAL_BROKER
        (fixed_ref APPROVAL_BROKER_OBJECT_ID) CAPABILITY_RIGHT_DECIDE_APPROVAL,
      entry_for SENDER_TASK_ID SUPERVISOR_GENERATION OBJECT_TYPE_TEST_EFFECT
        (fixed_ref TEST_EFFECT_OBJECT_ID) CAPABILITY_RIGHT_COMMIT_EFFECT]"

definition fresh_broker :: ApprovalBroker where
  "fresh_broker = (broker_building SUPERVISOR_GENERATION WORKLOAD_GENERATION)\<lparr>ab_state := Broker_Empty\<rparr>"

definition fresh_effect :: SyntheticEffect where
  "fresh_effect = \<lparr>se_object_generation = FIXED_OBJECT_GENERATION, se_supervisor_task_id = SENDER_TASK_ID,
     se_supervisor_generation = SUPERVISOR_GENERATION, se_occupied = False, se_value = 0\<rparr>"

text \<open>The published supervised runtime; \<open>es\<close> are the entries of the supervisor's table.\<close>

definition published_sup :: "CapabilityEntry list \<Rightarrow> TaskContextV1 \<Rightarrow> TaskContextV1 \<Rightarrow> Runtime" where
  "published_sup es s w =
     \<lparr>rt_profile = Profile_Supervised,
      rt_task0 = \<lparr>ts_id = SENDER_TASK_ID, ts_generation = SUPERVISOR_GENERATION, ts_state = TaskState_Ready,
        ts_context = s, ts_capabilities = table_of Cap_Live SENDER_TASK_ID SUPERVISOR_GENERATION es\<rparr>,
      rt_task1 = \<lparr>ts_id = RECEIVER_TASK_ID, ts_generation = WORKLOAD_GENERATION, ts_state = TaskState_Staged,
        ts_context = w, ts_capabilities = table_building RECEIVER_TASK_ID WORKLOAD_GENERATION\<rparr>,
      rt_queue = queue_of [SENDER_TASK_ID], rt_endpoint = EMPTY_ENDPOINT,
      rt_manifest = ManifestPublication_EMPTY, rt_broker = fresh_broker, rt_effect = fresh_effect\<rparr>"

lemma valid_supervisor_rights:
  "valid_rights OBJECT_TYPE_TASK_CONTROL CAPABILITY_RIGHT_START"
  "valid_rights OBJECT_TYPE_APPROVAL_BROKER CAPABILITY_RIGHT_DECIDE_APPROVAL"
  "valid_rights OBJECT_TYPE_TEST_EFFECT CAPABILITY_RIGHT_COMMIT_EFFECT"
  "valid_rights OBJECT_TYPE_EFFECT_JOURNAL CAPABILITY_RIGHT_READ_EFFECT_JOURNAL"
  by (simp_all add: valid_rights_def CAPABILITY_RIGHTS_V1_def)

lemma supervisor_table_ok: "table_ok (table_of Cap_Live SENDER_TASK_ID SUPERVISOR_GENERATION supervisor_entries)"
  by (rule table_of_ok) (use valid_supervisor_rights in \<open>simp_all add: supervisor_entries_def entry_for_def fixed_ref_def\<close>)

lemma published_sup_inv:
  assumes "cx_task_id s = SENDER_TASK_ID" "cx_task_id w = RECEIVER_TASK_ID"
    "cx_generation s = SUPERVISOR_GENERATION" "cx_generation w = WORKLOAD_GENERATION"
    "cx_root s \<noteq> 0" "cx_root w \<noteq> 0"
    and "table_ok (table_of Cap_Live SENDER_TASK_ID SUPERVISOR_GENERATION es)"
  shows "runtime_inv (published_sup es s w)"
proof -
  have b: "table_ok (table_building 2 5)" "ct_task_id (table_building 2 5) = 2"
    "ct_task_generation (table_building 2 5) = 5" "ct_state (table_building 2 5) = Cap_Building"
    by (rule table_ok_building; simp) (simp_all add: table_building_def)
  have "broker_inv fresh_broker" "ab_state fresh_broker = Broker_Empty"
    by (simp_all add: broker_inv_def fresh_broker_def broker_building_def request_cleared_def ApprovalBroker_DEAD_def)
  moreover have "effect_inv fresh_effect" by (simp add: effect_inv_def fresh_effect_def)
  ultimately have "sup_core (published_sup es s w)"
    using assms b by (simp add: published_sup_def sup_core_def slots_inv_def slot_inv_def)
  moreover have "sched_inv (published_sup es s w)"
    unfolding sched_inv_def queue_inv_def
    by (intro conjI exI [of _ "[1]"]) (auto simp: published_sup_def ready_set_def)
  ultimately show ?thesis by (simp add: runtime_inv_def)
qed

lemma publish_supervisor_None:
  assumes "cx_generation s = SUPERVISOR_GENERATION" "cx_generation w = WORKLOAD_GENERATION"
  shows "publish_supervisor None (unpublished_supervised s w) =
    (case runtime_validate (published_sup supervisor_entries s w) of
       Inl e \<Rightarrow> (Inl e, rollback_supervisor_publication (map (\<lambda>i. the (from_parts i 1)) [0, Suc 0, Suc (Suc 0)])
                   (published_sup supervisor_entries s w))
     | Inr _ \<Rightarrow> (Inr (), published_sup supervisor_entries s w))"
proof -
  note i = install_table_of [where task = 1 and g = 4, OF _ valid_supervisor_rights(1), simplified]
    install_table_of [where task = 1 and g = 4, OF _ valid_supervisor_rights(2), simplified]
    install_table_of [where task = 1 and g = 4, OF _ valid_supervisor_rights(3), simplified]
  show ?thesis
    using assms
    by (simp add: publish_supervisor_def unpublished_supervised_def task0_capabilities_def table_building_of
        i publish_table_of act_then_def act_bind_def queue_push_action_def queue_new_of queue_push_of
        published_sup_def supervisor_entries_def fixed_ref_def fresh_broker_def fresh_effect_def
        broker_building_def Let_def split: sum.splits)
qed

lemma new_supervised_inv:
  assumes "new_supervised s w = Inr r"
  shows "r = published_sup supervisor_entries s w" "runtime_inv r"
proof -
  have g: "cx_task_id s = 1" "cx_task_id w = 2" "cx_generation s = 4" "cx_generation w = 5"
    and c: "construct_supervised s w None = Inr r"
    using assms by (auto simp: new_supervised_def split: if_splits)
  then have val: "runtime_validate (published_sup supervisor_entries s w) = Inr ()"
    and r: "r = published_sup supervisor_entries s w"
    using publish_supervisor_None [of s w] by (auto simp: construct_supervised_def split: sum.splits)
  have "cx_root s \<noteq> 0" "cx_root w \<noteq> 0"
    using validate_roots(1) [OF val, of 1] validate_roots(1) [OF val, of 2] by (simp_all add: published_sup_def)
  then show "r = published_sup supervisor_entries s w" "runtime_inv r"
    using published_sup_inv [OF _ _ _ _ _ _ supervisor_table_ok, of s w] g r by simp_all
qed

lemma new_supervised_succeeds:
  assumes "cx_task_id s = SENDER_TASK_ID" "cx_task_id w = RECEIVER_TASK_ID"
    "cx_generation s = SUPERVISOR_GENERATION" "cx_generation w = WORKLOAD_GENERATION"
    "cx_root s \<noteq> 0" "cx_root w \<noteq> 0"
  shows "new_supervised s w = Inr (published_sup supervisor_entries s w)"
  using assms published_sup_inv [OF assms supervisor_table_ok] publish_supervisor_None [of s w]
  by (simp add: new_supervised_def construct_supervised_def runtime_inv_validate)

end
