(* ===== verification/Action_Frames.thy ===== *)
theory Action_Frames
  imports Prelude
begin

text \<open>
  Two generic tools for actions.  An action keeps a view of the state when the view is the same before
  and after it, whether it succeeds or fails; the rules follow the combinators.  The locale
  \<open>inductive_invariant\<close> lifts an invariant from single steps to every reachable state.
\<close>

section \<open>Views an action keeps\<close>

named_theorems keeps_intros \<open>structural rules for views kept by an action\<close>

definition keeps :: "('s \<Rightarrow> 'v) \<Rightarrow> ('s, 'e, 'a) action \<Rightarrow> bool" where
  "keeps f m \<longleftrightarrow> (\<forall>s. f (snd (m s)) = f s)"

lemma keepsD: "keeps f m \<Longrightarrow> f (snd (m s)) = f s"
  by (simp add: keeps_def)

lemma keeps_result: "keeps f m \<Longrightarrow> m s = (x, s') \<Longrightarrow> f s' = f s"
  using keepsD [of f m s] by simp

lemma keepsI: "(\<And>s. f (snd (m s)) = f s) \<Longrightarrow> keeps f m"
  by (simp add: keeps_def)

lemma keeps_return [keeps_intros]: "keeps f (act_return a)"
  and keeps_fail [keeps_intros]: "keeps f (act_fail e)"
  and keeps_read [keeps_intros]: "keeps f (act_read g)"
  by (simp_all add: keeps_def)

lemma keeps_modify [keeps_intros]: "(\<And>s. f (g s) = f s) \<Longrightarrow> keeps f (act_modify g)"
  by (simp add: keeps_def)

lemma keeps_bind [keeps_intros]: "keeps f m \<Longrightarrow> (\<And>a. keeps f (k a)) \<Longrightarrow> keeps f (act_bind m k)"
  by (auto simp: keeps_def act_bind_def split: prod.splits sum.splits) (metis snd_conv)+

lemma keeps_then [keeps_intros]: "keeps f m \<Longrightarrow> keeps f k \<Longrightarrow> keeps f (act_then m k)"
  by (simp add: act_then_def keeps_bind)

lemma keeps_restoring [keeps_intros]: "keeps f m \<Longrightarrow> keeps f (act_restoring m)"
  by (auto simp: keeps_def act_restoring_def split: prod.splits sum.splits) (metis snd_conv)

lemma keeps_if [keeps_intros]: "keeps f m \<Longrightarrow> keeps f k \<Longrightarrow> keeps f (if b then m else k)"
  by simp

lemma keeps_option [keeps_intros]:
  "keeps f m \<Longrightarrow> (\<And>a. keeps f (k a)) \<Longrightarrow> keeps f (case x of None \<Rightarrow> m | Some a \<Rightarrow> k a)"
  by (cases x) simp_all

lemma keeps_sum [keeps_intros]:
  "(\<And>e. keeps f (m e)) \<Longrightarrow> (\<And>a. keeps f (k a)) \<Longrightarrow> keeps f (case x of Inl e \<Rightarrow> m e | Inr a \<Rightarrow> k a)"
  by (cases x) simp_all

text \<open>The same rules for actions written with their state argument.\<close>

lemma keeps_fun_pair [keeps_intros]: "keeps f (\<lambda>s. (x s, s))"
  by (simp add: keeps_def)

lemma keeps_fun_if [keeps_intros]: "keeps f m \<Longrightarrow> keeps f k \<Longrightarrow> keeps f (\<lambda>s. if b s then m s else k s)"
  by (simp add: keeps_def)

lemma keeps_fun_let [keeps_intros]: "(\<And>a. keeps f (m a)) \<Longrightarrow> keeps f (\<lambda>s. let a = g s in m a s)"
  by (simp add: keeps_def Let_def)

lemma keeps_fun_option [keeps_intros]:
  "keeps f m \<Longrightarrow> (\<And>a. keeps f (k a)) \<Longrightarrow> keeps f (\<lambda>s. case x s of None \<Rightarrow> m s | Some a \<Rightarrow> k a s)"
  by (simp add: keeps_def split: option.splits)

lemma keeps_fun_sum [keeps_intros]:
  "(\<And>e. keeps f (m e)) \<Longrightarrow> (\<And>a. keeps f (k a)) \<Longrightarrow>
   keeps f (\<lambda>s. case x s of Inl e \<Rightarrow> m e s | Inr a \<Rightarrow> k a s)"
  by (simp add: keeps_def split: sum.splits)


section \<open>Invariants of transition systems\<close>

locale inductive_invariant =
  fixes start :: "'s \<Rightarrow> bool" and step :: "'s \<Rightarrow> 's \<Rightarrow> bool" and invar :: "'s \<Rightarrow> bool"
  assumes start_invar: "start s \<Longrightarrow> invar s"
    and step_invar: "step s s' \<Longrightarrow> invar s \<Longrightarrow> invar s'"
begin

lemma steps_keep: "step\<^sup>*\<^sup>* s s' \<Longrightarrow> invar s \<Longrightarrow> invar s'"
  by (induction rule: rtranclp_induct) (auto intro: step_invar)

lemma reachable_invar: "start s \<Longrightarrow> step\<^sup>*\<^sup>* s s' \<Longrightarrow> invar s'"
  using start_invar steps_keep by blast

end

end
