(* ===== verification/Runtime_Frames.thy ===== *)
theory Runtime_Frames
  imports Runtime_Construct Action_Frames
begin

text \<open>
  What a trap leaves alone: views of the runtime that an operation keeps, as locales over the view,
  interpreted for the committed effect, the profile, the registers of the other task and the
  capability tables.
\<close>


section \<open>Views of the runtime\<close>

text \<open>
  A view that a trap of task \<open>t\<close> keeps as long as it does not launch the workload or work on the broker:
  it may depend on the identity, context and capabilities of the other task, but not on the registers
  that carry a result.  The locales that extend it add the broker, the effect, the caller's own table
  and the launch.
\<close>

locale runtime_view =
  fixes t :: u64 and f :: "Runtime \<Rightarrow> 'v"
  assumes view_result: "valid_task u \<Longrightarrow>
      f (upd u (\<lambda>s. s\<lparr>ts_context := context_set_result st v (ts_context s)\<rparr>) r) = f r"
    and view_state: "valid_task u \<Longrightarrow> f (upd u (\<lambda>s. s\<lparr>ts_state := x\<rparr>) r) = f r"
    and view_own_context: "f (upd t (\<lambda>s. s\<lparr>ts_context := g (ts_context s)\<rparr>) r) = f r"
    and view_queue: "f (r\<lparr>rt_queue := q\<rparr>) = f r"
    and view_endpoint: "f (r\<lparr>rt_endpoint := ep\<rparr>) = f r"
begin

lemma slot_mut_keeps:
  "(valid_task u \<Longrightarrow> \<forall>r. f (upd u g r) = f r) \<Longrightarrow> keeps f (slot_mut u g)"
  by (rule keepsI, cases "valid_task u") (auto simp: slot_mut_def valid_task_def)

lemma set_result_keeps [keeps_intros]: "keeps f (set_result u st v)"
  unfolding set_result_def by (rule slot_mut_keeps) (simp add: view_result)

lemma state_keeps [keeps_intros]: "keeps f (slot_mut u (\<lambda>s. s\<lparr>ts_state := x\<rparr>))"
  by (rule slot_mut_keeps) (simp add: view_state)

lemma own_context_keeps [keeps_intros]: "keeps f (slot_mut t (\<lambda>s. s\<lparr>ts_context := g (ts_context s)\<rparr>))"
  by (rule slot_mut_keeps) (simp add: view_own_context)

lemma queue_push_keeps [keeps_intros]: "keeps f (queue_push_action u)"
  by (rule keepsI) (simp add: queue_push_action_def view_queue split: prod.splits)

lemma resume_keeps [keeps_intros]: "keeps f (resume u st v)"
  unfolding resume_def by (intro keeps_intros)

lemma resume_validated_keeps [keeps_intros]: "keeps f (resume_validated u st v)"
  unfolding resume_validated_def by (intro keeps_intros)

lemma dispatch_next_keeps [keeps_intros]: "keeps f dispatch_next"
proof (rule keepsI)
  fix s
  have "keeps f (act_bind (act_read (\<lambda>r. slot r task)) (\<lambda>s.
               if ts_state s \<noteq> TaskState_Ready then act_fail Err_InvalidQueueMember
               else act_then (slot_mut task (\<lambda>s. s\<lparr>ts_state := TaskState_Running\<rparr>))
                 (act_then (act_read runtime_validate) (act_return (Some task)))))" for task
    by (intro keeps_intros)
  from keepsD [OF this] show "f (snd (dispatch_next s)) = f s"
    by (auto simp: dispatch_next_def view_queue split: prod.splits option.splits)
qed

lemma switch_next_keeps [keeps_intros]: "keeps f switch_next"
  unfolding switch_next_def by (intro keeps_intros)

lemma wake_workload_keeps [keeps_intros]: "keeps f (wake_workload st v)"
  unfolding wake_workload_def by (intro keeps_intros)

lemma yield_keeps [keeps_intros]: "keeps f (runtime_yield u a b c)"
  unfolding runtime_yield_def by (intro keeps_intros)

lemma exit_keeps [keeps_intros]: "keeps f (runtime_exit u a b c)"
  unfolding runtime_exit_def by (intro keeps_intros)

lemma endpoint_keeps [keeps_intros]: "keeps f (act_modify (\<lambda>r. r\<lparr>rt_endpoint := g r\<rparr>))"
  by (rule keepsI) (simp add: view_endpoint)

lemma send_keeps [keeps_intros]: "keeps f (runtime_send u a b c)"
  unfolding runtime_send_def [abs_def] by (intro keeps_intros)

lemma receive_keeps [keeps_intros]: "keeps f (runtime_receive u a b c)"
  unfolding runtime_receive_def [abs_def] by (intro keeps_intros)

lemma inspect_keeps [keeps_intros]: "keeps f (inspect_approval t a b c)"
  unfolding inspect_approval_def [abs_def] by (intro keeps_intros)

lemma capture_keeps [keeps_intros]: "keeps f (capture_trap t frame root g)"
  unfolding capture_trap_def by (intro keeps_intros own_context_keeps [of "\<lambda>_. from_trap frame t g root"])

end

locale runtime_view_tables = runtime_view +
  assumes view_own_capabilities: "f (upd t (\<lambda>s. s\<lparr>ts_capabilities := c\<rparr>) r) = f r"
begin

lemma own_capabilities_keeps [keeps_intros]: "keeps f (slot_capabilities t m)"
proof (rule keepsI)
  show "f (snd (slot_capabilities t m r)) = f r" for r
  proof (cases "valid_task t")
    case True
    then show ?thesis by (simp add: slot_capabilities_eq view_own_capabilities)
  next
    case False
    then show ?thesis by (simp add: slot_capabilities_def slot_def valid_task_def)
  qed
qed

lemma duplicate_keeps [keeps_intros]: "keeps f (runtime_duplicate t a b c)"
  unfolding runtime_duplicate_def by (intro keeps_intros)

lemma close_keeps [keeps_intros]: "keeps f (runtime_close t a b c)"
  unfolding runtime_close_def by (intro keeps_intros)

end

locale runtime_view_broker = runtime_view +
  assumes view_broker: "f (r\<lparr>rt_broker := b\<rparr>) = f r"
begin

lemma modify_broker_keeps [keeps_intros]: "keeps f (modify_broker g)"
  by (rule keepsI) (simp add: modify_broker_def view_broker)

lemma submit_keeps [keeps_intros]: "keeps f (submit_approval u a b c)"
  unfolding submit_approval_def [abs_def] by (intro keeps_intros)

lemma fail_broker_keeps [keeps_intros]: "keeps f fail_broker_epoch_exhaustion"
  unfolding fail_broker_epoch_exhaustion_def by (intro keeps_intros)

lemma apply_decision_keeps [keeps_intros]: "keeps f (apply_decision d n)"
  unfolding apply_decision_def by (intro keeps_intros)

lemma decide_keeps [keeps_intros]: "keeps f (decide_approval u a b c)"
  unfolding decide_approval_def [abs_def] Let_def by (intro keeps_intros)

end

locale runtime_view_commit = runtime_view_broker +
  assumes view_effect: "f (r\<lparr>rt_effect := ef\<rparr>) = f r"
begin

lemma commit_keeps [keeps_intros]: "keeps f (commit_effect u a b c)"
  unfolding commit_effect_def [abs_def] by (intro keeps_intros) (simp add: view_broker view_effect)

end

locale runtime_view_start = runtime_view +
  assumes view_workload_table: "f (r\<lparr>rt_task1 := (rt_task1 r)\<lparr>ts_capabilities := c\<rparr>\<rparr>) = f r"
    and view_manifest: "f (r\<lparr>rt_manifest := mf\<rparr>) = f r"
begin

lemma task1_keeps: "f (snd (task1_capabilities m r)) = f r"
  by (simp add: task1_capabilities_def view_workload_table split: prod.splits)

lemma install_routes_keeps: "f (snd (install_routes routes r)) = f r"
proof (induction routes arbitrary: r)
  case (Cons route routes)
  have "f (snd (task1_capabilities m r)) = f r" for m :: "(CapabilityTable, RuntimeError, u64) action"
    by (rule task1_keeps)
  with Cons show ?case by (auto split: prod.splits sum.splits) (metis snd_conv)+
qed simp

lemma start_keeps [keeps_intros]: "keeps f (start_workload u a b c)"
proof (rule keepsI)
  fix r
  let ?routes = "take (unat (lm_route_count REGISTERED_LAUNCH_MANIFEST)) (lm_routes REGISTERED_LAUNCH_MANIFEST)"
  obtain x r1 where 1: "install_routes ?routes r = (x, r1)" by fastforce
  obtain y r2 where 2: "task1_capabilities table_publish r1 = (y, r2)" by fastforce
  let ?r3 = "r2\<lparr>rt_manifest := published_manifest, rt_task1 := (rt_task1 r2)\<lparr>ts_state := TaskState_Ready\<rparr>\<rparr>"
  have "f r1 = f r" "f r2 = f r1"
    using install_routes_keeps [of ?routes r] task1_keeps [of table_publish r1] 1 2 by simp_all
  moreover have "f ?r3 = f r2"
    using view_state [of 2 TaskState_Ready "r2\<lparr>rt_manifest := published_manifest\<rparr>"] view_manifest [of published_manifest r2] by simp
  moreover have "keeps f (act_then (queue_push_action RECEIVER_TASK_ID) (resume_validated u Status_Ok 0))"
    by (intro keeps_intros)
  note keepsD [OF this, of ?r3]
  ultimately show "f (snd (start_workload u a b c r)) = f r"
    using 1 2
    by (cases x; cases y)
      (auto simp: start_workload_def start_workload_with_failure_def keepsD [OF resume_keeps] Let_def
        split: option.splits sum.splits if_splits)
qed

end


section \<open>The views used below\<close>

text \<open>What a trap runs, given the context of the running task.\<close>

definition trap_operation :: "u64 \<Rightarrow> TaskContextV1 \<Rightarrow> (Runtime, RuntimeError, TrapOutcome) action" where
  "trap_operation t input =
     (let rdi = cx_rdi input; rsi = cx_rsi input; rdx = cx_rdx input
      in case TrapOperation_parse (cx_rax input) of
           None \<Rightarrow> resume t Status_InvalidOperation 0
         | Some Op_Yield \<Rightarrow> runtime_yield t rdi rsi rdx
         | Some Op_Send \<Rightarrow> runtime_send t rdi rsi rdx
         | Some Op_Receive \<Rightarrow> runtime_receive t rdi rsi rdx
         | Some Op_Exit \<Rightarrow> runtime_exit t rdi rsi rdx
         | Some Op_Duplicate \<Rightarrow> runtime_duplicate t rdi rsi rdx
         | Some Op_Close \<Rightarrow> runtime_close t rdi rsi rdx
         | Some Op_StartWorkload \<Rightarrow> start_workload t rdi rsi rdx
         | Some Op_SubmitApproval \<Rightarrow> submit_approval t rdi rsi rdx
         | Some Op_InspectApproval \<Rightarrow> inspect_approval t rdi rsi rdx
         | Some Op_DecideApproval \<Rightarrow> decide_approval t rdi rsi rdx
         | Some Op_CommitEffect \<Rightarrow> commit_effect t rdi rsi rdx
         | Some Op_InspectEffectJournal \<Rightarrow> resume_validated t Status_InvalidOperation 0
         | Some Op_ReadEffectRecord \<Rightarrow> resume_validated t Status_InvalidOperation 0)"

abbreviation trap_code :: "u64 \<Rightarrow> Runtime \<Rightarrow> TrapOperation option" where
  "trap_code t r \<equiv> TrapOperation_parse (cx_rax (ts_context (task_slot r t)))"

lemma handle_trap_inner_eq:
  "handle_trap_inner t r =
     (case running_task r of
        Inl e \<Rightarrow> (Inl e, r)
      | Inr u \<Rightarrow>
          if u \<noteq> t then (Inl Err_WrongState, r)
          else if \<not> valid_task t then (Inl Err_InvalidTask, r)
          else trap_operation t (ts_context (task_slot r t)) r)"
proof (cases "valid_task t")
  case True
  then show ?thesis
    by (simp add: handle_trap_inner_def act_bind_def runtime_context_def trap_operation_def split: sum.splits)
next
  case False
  then have "slot r t = Inl Err_InvalidTask" by (simp add: slot_def valid_task_def)
  with False show ?thesis
    by (simp add: handle_trap_inner_def act_bind_def runtime_context_def split: sum.splits)
qed

text \<open>A view is kept by a trap when the operation it runs keeps it.\<close>

lemma handle_trap_keeps:
  assumes "f (snd (trap_operation t (ts_context (task_slot r t)) r)) = f r" "handle_trap t r = (x, r')"
  shows "f r' = f r"
proof -
  have "f (snd (handle_trap_inner t r)) = f r"
    using assms(1) by (simp add: handle_trap_inner_eq split: sum.splits)
  then show ?thesis
    using assms(2) by (auto simp: handle_trap_def act_restoring_def split: prod.splits sum.splits)
qed

context runtime_view
begin

lemma plain_operation_keeps:
  assumes "TrapOperation_parse (cx_rax input) \<notin> {Some Op_StartWorkload, Some Op_SubmitApproval, Some Op_DecideApproval,
      Some Op_CommitEffect, Some Op_Duplicate, Some Op_Close}"
  shows "keeps f (trap_operation t input)"
  unfolding trap_operation_def Let_def
  using assms resume_keeps yield_keeps send_keeps receive_keeps exit_keeps inspect_keeps resume_validated_keeps
  by (auto split: option.split TrapOperation.split)

end

context runtime_view_broker
begin

lemma broker_operation_keeps:
  assumes "TrapOperation_parse (cx_rax input) \<notin> {Some Op_StartWorkload, Some Op_CommitEffect, Some Op_Duplicate, Some Op_Close}"
  shows "keeps f (trap_operation t input)"
proof (cases "TrapOperation_parse (cx_rax input) \<in> {Some Op_SubmitApproval, Some Op_DecideApproval}")
  case True
  then show ?thesis using submit_keeps decide_keeps by (auto simp: trap_operation_def Let_def)
next
  case False
  then show ?thesis using assms by (intro plain_operation_keeps) auto
qed

end

interpretation effect_tables: runtime_view_tables t rt_effect for t
  by unfold_locales (simp_all add: upd_def)

interpretation effect_start: runtime_view_start t rt_effect for t
  by unfold_locales simp_all

interpretation effect_broker: runtime_view_broker t rt_effect for t
  by unfold_locales simp

text \<open>The other task's identity and saved registers, without the two that carry a result.\<close>

definition saved_registers :: "u64 \<Rightarrow> Runtime \<Rightarrow> u64 \<times> u64 \<times> TaskContextV1" where
  "saved_registers t r =
     (let s = task_slot r t in (ts_id s, ts_generation s, context_set_result Status_Ok 0 (ts_context s)))"

interpretation register_tables: runtime_view_tables t "saved_registers (other t)" for t
  by unfold_locales
    (auto simp: upd_def saved_registers_def task_slot_def other_def context_set_result_def Let_def)

interpretation register_start: runtime_view_start t "saved_registers (other t)" for t
  by unfold_locales (simp_all add: saved_registers_def task_slot_def Let_def)

interpretation register_commit: runtime_view_commit t "saved_registers (other t)" for t
  by unfold_locales (simp_all add: saved_registers_def task_slot_def)

text \<open>The capability table of the other task, and of the calling task.\<close>

interpretation other_tables: runtime_view_tables t "\<lambda>r. ts_capabilities (task_slot r (other t))" for t
  by unfold_locales (auto simp: upd_def task_slot_def other_def)

interpretation other_commit: runtime_view_commit t "\<lambda>r. ts_capabilities (task_slot r (other t))" for t
  by unfold_locales (auto simp: task_slot_def)

interpretation own_commit: runtime_view_commit t "\<lambda>r. ts_capabilities (task_slot r t)" for t
  by unfold_locales (auto simp: upd_def task_slot_def)

interpretation sender_start: runtime_view_start SENDER_TASK_ID "\<lambda>r. ts_capabilities (rt_task0 r)"
  by unfold_locales (auto simp: upd_def)

lemma effect_kept:
  assumes "handle_trap t r = (x, r')" "trap_code t r \<noteq> Some Op_CommitEffect"
  shows "rt_effect r' = rt_effect r"
proof (rule handle_trap_keeps [OF _ assms(1)])
  let ?input = "ts_context (task_slot r t)"
  have "keeps rt_effect (trap_operation t ?input)"
    using effect_broker.broker_operation_keeps [of ?input t] effect_start.start_keeps effect_tables.duplicate_keeps
      effect_tables.close_keeps assms(2)
    by (cases "trap_code t r \<in> {Some Op_StartWorkload, Some Op_Duplicate, Some Op_Close}")
      (auto simp: trap_operation_def)
  then show "rt_effect (snd (trap_operation t ?input r)) = rt_effect r" by (rule keepsD)
qed

lemma registers_kept:
  assumes "handle_trap t r = (x, r')"
  shows "saved_registers (other t) r' = saved_registers (other t) r"
proof (rule handle_trap_keeps [OF _ assms])
  let ?input = "ts_context (task_slot r t)"
  have "keeps (saved_registers (other t)) (trap_operation t ?input)"
    using register_commit.broker_operation_keeps [of ?input t] register_start.start_keeps
      register_tables.duplicate_keeps register_tables.close_keeps register_commit.commit_keeps
    by (cases "trap_code t r \<in> {Some Op_StartWorkload, Some Op_CommitEffect, Some Op_Duplicate, Some Op_Close}")
      (auto simp: trap_operation_def)
  then show "saved_registers (other t) (snd (trap_operation t ?input r)) = saved_registers (other t) r"
    by (rule keepsD)
qed

lemma other_table_kept:
  assumes "handle_trap t r = (x, r')" "trap_code t r \<noteq> Some Op_StartWorkload"
  shows "ts_capabilities (task_slot r' (other t)) = ts_capabilities (task_slot r (other t))"
proof (rule handle_trap_keeps [OF _ assms(1)])
  let ?input = "ts_context (task_slot r t)" and ?f = "\<lambda>r. ts_capabilities (task_slot r (other t))"
  have "keeps ?f (trap_operation t ?input)"
    using other_commit.broker_operation_keeps [of ?input t] other_tables.duplicate_keeps other_tables.close_keeps
      other_commit.commit_keeps assms(2)
    by (cases "trap_code t r \<in> {Some Op_CommitEffect, Some Op_Duplicate, Some Op_Close}")
      (auto simp: trap_operation_def)
  then show "?f (snd (trap_operation t ?input r)) = ?f r" by (rule keepsD)
qed

lemma own_table_kept:
  assumes "handle_trap t r = (x, r')" "trap_code t r \<notin> {Some Op_StartWorkload, Some Op_Duplicate, Some Op_Close}"
  shows "ts_capabilities (task_slot r' t) = ts_capabilities (task_slot r t)"
proof (rule handle_trap_keeps [OF _ assms(1)])
  let ?input = "ts_context (task_slot r t)" and ?f = "\<lambda>r. ts_capabilities (task_slot r t)"
  have "keeps ?f (trap_operation t ?input)"
    using own_commit.broker_operation_keeps [of ?input t] own_commit.commit_keeps assms(2)
    by (cases "trap_code t r = Some Op_CommitEffect") (auto simp: trap_operation_def)
  then show "?f (snd (trap_operation t ?input r)) = ?f r" by (rule keepsD)
qed


interpretation profile_tables: runtime_view_tables t rt_profile for t
  by unfold_locales (simp_all add: upd_def)

interpretation profile_start: runtime_view_start t rt_profile for t
  by unfold_locales simp_all

interpretation profile_commit: runtime_view_commit t rt_profile for t
  by unfold_locales simp_all

lemma profile_kept:
  assumes "handle_trap t r = (x, r')"
  shows "rt_profile r' = rt_profile r"
proof (rule handle_trap_keeps [OF _ assms])
  let ?input = "ts_context (task_slot r t)"
  have "keeps rt_profile (trap_operation t ?input)"
    using profile_commit.broker_operation_keeps [of ?input t] profile_start.start_keeps
      profile_tables.duplicate_keeps profile_tables.close_keeps profile_commit.commit_keeps
    by (cases "trap_code t r \<in> {Some Op_StartWorkload, Some Op_CommitEffect, Some Op_Duplicate, Some Op_Close}")
      (auto simp: trap_operation_def)
  then show "rt_profile (snd (trap_operation t ?input r)) = rt_profile r" by (rule keepsD)
qed

text \<open>The broker.\<close>

interpretation broker_tables: runtime_view_tables t rt_broker for t
  by unfold_locales (simp_all add: upd_def)

interpretation broker_start: runtime_view_start t rt_broker for t
  by unfold_locales simp_all

lemma broker_kept:
  assumes "handle_trap t r = (x, r')"
    and "trap_code t r \<notin> {Some Op_SubmitApproval, Some Op_DecideApproval, Some Op_CommitEffect}"
  shows "rt_broker r' = rt_broker r"
proof (rule handle_trap_keeps [OF _ assms(1)])
  let ?input = "ts_context (task_slot r t)"
  have "keeps rt_broker (trap_operation t ?input)"
    using broker_tables.plain_operation_keeps [of ?input t] broker_start.start_keeps broker_tables.duplicate_keeps
      broker_tables.close_keeps assms(2)
    by (cases "trap_code t r \<in> {Some Op_StartWorkload, Some Op_Duplicate, Some Op_Close}")
      (auto simp: trap_operation_def)
  then show "rt_broker (snd (trap_operation t ?input r)) = rt_broker r" by (rule keepsD)
qed

text \<open>The two operations on the caller's own table.\<close>

lemma duplicate_table:
  assumes "valid_task t"
  shows "ts_capabilities (task_slot (snd (runtime_duplicate t src rights res r)) t) =
    (if res \<noteq> 0 then ts_capabilities (task_slot r t)
     else snd (table_duplicate t (ts_generation (task_slot r t)) src rights (ts_capabilities (task_slot r t))))"
  using assms keepsD [OF own_commit.resume_validated_keeps [of t]] keepsD [OF own_commit.resume_keeps [of t]]
  by (simp add: runtime_duplicate_def act_bind_def slot_capabilities_eq task_slot_upd split: sum.splits)

lemma close_table:
  assumes "valid_task t"
  shows "ts_capabilities (task_slot (snd (runtime_close t raw res1 res2 r)) t) =
    (if res1 \<noteq> 0 \<or> res2 \<noteq> 0 then ts_capabilities (task_slot r t)
     else snd (table_close t (ts_generation (task_slot r t)) raw (ts_capabilities (task_slot r t))))"
  using assms keepsD [OF own_commit.resume_validated_keeps [of t]] keepsD [OF own_commit.resume_keeps [of t]]
  by (simp add: runtime_close_def act_bind_def slot_capabilities_eq task_slot_upd)

end
