(* ===== verification/Runtime_Protocol.thy ===== *)
theory Runtime_Protocol
  imports Runtime_Frames
begin

text \<open>
  The runtime under its callers: an arbitrary sequence of public calls, and the sequence of calls the
  kernel makes.
\<close>


section \<open>Calls in any order\<close>

text \<open>
  The public interface of the runtime under an arbitrary caller: any method, any arguments, any order,
  whether the call succeeds or fails.  The only obligation is that a captured root is not zero.
\<close>

inductive api_step :: "Runtime \<Rightarrow> Runtime \<Rightarrow> bool" where
  step_dispatch: "dispatch_next r = (x, r') \<Longrightarrow> api_step r r'"
| step_capture: "root \<noteq> 0 \<Longrightarrow> capture_trap t frame root g r = (x, r') \<Longrightarrow> api_step r r'"
| step_trap: "handle_trap t r = (x, r') \<Longrightarrow> api_step r r'"
| step_begin: "begin_teardown t r = (x, r') \<Longrightarrow> api_step r r'"
| step_complete: "complete_teardown t r = (x, r') \<Longrightarrow> api_step r r'"

definition runtime_start :: "Runtime \<Rightarrow> bool" where
  "runtime_start r \<longleftrightarrow> (\<exists>a b. runtime_new a b = Inr r \<or> new_supervised a b = Inr r)"

lemma handle_trap_error:
  assumes "handle_trap t r = (Inl e, r')"
  shows "r' = r"
  using assms by (simp add: handle_trap_def act_restoring_Inl)

lemma handle_trap_success:
  "handle_trap t r = (Inr o', r') \<longleftrightarrow> handle_trap_inner t r = (Inr o', r')"
  by (simp add: handle_trap_def act_restoring_eq_Inr)

lemma handle_trap_pre:
  assumes inv: "runtime_inv r" and h: "handle_trap t r = (Inr o', r')"
  shows "trap_pre t r" "trap_post t r (Inr o', r')"
proof -
  have inner: "handle_trap_inner t r = (Inr o', r')" using h by (simp add: handle_trap_success)
  then have "running_task r = Inr t"
    by (cases "running_task r") (auto simp: handle_trap_inner_def act_bind_def split: if_splits)
  then show pre: "trap_pre t r" using running_task_iff [OF inv] inv by (simp add: trap_pre_def)
  show "trap_post t r (Inr o', r')" using handle_trap_inner_post [OF pre] inner by simp
qed

lemma handle_trap_inv:
  assumes "runtime_inv r" "handle_trap t r = (x, r')"
  shows "runtime_inv r'"
proof (cases x)
  case (Inl e)
  then show ?thesis using assms handle_trap_error by blast
next
  case (Inr o')
  then show ?thesis using handle_trap_pre(2) [OF assms(1), of t o' r'] assms(2)
    by (cases o') (simp_all add: trap_post_def)
qed

lemma begin_teardown_pre:
  assumes "begin_teardown_inner t r = (Inr (), r')"
  shows "valid_task t" "task_state r t = TaskState_Exited" "ct_state (ts_capabilities (task_slot r t)) = Cap_Live"
proof -
  show v: "valid_task t"
    using assms by (rule contrapos_pp) (simp add: begin_teardown_inner_def act_bind_def slot_def valid_task_def)
  show "task_state r t = TaskState_Exited"
    using assms v by (auto simp: begin_teardown_inner_def act_bind_def split: if_splits)
  show "ct_state (ts_capabilities (task_slot r t)) = Cap_Live"
    using assms v
    by (rule_tac contrapos_pp [OF assms])
      (auto simp: begin_teardown_inner_def act_bind_def act_then_def act_propagate_def slot_capabilities_eq
        mark_closing_def begin_closing_def split: if_splits)
qed

text \<open>The first phase, for both profiles.\<close>

definition released :: "u64 \<Rightarrow> Runtime \<Rightarrow> Runtime" where
  "released t r = (if rt_profile r = Profile_Supervised then sup_released t r else coop_released t r)"

lemma begin_teardown_eq:
  assumes inv: "runtime_inv r" and t: "valid_task t" and ex: "task_state r t = TaskState_Exited"
    and live: "ct_state (ts_capabilities (task_slot r t)) = Cap_Live"
  shows "begin_teardown t r = (Inr (), released t r)" "runtime_inv (released t r)"
    "task_state (released t r) t = TaskState_Exited"
    "task_state (released t r) (other t) = unblocked (task_state r (other t))"
    "ct_state (ts_capabilities (task_slot (released t r) t)) = Cap_Closing"
proof -
  have core: "core r" using inv by (simp add: runtime_inv_core)
  have "table_ok (ts_capabilities (task_slot r t))"
    using core_slot_inv [OF core t] by (simp add: slot_inv_def)
  note closing = closing_table(3) [OF this live]
  consider "sup_core r" "rt_profile r = Profile_Supervised" | "coop_core r" "rt_profile r = Profile_Cooperative"
    using core by (auto simp: core_def sup_core_def coop_core_def)
  then have "begin_teardown t r = (Inr (), released t r) \<and> runtime_inv (released t r)
    \<and> task_state (released t r) t = TaskState_Exited
    \<and> task_state (released t r) (other t) = unblocked (task_state r (other t))
    \<and> ct_state (ts_capabilities (task_slot (released t r) t)) = Cap_Closing"
  proof cases
    case 1
    then show ?thesis
      using begin_teardown_sup [OF inv 1(1) t ex live] sup_released_states [OF t ex 1(1)] closing
      by (simp add: released_def begin_teardown_def act_restoring_def)
  next
    case 2
    then show ?thesis
      using begin_teardown_coop [OF inv 2(1) t ex live] coop_released_states [OF t ex 2(1)] closing
      by (simp add: released_def begin_teardown_def act_restoring_def)
  qed
  then show "begin_teardown t r = (Inr (), released t r)" "runtime_inv (released t r)"
    "task_state (released t r) t = TaskState_Exited"
    "task_state (released t r) (other t) = unblocked (task_state r (other t))"
    "ct_state (ts_capabilities (task_slot (released t r) t)) = Cap_Closing" by blast+
qed

lemma begin_teardown_inv:
  assumes "runtime_inv r" "begin_teardown t r = (x, r')"
  shows "runtime_inv r'"
proof (cases x)
  case (Inl e)
  then have "r' = r" using assms(2) act_restoring_Inl [of "begin_teardown_inner t" r e r'] by (simp add: begin_teardown_def)
  with assms(1) show ?thesis by simp
next
  case (Inr u)
  then have "begin_teardown_inner t r = (Inr (), r')"
    using assms by (simp add: begin_teardown_def act_restoring_eq_Inr)
  note pre = begin_teardown_pre [OF this]
  show ?thesis using begin_teardown_eq(1,2) [OF assms(1) pre] assms(2) by simp
qed

lemma complete_teardown_pre:
  assumes c: "complete_teardown_inner t r = (Inr n, r')"
  shows "valid_task t" "task_state r t = TaskState_Exited" "ct_state (ts_capabilities (task_slot r t)) = Cap_Closing"
proof -
  show v: "valid_task t"
    using c by (rule contrapos_pp) (simp add: complete_teardown_inner_def act_bind_def slot_def valid_task_def)
  show "task_state r t = TaskState_Exited" "ct_state (ts_capabilities (task_slot r t)) = Cap_Closing"
    using c v by (auto simp: complete_teardown_inner_def act_bind_def split: if_splits)
qed

lemma complete_teardown_inv:
  assumes "runtime_inv r" "complete_teardown t r = (x, r')"
  shows "runtime_inv r'"
proof (cases x)
  case (Inl e)
  then have "r' = r" using assms(2) act_restoring_Inl [of "complete_teardown_inner t" r e r']
    by (simp add: complete_teardown_def)
  with assms(1) show ?thesis by simp
next
  case (Inr n)
  then have c: "complete_teardown_inner t r = (Inr n, r')"
    using assms by (simp add: complete_teardown_def act_restoring_eq_Inr)
  note pre = complete_teardown_pre [OF c]
  show ?thesis
    using c complete_teardown_inner_eq [OF assms(1) pre]
      dispatch_next_inv [OF reclaimed_inv [OF assms(1) pre]] by simp
qed

lemma api_step_inv: "api_step r r' \<Longrightarrow> runtime_inv r \<Longrightarrow> runtime_inv r'"
proof (induction rule: api_step.induct)
  case (step_dispatch r x r')
  then show ?case using dispatch_next_inv [of r] by simp
next
  case (step_capture root t frame g r x r')
  then show ?case using capture_trap_inv [of r root t frame g] by simp
qed (blast intro: handle_trap_inv begin_teardown_inv complete_teardown_inv)+

lemma runtime_start_inv: "runtime_start r \<Longrightarrow> runtime_inv r"
  by (auto simp: runtime_start_def dest: runtime_new_inv(2) new_supervised_inv(2))

interpretation api: inductive_invariant runtime_start api_step runtime_inv
  by unfold_locales (auto intro: runtime_start_inv api_step_inv)

definition runtime_reachable :: "Runtime \<Rightarrow> bool" where
  "runtime_reachable r \<longleftrightarrow> (\<exists>r0. runtime_start r0 \<and> api_step\<^sup>*\<^sup>* r0 r)"

lemma reachable_inv: "runtime_reachable r \<Longrightarrow> runtime_inv r"
  by (auto simp: runtime_reachable_def intro: api.reachable_invar)


section \<open>The kernel's protocol\<close>

text \<open>
  The calls the kernel makes: one dispatch after construction, then for every trap a capture of the
  running task's frame followed by the handler, and after an exit both phases of teardown before
  anything else runs.
\<close>

inductive kernel_reach :: "Runtime \<Rightarrow> bool" where
  reach_start: "runtime_start r \<Longrightarrow> dispatch_next r = (Inr (Some t), r') \<Longrightarrow> kernel_reach r'"
| reach_trap: "kernel_reach r \<Longrightarrow> running_task r = Inr t \<Longrightarrow> root \<noteq> 0 \<Longrightarrow>
    capture_trap t frame root g r = (Inr (), r1) \<Longrightarrow> handle_trap t r1 = (Inr out, r') \<Longrightarrow>
    out \<noteq> Outcome_Exit t \<Longrightarrow> kernel_reach r'"
| reach_exit: "kernel_reach r \<Longrightarrow> running_task r = Inr t \<Longrightarrow> root \<noteq> 0 \<Longrightarrow>
    capture_trap t frame root g r = (Inr (), r1) \<Longrightarrow> handle_trap t r1 = (Inr (Outcome_Exit t), r2) \<Longrightarrow>
    begin_teardown t r2 = (Inr (), r3) \<Longrightarrow> complete_teardown t r3 = (Inr (Some u), r') \<Longrightarrow>
    kernel_reach r'"

text \<open>Between traps exactly one task runs and no task is exited but not reclaimed.\<close>

definition scheduled :: "u64 \<Rightarrow> Runtime \<Rightarrow> bool" where
  "scheduled t r \<longleftrightarrow> trap_pre t r \<and> task_state r (other t) \<noteq> TaskState_Exited"

lemma scheduledD:
  assumes "scheduled t r"
  shows "trap_pre t r" "valid_task t" "runtime_inv r" "task_state r t = TaskState_Running"
    "task_state r (other t) \<noteq> TaskState_Exited" "running_task r = Inr t"
  using assms running_task_iff [of r t] by (simp_all add: scheduled_def trap_pre_def)

lemma capture_scheduled:
  assumes s: "scheduled t r" and "root \<noteq> 0" "capture_trap t frame root g r = (Inr (), r1)"
  shows "scheduled t r1"
proof -
  note d = scheduledD [OF s]
  have r1: "r1 = upd t (\<lambda>s. s\<lparr>ts_context := from_trap frame t g root\<rparr>) r"
    using assms(3) by (simp add: capture_trap_eq split: if_splits)
  have "task_state r1 t = task_state r t" "task_state r1 (other t) = task_state r (other t)"
    using d(2) by (auto simp: r1 valid_task_def)
  moreover have "runtime_inv r1" using capture_trap_inv [OF d(3) assms(2)] assms(3) by (metis snd_conv)
  ultimately show ?thesis using d by (simp add: scheduled_def trap_pre_def)
qed

text \<open>A trap of a scheduled task succeeds whatever the registers hold.\<close>

lemma post_scheduled:
  assumes s: "scheduled t r" and post: "trap_post t r (x, r')"
  obtains (resumed) "x = Inr (Outcome_Resume t)" "scheduled t r'"
    | (switched) u where "x = Inr (Outcome_Switch u)" "scheduled u r'"
    | (exited) "x = Inr (Outcome_Exit t)" "runtime_inv r'"
        "task_state r' t = TaskState_Exited" "task_state r' (other t) = task_state r (other t)"
        "ct_state (ts_capabilities (task_slot r' t)) = Cap_Live"
proof -
  note d = scheduledD [OF s]
  obtain o' where x: "x = Inr o'"
    using post d(5) by (cases x) (auto simp: trap_post_def)
  have ex: "task_state r 1 \<noteq> TaskState_Exited" "task_state r 2 \<noteq> TaskState_Exited"
    using d(2,4,5) by (auto simp: valid_task_def)
  show ?thesis
  proof (cases o')
    case (Outcome_Resume u)
    then have "u = t" "scheduled t r'"
      using post x ex d(2) by (auto simp: trap_post_def scheduled_def trap_pre_def exited_same_def valid_task_def)
    with Outcome_Resume x resumed show ?thesis by blast
  next
    case (Outcome_Switch u)
    then have "scheduled u r'"
      using post x ex by (auto simp: trap_post_def scheduled_def trap_pre_def exited_same_def valid_task_def)
    with Outcome_Switch x switched show ?thesis by blast
  next
    case (Outcome_Exit u)
    then have "u = t" using post x by (simp add: trap_post_def)
    then show ?thesis using post x exited Outcome_Exit by (simp add: trap_post_def)
  qed
qed

lemma trap_total:
  assumes s: "scheduled t r"
  obtains (resumed) r' where "handle_trap t r = (Inr (Outcome_Resume t), r')" "scheduled t r'"
    | (switched) u r' where "handle_trap t r = (Inr (Outcome_Switch u), r')" "scheduled u r'"
    | (exited) r' where "handle_trap t r = (Inr (Outcome_Exit t), r')" "runtime_inv r'"
        "task_state r' t = TaskState_Exited" "task_state r' (other t) = task_state r (other t)"
        "ct_state (ts_capabilities (task_slot r' t)) = Cap_Live"
proof -
  obtain x r' where xr: "handle_trap_inner t r = (x, r')" by fastforce
  have post: "trap_post t r (x, r')" using handle_trap_inner_post [OF scheduledD(1) [OF s]] xr by simp
  from s post show ?thesis
    by (cases rule: post_scheduled) (use xr that in \<open>auto simp: handle_trap_success\<close>)
qed


text \<open>After the exit of a scheduled task both phases of teardown succeed and the other task is
  dispatched, unless it was never launched.\<close>

lemma unblocked_simps [simp]:
  "unblocked st = TaskState_Staged \<longleftrightarrow> st = TaskState_Staged" "unblocked st = TaskState_Dead \<longleftrightarrow> st = TaskState_Dead"
  "unblocked st = TaskState_Exited \<longleftrightarrow> st = TaskState_Exited" "unblocked st = TaskState_Running \<longleftrightarrow> st = TaskState_Running"
  "unblocked st \<noteq> TaskState_BlockedReceive" "unblocked st \<noteq> TaskState_BlockedApproval"
  by (simp_all add: unblocked_def)

lemma other_other [simp]: "valid_task t \<Longrightarrow> other (other t) = t"
  by (auto simp: valid_task_def)

lemma ready_set_task:
  assumes "valid_task t" "task_state r t \<noteq> TaskState_Ready"
  shows "ready_set r = (if task_state r (other t) = TaskState_Ready then {other t} else {})"
  using assms by (auto simp: valid_task_def ready_set_def)

lemma complete_teardown_outcome:
  assumes inv: "runtime_inv r" and t: "valid_task t" and ex: "task_state r t = TaskState_Exited"
    and closing: "ct_state (ts_capabilities (task_slot r t)) = Cap_Closing"
  shows "task_state r (other t) = TaskState_Ready \<Longrightarrow>
           \<exists>r'. complete_teardown t r = (Inr (Some (other t)), r') \<and> scheduled (other t) r' \<and> task_state r' t = TaskState_Dead"
    and "task_state r (other t) = TaskState_Dead \<Longrightarrow>
           \<exists>r'. complete_teardown t r = (Inr None, r') \<and> runtime_inv r' \<and> task_state r' 1 = TaskState_Dead \<and> task_state r' 2 = TaskState_Dead"
    and "task_state r (other t) = TaskState_Staged \<Longrightarrow> complete_teardown t r = (Inl Err_NoRunnableTask, r)"
proof -
  let ?r = "reclaimed t r"
  note inv' = reclaimed_inv [OF assms] and st = reclaimed_states [OF t, of r]
  have ne: "other t \<noteq> t" using t by (auto simp: valid_task_def)
  obtain x r' where d: "dispatch_next ?r = (x, r')" by fastforce
  have c: "complete_teardown t r = (case x of Inl e \<Rightarrow> (Inl e, r) | Inr n \<Rightarrow> (Inr n, r'))"
    using complete_teardown_inner_eq [OF assms] d by (simp add: complete_teardown_def act_restoring_def split: sum.splits)
  have ready: "ready_set ?r = (if task_state r (other t) = TaskState_Ready then {other t} else {})"
    using ready_set_task [OF t, of ?r] st by simp
  have states: "task_state ?r u = (if u = t then TaskState_Dead else task_state r u)" if "valid_task u" for u
    using that st t by (auto simp: valid_task_def)
  show "\<exists>r'. complete_teardown t r = (Inr (Some (other t)), r') \<and> scheduled (other t) r' \<and> task_state r' t = TaskState_Dead"
    if o: "task_state r (other t) = TaskState_Ready"
    using inv' d
  proof (cases rule: dispatch_next_cases)
    case busy
    then show ?thesis using states [of 1] states [of 2] o t by (auto simp: valid_task_def split: if_splits)
  next
    case all_dead
    then show ?thesis using states [of "other t"] o t ne by (auto simp: valid_task_def)
  next
    case none
    then show ?thesis using ready o by simp
  next
    case (runs u us)
    then have u: "u = other t" using states [of u] o by (auto split: if_splits simp: valid_task_def t) (metis other_simps valid_task_def t SENDER_TASK_ID_def RECEIVER_TASK_ID_def)+
    have "task_state r' (other t) = TaskState_Running" "task_state r' t = TaskState_Dead"
      using runs(2) u t ne st(1) by (simp_all add: dispatched_def task_slot_upd)
    then have "scheduled (other t) r'" using runs(6) t by (simp add: scheduled_def trap_pre_def)
    with u runs(1) c \<open>task_state r' t = TaskState_Dead\<close> show ?thesis by auto
  qed
  show "\<exists>r'. complete_teardown t r = (Inr None, r') \<and> runtime_inv r' \<and> task_state r' 1 = TaskState_Dead \<and> task_state r' 2 = TaskState_Dead"
    if o: "task_state r (other t) = TaskState_Dead"
  proof -
    have dead: "task_state ?r 1 = TaskState_Dead" "task_state ?r 2 = TaskState_Dead"
      using states [of 1] states [of 2] o t by (auto simp: valid_task_def split: if_splits)
    have "rt_queue ?r = queue_of []"
      using empty_queue [of ?r] inv' dead by (simp add: runtime_inv_core)
    then have "dispatch_next ?r = (Inr None, ?r)" using dispatch_empty [of ?r] dead by simp
    then show ?thesis using c d inv' dead by auto
  qed
  show "complete_teardown t r = (Inl Err_NoRunnableTask, r)" if o: "task_state r (other t) = TaskState_Staged"
  proof -
    have nr: "task_state ?r 1 \<noteq> TaskState_Running" "task_state ?r 2 \<noteq> TaskState_Running"
      and nready: "task_state ?r 1 \<noteq> TaskState_Ready" "task_state ?r 2 \<noteq> TaskState_Ready"
      using states [of 1] states [of 2] o t by (auto simp: valid_task_def split: if_splits)
    have "rt_queue ?r = queue_of []"
      using empty_queue [of ?r] inv' nready by (simp add: runtime_inv_core)
    moreover have "\<not> (task_state ?r 1 = TaskState_Dead \<and> task_state ?r 2 = TaskState_Dead)"
      using states [of "other t"] o ne t by (auto simp: valid_task_def)
    ultimately have "dispatch_next ?r = (Inl Err_NoRunnableTask, ?r)" using dispatch_empty [OF nr] by simp
    then show ?thesis using c d by auto
  qed
qed

lemma exit_completes:
  assumes s: "scheduled t r" and h: "handle_trap t r = (Inr (Outcome_Exit t), r1)"
  obtains r2 where "begin_teardown t r1 = (Inr (), r2)" "runtime_inv r2" "task_state r2 t = TaskState_Exited"
    "ct_state (ts_capabilities (task_slot r2 t)) = Cap_Closing"
    "task_state r2 (other t) = unblocked (task_state r (other t))"
    "task_state r2 (other t) = TaskState_Ready \<or> task_state r2 (other t) = TaskState_Dead
     \<or> task_state r2 (other t) = TaskState_Staged"
proof -
  note d = scheduledD [OF s]
  have r1: "runtime_inv r1" "task_state r1 t = TaskState_Exited" "task_state r1 (other t) = task_state r (other t)"
    "ct_state (ts_capabilities (task_slot r1 t)) = Cap_Live"
    using trap_total [OF s] h by force+
  note b = begin_teardown_eq [OF r1(1) d(2) r1(2,4)]
  have "task_state r (other t) \<noteq> TaskState_Running" using trap_preD(6) [OF d(1)] .
  then have "task_state (released t r1) (other t) = TaskState_Ready \<or> task_state (released t r1) (other t) = TaskState_Dead
     \<or> task_state (released t r1) (other t) = TaskState_Staged"
    using b(4) d(5) r1(3) by (cases "task_state r (other t)") (simp_all add: unblocked_def)
  with b r1(3) that show ?thesis by metis
qed

lemma start_scheduled:
  assumes "runtime_start r" "dispatch_next r = (Inr (Some t), r')"
  shows "scheduled t r'"
proof -
  have inv: "runtime_inv r" by (rule runtime_start_inv [OF assms(1)])
  have ne: "task_state r 1 \<noteq> TaskState_Exited" "task_state r 2 \<noteq> TaskState_Exited"
    using assms(1) runtime_new_inv(1) new_supervised_inv(1)
    by (auto simp: runtime_start_def published_coop_def published_sup_def dest!: runtime_new_inv(1) new_supervised_inv(1))
  from inv assms(2) show ?thesis
  proof (cases rule: dispatch_next_cases)
    case (runs u us)
    then have u: "u = t" by simp
    have "task_state r' t = TaskState_Running" "task_state r' (other t) \<noteq> TaskState_Exited"
      using runs(2,4) u ne by (auto simp: dispatched_def valid_task_def)
    with runs u show ?thesis by (simp add: scheduled_def trap_pre_def)
  qed simp_all
qed

lemma kernel_reach_scheduled: "kernel_reach r \<Longrightarrow> \<exists>t. scheduled t r"
proof (induction rule: kernel_reach.induct)
  case (reach_start r t r')
  then show ?case using start_scheduled by blast
next
  case (reach_trap r t root frame g r1 out r')
  then have "scheduled t r" using scheduledD(6) by fastforce
  from capture_scheduled [OF this] reach_trap have "scheduled t r1" by blast
  from this reach_trap show ?case by (cases rule: trap_total) auto
next
  case (reach_exit r t root frame g r1 r2 r3 u r')
  then have "scheduled t r" using scheduledD(6) by fastforce
  from capture_scheduled [OF this] reach_exit have s: "scheduled t r1" by blast
  have t: "valid_task t" using scheduledD(2) [OF s] .
  from s reach_exit(5) obtain r3' where b: "begin_teardown t r2 = (Inr (), r3')" "runtime_inv r3'"
      "task_state r3' t = TaskState_Exited" "ct_state (ts_capabilities (task_slot r3' t)) = Cap_Closing"
      "task_state r3' (other t) = TaskState_Ready \<or> task_state r3' (other t) = TaskState_Dead
       \<or> task_state r3' (other t) = TaskState_Staged"
    by (rule exit_completes)
  have r3: "r3' = r3" using b(1) reach_exit(6) by simp
  note c = complete_teardown_outcome [OF b(2) t b(3,4)]
  show ?case using b(5) c reach_exit(7) r3 by auto
qed

end
