(* ===== verification/Runtime_Authority.thy ===== *)
theory Runtime_Authority
  imports Runtime_Protocol
begin

text \<open>
  The authority the tasks of a runtime can ever hold, as an invariant of every sequence of public
  calls.
\<close>


section \<open>Authority of the tasks\<close>

text \<open>
  The entries each task may ever hold.  In the cooperative profile every entry designates the endpoint
  with at most the rights of the task's side.  In the supervised profile slot \<open>i\<close> only ever holds the
  entry that publication put there; the fourth entry of the supervisor exists in the journaled runtime.
\<close>

definition workload_entry :: CapabilityEntry where
  "workload_entry = entry_for RECEIVER_TASK_ID WORKLOAD_GENERATION OBJECT_TYPE_APPROVAL_BROKER
     (fixed_ref APPROVAL_BROKER_OBJECT_ID) CAPABILITY_RIGHT_SUBMIT_APPROVAL"

definition journal_entry :: CapabilityEntry where
  "journal_entry = entry_for SENDER_TASK_ID SUPERVISOR_GENERATION OBJECT_TYPE_EFFECT_JOURNAL
     \<lparr>or_id = EFFECT_JOURNAL_OBJECT_ID, or_generation = 1\<rparr> CAPABILITY_RIGHT_READ_EFFECT_JOURNAL"

definition granted_entries :: "u64 \<Rightarrow> CapabilityEntry list" where
  "granted_entries t =
     (if t = SENDER_TASK_ID then supervisor_entries @ [journal_entry] else [workload_entry])"

definition slot_allowed :: "RuntimeProfile \<Rightarrow> u64 \<Rightarrow> nat \<Rightarrow> CapabilityEntry \<Rightarrow> bool" where
  "slot_allowed profile t i e \<longleftrightarrow>
     (case profile of
        Profile_Cooperative \<Rightarrow>
          ce_object_type e = OBJECT_TYPE_ENDPOINT
          \<and> rights_subset (ce_rights e)
              (if t = SENDER_TASK_ID then CAPABILITY_RIGHT_SEND OR CAPABILITY_RIGHT_DUPLICATE
               else CAPABILITY_RIGHT_RECEIVE)
      | Profile_Supervised \<Rightarrow> i < length (granted_entries t) \<and> e = granted_entries t ! i)"

definition table_allowed :: "RuntimeProfile \<Rightarrow> u64 \<Rightarrow> CapabilityTable \<Rightarrow> bool" where
  "table_allowed profile t c \<longleftrightarrow>
     (\<forall>i < CAPABILITY_SLOT_COUNT. \<forall>e. cs_entry (ct_slots c ! i) = Some e \<longrightarrow> slot_allowed profile t i e)"

definition authority_inv :: "Runtime \<Rightarrow> bool" where
  "authority_inv r \<longleftrightarrow>
     table_allowed (rt_profile r) SENDER_TASK_ID (ts_capabilities (rt_task0 r))
     \<and> table_allowed (rt_profile r) RECEIVER_TASK_ID (ts_capabilities (rt_task1 r))"

lemma authority_inv_task:
  "authority_inv r \<longleftrightarrow> (\<forall>t. valid_task t \<longrightarrow> table_allowed (rt_profile r) t (ts_capabilities (task_slot r t)))"
  by (auto simp: authority_inv_def valid_task_def)

lemma dead_table:
  assumes "slot_inv i s" "ts_state s = TaskState_Dead"
  shows "ts_capabilities s = table_dead"
  using assms table_validate_dead_iff [of "ts_capabilities s"] by (simp add: slot_inv_def table_ok_def)

lemma table_allowed_empty:
  "(\<And>i. i < 16 \<Longrightarrow> cs_entry (ct_slots c ! i) = None) \<Longrightarrow> table_allowed p t c"
  by (simp add: table_allowed_def)

lemma table_allowed_dead [simp]: "table_allowed p t table_dead"
  by (rule table_allowed_empty) (simp add: table_dead_def CapabilitySlot_EMPTY_def)

lemma table_allowed_of:
  "(\<And>i. i < length es \<Longrightarrow> slot_allowed p t i (es ! i)) \<Longrightarrow> table_allowed p t (table_of st task g es)"
  by (auto simp: table_allowed_def table_of_def nth_append filled_slot_def CapabilitySlot_EMPTY_def)

lemma table_allowed_closing:
  assumes "table_ok c" "ct_state c = Cap_Live"
  shows "table_allowed p t (closing_table c)"
proof (rule table_allowed_empty)
  show "cs_entry (ct_slots (closing_table c) ! i) = None" if "i < 16" for i
    using that assms unfolding closing_table_def begin_closing_eq
    by (simp add: table_ok_def table_shape_def)
qed

text \<open>No supervised entry designates an endpoint, so nothing can be duplicated there.\<close>

lemma granted_not_endpoint: "i < length (granted_entries t) \<Longrightarrow> ce_object_type (granted_entries t ! i) \<noteq> OBJECT_TYPE_ENDPOINT"
  by (auto simp: granted_entries_def supervisor_entries_def journal_entry_def workload_entry_def entry_for_def
      nth_Cons split: nat.splits if_splits)

lemma table_allowed_duplicate:
  assumes ok: "table_ok c" and a: "table_allowed p t c"
  shows "table_allowed p t (snd (table_duplicate task gen src rights c))"
proof (cases "table_duplicate task gen src rights c")
  case (Pair x c')
  show ?thesis
  proof (cases x)
    case (Inl s)
    then have "c' = c" using Pair duplicate_InlD [of task gen src rights c s c'] by simp
    with Pair a show ?thesis by simp
  next
    case (Inr h)
    then obtain e where e: "resolve_typed c task gen src OBJECT_TYPE_ENDPOINT CAPABILITY_RIGHT_DUPLICATE = Inr e"
      "rights_subset rights (ce_rights e)" "table_allocate (e\<lparr>ce_rights := rights\<rparr>) c = (Inr h, c')"
      using Pair duplicate_InrD by blast
    from e(1) have le: "live_entry c src = Some e" "ce_object_type e = OBJECT_TYPE_ENDPOINT"
      by (simp_all add: resolve_typed_eq_Inr)
    then obtain i g where i: "handle_decode src = Some (i, g)" "cs_entry (ct_slots c ! i) = Some e"
      by (auto simp: live_entry_def split: option.splits if_splits)
    then have al: "slot_allowed p t i e" using a handle_decode_SomeD [of src i g] by (simp add: table_allowed_def)
    then have p: "p = Profile_Cooperative"
      using le(2) granted_not_endpoint by (cases p) (auto simp: slot_allowed_def)
    from e(3) obtain k where k: "k < length (ct_slots c)"
      "c' = c\<lparr>ct_slots := (ct_slots c)[k := (ct_slots c ! k)\<lparr>cs_entry := Some (e\<lparr>ce_rights := rights\<rparr>)\<rparr>]\<rparr>"
      by (rule table_allocate_InrD)
    show ?thesis
      using a k al e(2) p Pair
      by (auto simp: table_allowed_def nth_list_update slot_allowed_def intro: rights_subset_trans)
  qed
qed

lemma table_allowed_close:
  assumes a: "table_allowed p t c"
  shows "table_allowed p t (snd (table_close task gen raw c))"
proof (cases "table_close task gen raw c")
  case (Pair x c')
  show ?thesis
  proof (cases x)
    case (Inl s)
    then have "c' = c" using Pair close_InlD [of task gen raw c s c'] by simp
    with Pair a show ?thesis by simp
  next
    case (Inr u)
    with Pair have "table_close task gen raw c = (Inr (), c')" by simp
    then obtain i where "c' = c\<lparr>ct_slots := (ct_slots c)[i := remove_entry (ct_slots c ! i)]\<rparr>"
      by (rule close_InrD)
    with a Pair show ?thesis
      by (cases "i < length (ct_slots c)") (auto simp: table_allowed_def nth_list_update list_update_beyond not_less)
  qed
qed


lemma workload_table_of: "workload_table = table_of Cap_Live 2 5 [workload_entry]"
  using install_table_of [of "[]" OBJECT_TYPE_APPROVAL_BROKER CAPABILITY_RIGHT_SUBMIT_APPROVAL 2 5
      "fixed_ref APPROVAL_BROKER_OBJECT_ID"]
  by (simp add: workload_table_def table_building_of publish_table_of workload_entry_def fixed_ref_def
      valid_rights_def CAPABILITY_RIGHTS_V1_def)

text \<open>What a successful trap does to the caller's table and to the other task's.\<close>

lemma trap_operation_run:
  assumes "trap_pre t r" "handle_trap t r = (Inr o', r')"
  shows "trap_operation t (ts_context (task_slot r t)) r = (Inr o', r')"
  using assms(2) running_task_iff [OF trap_preD(2) [OF assms(1)], of t] trap_preD(1,5) [OF assms(1)]
  by (simp add: handle_trap_success handle_trap_inner_eq)

lemma start_run_cases:
  assumes pre: "trap_pre t r" and code: "trap_code t r = Some Op_StartWorkload"
    and h: "handle_trap t r = (Inr o', r')"
  obtains (refused) st where "resume t st 0 r = (Inr o', r')"
    | (started) "t = 1" "sup_core r" "ts_state (rt_task1 r) = TaskState_Staged"
        "resume_validated t Status_Ok 0 (launched r) = (Inr o', r')"
proof -
  let ?c = "ts_context (task_slot r t)"
  have run: "start_workload t (cx_rdi ?c) (cx_rsi ?c) (cx_rdx ?c) r = (Inr o', r')"
    using trap_operation_run [OF pre h] code by (simp add: trap_operation_def)
  from pre show thesis
    by (cases rule: start_cases [of t r "cx_rdi ?c" "cx_rsi ?c" "cx_rdx ?c"]) (use run that in simp_all)
qed

lemma own_table_cases:
  assumes pre: "trap_pre t r" and h: "handle_trap t r = (Inr o', r')"
  obtains (kept) "ts_capabilities (task_slot r' t) = ts_capabilities (task_slot r t)"
    | (duplicated) g src rights where
        "ts_capabilities (task_slot r' t) = snd (table_duplicate t g src rights (ts_capabilities (task_slot r t)))"
    | (closed) g raw where "ts_capabilities (task_slot r' t) = snd (table_close t g raw (ts_capabilities (task_slot r t)))"
proof -
  note v = trap_preD(1) [OF pre]
  let ?c = "ts_context (task_slot r t)"
  note run = trap_operation_run [OF pre h]
  consider "trap_code t r = Some Op_Duplicate" | "trap_code t r = Some Op_Close"
    | (start) "trap_code t r = Some Op_StartWorkload"
    | "trap_code t r \<notin> {Some Op_StartWorkload, Some Op_Duplicate, Some Op_Close}" by auto
  then show thesis
  proof cases
    case 1
    then have "r' = snd (runtime_duplicate t (cx_rdi ?c) (cx_rsi ?c) (cx_rdx ?c) r)"
      using run by (simp add: trap_operation_def)
    then show ?thesis using duplicate_table [OF v] kept duplicated by (metis (full_types))
  next
    case 2
    then have "r' = snd (runtime_close t (cx_rdi ?c) (cx_rsi ?c) (cx_rdx ?c) r)"
      using run by (simp add: trap_operation_def)
    then show ?thesis using close_table [OF v] kept closed by (metis (full_types))
  next
    case start
    from pre start h show ?thesis
    proof (cases rule: start_run_cases)
      case (refused st)
      from keeps_result [OF own_commit.resume_keeps this, of t] show ?thesis by (rule kept)
    next
      case started
      from keeps_result [OF own_commit.resume_validated_keeps started(4), of t] started(1)
      show ?thesis by (intro kept) (simp add: launched_def)
    qed
  next
    case 4
    then show ?thesis using own_table_kept [OF h 4] kept by simp
  qed
qed

lemma other_table_cases:
  assumes pre: "trap_pre t r" and h: "handle_trap t r = (Inr o', r')"
  obtains (kept) "ts_capabilities (task_slot r' (other t)) = ts_capabilities (task_slot r (other t))"
    | (launched) "t = 1" "sup_core r" "ts_state (rt_task1 r) = TaskState_Staged"
        "ts_capabilities (rt_task1 r') = workload_table"
proof (cases "trap_code t r = Some Op_StartWorkload")
  case False
  then show ?thesis using other_table_kept [OF h False] kept by simp
next
  case True
  from pre True h show ?thesis
  proof (cases rule: start_run_cases)
    case (refused st)
    from keeps_result [OF other_tables.resume_keeps this, of t] show ?thesis by (rule kept)
  next
    case started
    from keeps_result [OF other_tables.resume_validated_keeps started(4), of t]
    have "ts_capabilities (rt_task1 r') = workload_table" using started(1) by (simp add: launched_def)
    then show ?thesis by (rule launched [OF started(1,2,3)])
  qed
qed

lemma own_table_allowed:
  assumes pre: "trap_pre t r" and a: "table_allowed p t (ts_capabilities (task_slot r t))"
    and h: "handle_trap t r = (Inr o', r')"
  shows "table_allowed p t (ts_capabilities (task_slot r' t))"
  by (rule own_table_cases [OF pre h])
    (simp_all add: a table_allowed_duplicate [OF trap_table_live(1) [OF pre] a] table_allowed_close [OF a])

lemma other_table_allowed:
  assumes pre: "trap_pre t r" and a: "table_allowed (rt_profile r) (other t) (ts_capabilities (task_slot r (other t)))"
    and h: "handle_trap t r = (Inr o', r')"
  shows "table_allowed (rt_profile r) (other t) (ts_capabilities (task_slot r' (other t)))"
proof -
  have "table_allowed Profile_Supervised 2 workload_table"
    unfolding workload_table_of by (rule table_allowed_of) (simp add: slot_allowed_def granted_entries_def)
  then show ?thesis
    by (cases rule: other_table_cases [OF pre h]) (use a in \<open>auto simp: sup_core_def\<close>)
qed

lemma authority_trap:
  assumes "runtime_inv r" "authority_inv r" "handle_trap t r = (x, r')"
  shows "authority_inv r'"
proof (cases x)
  case (Inl e)
  then show ?thesis using assms handle_trap_error by blast
next
  case (Inr o')
  have h: "handle_trap t r = (Inr o', r')" using assms(3) Inr by simp
  have pre: "trap_pre t r" by (rule handle_trap_pre(1) [OF assms(1) h])
  have t: "valid_task t" by (rule trap_preD(1) [OF pre])
  have "table_allowed (rt_profile r) u (ts_capabilities (task_slot r' u))" if u: "valid_task u" for u
  proof (cases "u = t")
    case True
    then show ?thesis using own_table_allowed [OF pre _ h] assms(2) t by (simp add: authority_inv_task)
  next
    case False
    then have "u = other t" using t u by (auto simp: valid_task_def)
    then show ?thesis using other_table_allowed [OF pre _ h] assms(2) u by (simp add: authority_inv_task)
  qed
  then show ?thesis using profile_kept [OF assms(3)] by (simp add: authority_inv_task)
qed

lemma dispatched_frame [simp]:
  "ts_capabilities (rt_task0 (dispatched u us r)) = ts_capabilities (rt_task0 r)"
  "ts_capabilities (rt_task1 (dispatched u us r)) = ts_capabilities (rt_task1 r)"
  "rt_profile (dispatched u us r) = rt_profile r"
  by (simp_all add: dispatched_def upd_def)

lemma authority_dispatch:
  assumes "runtime_inv r" "authority_inv r" "dispatch_next r = (x, r')"
  shows "authority_inv r'"
  using assms(1,3) by (cases rule: dispatch_next_cases) (use assms(2) in \<open>simp_all add: authority_inv_def\<close>)

lemma authority_capture:
  assumes "authority_inv r" "capture_trap t frame root g r = (x, r')"
  shows "authority_inv r'"
  using assms by (auto simp: capture_trap_eq upd_def authority_inv_def split: if_splits)

lemma authority_begin:
  assumes inv: "runtime_inv r" and a: "authority_inv r" and b: "begin_teardown t r = (x, r')"
  shows "authority_inv r'"
proof (cases x)
  case (Inl e)
  then have "r' = r" using b act_restoring_Inl [of "begin_teardown_inner t" r e r'] by (simp add: begin_teardown_def)
  with a show ?thesis by simp
next
  case (Inr u)
  then have "begin_teardown_inner t r = (Inr (), r')" using b by (simp add: begin_teardown_def act_restoring_eq_Inr)
  note pre = begin_teardown_pre [OF this]
  have r': "r' = released t r" using begin_teardown_eq(1) [OF inv pre] b by simp
  have "table_ok (ts_capabilities (task_slot r t))"
    using core_slot_inv [OF _ pre(1), of r] inv by (simp add: runtime_inv_core slot_inv_def)
  note c = table_allowed_closing [OF this pre(3)]
  have "t = 1 \<or> t = 2" using pre(1) by (auto simp: valid_task_def)
  with a c show ?thesis
    by (auto simp: r' released_def sup_released_def coop_released_def woken_def authority_inv_def Let_def)
qed

lemma authority_complete:
  assumes inv: "runtime_inv r" and a: "authority_inv r" and c: "complete_teardown t r = (x, r')"
  shows "authority_inv r'"
proof (cases x)
  case (Inl e)
  then have "r' = r" using c act_restoring_Inl [of "complete_teardown_inner t" r e r'] by (simp add: complete_teardown_def)
  with a show ?thesis by simp
next
  case (Inr n)
  then have ci: "complete_teardown_inner t r = (Inr n, r')" using c by (simp add: complete_teardown_def act_restoring_eq_Inr)
  note pre = complete_teardown_pre [OF ci]
  have "authority_inv (reclaimed t r)"
    using a pre(1) by (auto simp: authority_inv_def reclaimed_def upd_def Let_def)
  then show ?thesis
    using authority_dispatch [OF reclaimed_inv [OF inv pre]] ci complete_teardown_inner_eq [OF inv pre] by simp
qed

lemma authority_start: "runtime_start r \<Longrightarrow> authority_inv r"
proof -
  have "authority_inv (published_coop a b)" for a b
    unfolding authority_inv_def
    by (intro conjI) (auto simp: published_coop_def slot_allowed_def sender_entry_def receiver_entry_def
        entry_for_def rights_subset_def intro!: table_allowed_of)
  moreover have "authority_inv (published_sup supervisor_entries a b)" for a b
    unfolding authority_inv_def
    by (intro conjI)
      (auto simp: published_sup_def slot_allowed_def granted_entries_def table_building_of nth_append
        intro!: table_allowed_of)
  ultimately show "runtime_start r \<Longrightarrow> authority_inv r"
    by (auto simp: runtime_start_def dest!: runtime_new_inv(1) new_supervised_inv(1))
qed

lemma authority_step:
  assumes "api_step r r'" "runtime_inv r" "authority_inv r"
  shows "authority_inv r'"
  using assms
  by (induction rule: api_step.induct)
    (blast intro: authority_dispatch authority_capture authority_trap authority_begin authority_complete)+

interpretation authority: inductive_invariant runtime_start api_step "\<lambda>r. runtime_inv r \<and> authority_inv r"
  by unfold_locales (auto intro: runtime_start_inv authority_start authority_step api_step_inv)

lemma reachable_authority: "runtime_reachable r \<Longrightarrow> authority_inv r"
  by (auto simp: runtime_reachable_def dest: authority.reachable_invar)

lemma table_allowed_live:
  assumes "table_allowed p t c" "live_entry c raw = Some e"
  obtains i where "i < 16" "slot_allowed p t i e"
  using assms
  by (auto simp: live_entry_def table_allowed_def split: option.splits if_splits dest!: handle_decode_SomeD)

end
