(* ===== verification/Journaled_Runtime.thy ===== *)
theory Journaled_Runtime
  imports Effect_Journal Runtime_Authority
begin

text \<open>
  The runtime with its effect journal: \<open>JournaledRuntime\<close> of \<open>crates/task-runtime/src/lib.rs\<close>.
  Every call of the inner runtime is wrapped; requests, decisions and outcomes of the approval broker are
  recorded in the journal, and a failure to record undoes the whole call.
\<close>


section \<open>State and self-check\<close>

record JournaledRuntime =
  jr_runtime :: Runtime
  jr_journal :: EffectJournalV1

text \<open>Calls on the two fields.\<close>

definition on_runtime :: "(Runtime, 'e, 'a) action \<Rightarrow> (JournaledRuntime, 'e, 'a) action" where
  "on_runtime f j = (case f (jr_runtime j) of (x, r) \<Rightarrow> (x, j\<lparr>jr_runtime := r\<rparr>))"

definition on_journal :: "(EffectJournalV1, 'e, 'a) action \<Rightarrow> (JournaledRuntime, 'e, 'a) action" where
  "on_journal f j = (case f (jr_journal j) of (x, k) \<Rightarrow> (x, j\<lparr>jr_journal := k\<rparr>))"

definition journal_entries :: "CapabilityTable \<Rightarrow> CapabilityEntry list" where
  "journal_entries table =
     filter (\<lambda>entry. ce_object_type entry = OBJECT_TYPE_EFFECT_JOURNAL)
       (List.map_filter cs_entry (ct_slots table))"

definition validate_journal_state :: "JournaledRuntime \<Rightarrow> RuntimeError + unit" where
  "validate_journal_state j =
     (let r = jr_runtime j; journal = jr_journal j; broker = rt_broker r
      in case ej_state journal of
           Journal_Building \<Rightarrow> Inl Err_JournalInvariant
         | Journal_Live \<Rightarrow>
             (if list_all (\<lambda>task. ts_state task = TaskState_Dead) (rt_tasks r)
              then Inl Err_JournalInvariant
              else if ej_reserved_record_count journal \<noteq>
                   (case ab_state broker of Broker_Pending \<Rightarrow> 2 | Broker_Approved \<Rightarrow> 1 | _ \<Rightarrow> 0)
              then Inl Err_JournalInvariant
              else Inr ())
         | Journal_Sealed \<Rightarrow>
             (if ej_reserved_record_count journal \<noteq> 0 \<or> ab_request_present broker
                 \<or> ab_state broker = Broker_Pending \<or> ab_state broker = Broker_Approved
              then Inl Err_JournalInvariant
              else Inr ())
         | Journal_Dead \<Rightarrow>
             (if list_ex (\<lambda>task. ts_state task \<noteq> TaskState_Dead) (rt_tasks r)
                 \<or> length (journal_entries (ts_capabilities (rt_task0 r))) \<noteq> 0
              then Inl Err_JournalInvariant
              else Inr ()))"

definition journaled_validate :: "JournaledRuntime \<Rightarrow> RuntimeError + unit" where
  "journaled_validate j =
     (let r = jr_runtime j; journal = jr_journal j
      in and_then (runtime_validate r) (\<lambda>_.
         and_then (map_err (\<lambda>_. Err_JournalInvariant) (journal_validate journal)) (\<lambda>_.
           let supervisor_journal_entries = journal_entries (ts_capabilities (rt_task0 r));
               workload_journal_entries = journal_entries (ts_capabilities (rt_task1 r))
           in if length supervisor_journal_entries > 1 \<or> length workload_journal_entries \<noteq> 0
              then Inl Err_JournalInvariant
              else if list_ex (\<lambda>entry. ce_rights entry \<noteq> CAPABILITY_RIGHT_READ_EFFECT_JOURNAL
                        \<or> or_id (ce_object entry) \<noteq> EFFECT_JOURNAL_OBJECT_ID
                        \<or> or_generation (ce_object entry) \<noteq> EFFECT_JOURNAL_OBJECT_GENERATION)
                     supervisor_journal_entries
              then Inl Err_JournalInvariant
              else
                and_then (validate_journal_state j) (\<lambda>_.
                  if ts_state (rt_task1 r) = TaskState_Dead
                     \<and> \<not> (ej_state journal = Journal_Sealed \<or> ej_state journal = Journal_Dead)
                  then Inl Err_JournalInvariant
                  else Inr ()))))"


section \<open>Accessors\<close>

definition journaled_state :: "JournaledRuntime \<Rightarrow> u64 \<Rightarrow> RuntimeError + TaskState" where
  "journaled_state j task = runtime_state (jr_runtime j) task"

definition journaled_generation :: "JournaledRuntime \<Rightarrow> u64 \<Rightarrow> RuntimeError + u64" where
  "journaled_generation j task = runtime_generation (jr_runtime j) task"

definition journaled_context :: "JournaledRuntime \<Rightarrow> u64 \<Rightarrow> RuntimeError + TaskContextV1" where
  "journaled_context j task = runtime_context (jr_runtime j) task"

definition journaled_queue :: "JournaledRuntime \<Rightarrow> u64 list \<times> nat" where
  "journaled_queue j = runtime_queue (jr_runtime j)"

definition journaled_endpoint :: "JournaledRuntime \<Rightarrow> EndpointSnapshot" where
  "journaled_endpoint j = runtime_endpoint (jr_runtime j)"

definition journaled_manifest_publication :: "JournaledRuntime \<Rightarrow> ManifestPublicationSnapshot" where
  "journaled_manifest_publication j = manifest_publication (jr_runtime j)"

definition journaled_approval_broker :: "JournaledRuntime \<Rightarrow> ApprovalBrokerSnapshot" where
  "journaled_approval_broker j = approval_broker (jr_runtime j)"

definition journaled_synthetic_effect :: "JournaledRuntime \<Rightarrow> SyntheticEffectSnapshot" where
  "journaled_synthetic_effect j = synthetic_effect (jr_runtime j)"

definition effect_journal :: "JournaledRuntime \<Rightarrow> EffectJournalSnapshot" where
  "effect_journal j = journal_snapshot (jr_journal j)"

fun journal_status :: "EffectJournalError \<Rightarrow> TrapStatus" where
  "journal_status JournalError_Full = Status_JournalFull"
| "journal_status JournalError_Unavailable = Status_JournalUnavailable"
| "journal_status JournalError_Invariant = Status_JournalUnavailable"
| "journal_status JournalError_InvalidRecord = Status_InvalidRecord"

definition effect_record :: "JournaledRuntime \<Rightarrow> u64 \<Rightarrow> TrapStatus + EffectRecordV1" where
  "effect_record j sequence = map_err journal_status (journal_record (jr_journal j) sequence)"

definition journaled_capability_table :: "JournaledRuntime \<Rightarrow> u64 \<Rightarrow> RuntimeError + CapabilityTableSnapshot" where
  "journaled_capability_table j task = capability_table (jr_runtime j) task"

definition journaled_running_task :: "JournaledRuntime \<Rightarrow> RuntimeError + u64" where
  "journaled_running_task j = running_task (jr_runtime j)"

definition journaled_dispatch_next :: "(JournaledRuntime, RuntimeError, u64 option) action" where
  "journaled_dispatch_next = on_runtime dispatch_next"

definition journaled_capture_trap ::
  "u64 \<Rightarrow> TrapFrameV1 \<Rightarrow> u64 \<Rightarrow> u64 \<Rightarrow> (JournaledRuntime, RuntimeError, unit) action" where
  "journaled_capture_trap task frame root generation = on_runtime (capture_trap task frame root generation)"


section \<open>Construction\<close>

definition journaled_rollback_publication :: "u64 list \<Rightarrow> u64 \<Rightarrow> JournaledRuntime \<Rightarrow> JournaledRuntime" where
  "journaled_rollback_publication base_handles journal_handle j =
     (let r = jr_runtime j;
          r1 = (if journal_handle \<noteq> 0
                then r\<lparr>rt_task0 := (rt_task0 r)\<lparr>ts_capabilities :=
                        rollback_install journal_handle (ts_capabilities (rt_task0 r))\<rparr>\<rparr>
                else r)
      in j\<lparr>jr_journal := journal_clear_dead (jr_journal j),
           jr_runtime := rollback_supervisor_publication base_handles r1\<rparr>)"

fun journaled_installs ::
  "nat option \<Rightarrow> (nat \<times> u32 \<times> u64 \<times> u64) list \<Rightarrow> u64 list \<Rightarrow> (JournaledRuntime, RuntimeError, u64 list) action" where
  "journaled_installs fail_before_step [] base_handles j = (Inr base_handles, j)"
| "journaled_installs fail_before_step ((step, object_type, object_id, rights) # rest) base_handles j =
     (if fail_before_step = Some step
      then (Inl Err_PublicationFailure, journaled_rollback_publication base_handles 0 j)
      else
        (case on_runtime (task0_capabilities
                (install_object_building object_type
                   \<lparr>or_id = object_id, or_generation = FIXED_OBJECT_GENERATION\<rparr> rights)) j of
           (Inl error, j') \<Rightarrow> (Inl error, journaled_rollback_publication base_handles 0 j')
         | (Inr handle, j') \<Rightarrow> journaled_installs fail_before_step rest (base_handles @ [handle]) j'))"

text \<open>The steps from the publication of the journal on.\<close>

definition journaled_publish_live ::
  "nat option \<Rightarrow> u64 list \<Rightarrow> u64 \<Rightarrow> (JournaledRuntime, RuntimeError, unit) action" where
  "journaled_publish_live fail_before_step base_handles journal_handle j =
     (let undo = journaled_rollback_publication base_handles journal_handle
      in if fail_before_step = Some 4 then (Inl Err_PublicationFailure, undo j)
         else
           (case on_journal journal_publish j of
              (Inl _, j1) \<Rightarrow> (Inl Err_JournalInvariant, undo j1)
            | (Inr _, j1) \<Rightarrow>
                (if fail_before_step = Some 5 then (Inl Err_PublicationFailure, undo j1)
                 else
                   (case on_runtime (task0_capabilities table_publish) j1 of
                      (Inl _, j2) \<Rightarrow> (Inl Err_CapabilityInvariant, undo j2)
                    | (Inr _, j2) \<Rightarrow>
                        (let j3 = j2\<lparr>jr_runtime := (jr_runtime j2)
                               \<lparr>rt_broker := (rt_broker (jr_runtime j2))\<lparr>ab_state := Broker_Empty\<rparr>\<rparr>\<rparr>
                         in if fail_before_step = Some 6 then (Inl Err_PublicationFailure, undo j3)
                            else
                              (case act_then (on_runtime (queue_push_action SENDER_TASK_ID))
                                      (act_read journaled_validate) j3 of
                                 (Inl _, j4) \<Rightarrow> (Inl Err_PublicationFailure, undo j4)
                               | (Inr _, j4) \<Rightarrow> (Inr (), j4)))))))"

definition journaled_publish_supervisor :: "nat option \<Rightarrow> (JournaledRuntime, RuntimeError, unit) action" where
  "journaled_publish_supervisor fail_before_step j =
     (case journaled_installs fail_before_step
             [(0, OBJECT_TYPE_TASK_CONTROL, TASK_CONTROL_OBJECT_ID, CAPABILITY_RIGHT_START),
              (1, OBJECT_TYPE_APPROVAL_BROKER, APPROVAL_BROKER_OBJECT_ID, CAPABILITY_RIGHT_DECIDE_APPROVAL),
              (2, OBJECT_TYPE_TEST_EFFECT, TEST_EFFECT_OBJECT_ID, CAPABILITY_RIGHT_COMMIT_EFFECT)] [] j of
        (Inl error, j1) \<Rightarrow> (Inl error, j1)
      | (Inr base_handles, j1) \<Rightarrow>
          (if fail_before_step = Some 3
           then (Inl Err_PublicationFailure, journaled_rollback_publication base_handles 0 j1)
           else
             (case on_runtime (task0_capabilities
                     (install_object_building OBJECT_TYPE_EFFECT_JOURNAL
                        \<lparr>or_id = EFFECT_JOURNAL_OBJECT_ID,
                         or_generation = EFFECT_JOURNAL_OBJECT_GENERATION\<rparr>
                        CAPABILITY_RIGHT_READ_EFFECT_JOURNAL)) j1 of
                (Inl error, j2) \<Rightarrow> (Inl error, journaled_rollback_publication base_handles 0 j2)
              | (Inr handle, j2) \<Rightarrow>
                  (if handle = SUPERVISOR_JOURNAL_HANDLE
                   then journaled_publish_live fail_before_step base_handles handle j2
                   else
                     (let r = jr_runtime j2;
                          j3 = j2\<lparr>jr_runtime := r\<lparr>rt_task0 := (rt_task0 r)\<lparr>ts_capabilities :=
                                    rollback_install handle (ts_capabilities (rt_task0 r))\<rparr>\<rparr>\<rparr>
                      in (Inl Err_CapabilityInvariant,
                          journaled_rollback_publication base_handles 0 j3))))))"

definition journaled_unpublished :: "TaskContextV1 \<Rightarrow> TaskContextV1 \<Rightarrow> JournaledRuntime" where
  "journaled_unpublished supervisor workload =
     \<lparr>jr_runtime = unpublished_supervised supervisor workload, jr_journal = journal_building\<rparr>"

definition journaled_new_supervised ::
  "TaskContextV1 \<Rightarrow> TaskContextV1 \<Rightarrow> RuntimeError + JournaledRuntime" where
  "journaled_new_supervised supervisor workload =
     (if cx_task_id supervisor \<noteq> SENDER_TASK_ID \<or> cx_task_id workload \<noteq> RECEIVER_TASK_ID
      then Inl Err_InvalidTask
      else if cx_generation supervisor \<noteq> SUPERVISOR_GENERATION
         \<or> cx_generation workload \<noteq> WORKLOAD_GENERATION
      then Inl Err_InvalidGeneration
      else
        (case journaled_publish_supervisor None (journaled_unpublished supervisor workload) of
           (Inl error, j) \<Rightarrow> Inl error
         | (Inr _, j) \<Rightarrow> Inr j))"


section \<open>Traps\<close>

definition set_journal_output ::
  "u64 \<Rightarrow> TrapStatus \<Rightarrow> u64 \<times> u64 \<times> u64 \<Rightarrow> (JournaledRuntime, RuntimeError, unit) action" where
  "set_journal_output task status values =
     on_runtime (slot_mut task (\<lambda>s. s\<lparr>ts_context := (ts_context s)
       \<lparr>cx_rax := status_code status, cx_rdi := fst values, cx_rsi := fst (snd values),
        cx_rdx := snd (snd values)\<rparr>\<rparr>))"

definition handle_journal_read ::
  "u64 \<Rightarrow> TrapOperation \<Rightarrow> TaskContextV1 \<Rightarrow> (JournaledRuntime, RuntimeError, TrapOutcome) action" where
  "handle_journal_read task operation input j =
     (let journal = jr_journal j;
          status =
            (if operation = Op_InspectEffectJournal \<and> (cx_rsi input \<noteq> 0 \<or> cx_rdx input \<noteq> 0)
             then Some Status_InvalidOperation
             else
               (case resolve_object (jr_runtime j) task (cx_rdi input) OBJECT_TYPE_EFFECT_JOURNAL
                       CAPABILITY_RIGHT_READ_EFFECT_JOURNAL EFFECT_JOURNAL_OBJECT_ID
                       (ej_object_generation journal) of
                  Inl status \<Rightarrow> Some status
                | Inr _ \<Rightarrow>
                    (if \<not> (ej_state journal = Journal_Live \<or> ej_state journal = Journal_Sealed)
                     then Some Status_JournalUnavailable else None)))
      in case status of
           Some status \<Rightarrow>
             act_then (set_journal_output task status (0, 0, 0)) (act_return (Outcome_Resume task)) j
         | None \<Rightarrow>
             act_then
               (case operation of
                  Op_InspectEffectJournal \<Rightarrow>
                    set_journal_output task Status_Ok
                      (if ej_committed_record_count journal = 0 then 0 else 1,
                       ej_next_record_sequence journal, ucast (ej_committed_record_count journal))
                | Op_ReadEffectRecord \<Rightarrow>
                    (case read_triplet journal (cx_rsi input) (cx_rdx input) of
                       Inr words \<Rightarrow> set_journal_output task Status_Ok words
                     | Inl error \<Rightarrow> set_journal_output task (journal_status error) (0, 0, 0))
                | _ \<Rightarrow> act_fail Err_JournalInvariant)
             (act_then (act_read journaled_validate) (act_return (Outcome_Resume task))) j)"

definition rollback_submit ::
  "JournaledRuntime \<Rightarrow> u64 \<Rightarrow> EffectJournalError \<Rightarrow> (JournaledRuntime, RuntimeError, TrapOutcome) action" where
  "rollback_submit before task error j =
     (let refuse = (\<lambda>status.
            act_then (on_runtime (set_result task status 0))
            (act_then (act_read journaled_validate) (act_return (Outcome_Resume task))) before)
      in case error of
           JournalError_Full \<Rightarrow> refuse Status_JournalFull
         | JournalError_Unavailable \<Rightarrow> refuse Status_JournalUnavailable
         | _ \<Rightarrow> (Inl Err_JournalInvariant, before))"

text \<open>
  The arms of the match that journals what the inner trap did.  Each returns \<open>Some\<close> outcome where the
  source returns early and \<open>None\<close> where it goes on to the common end.
\<close>

definition journal_submit ::
  "u64 \<Rightarrow> JournaledRuntime \<Rightarrow> (JournaledRuntime, RuntimeError, TrapOutcome option) action" where
  "journal_submit task before j =
     (if ab_decision_epoch (rt_broker (jr_runtime before)) > u64_MAX - 3 then
        act_then (on_runtime (set_result task Status_BrokerUnavailable 0))
        (act_then (act_read journaled_validate) (act_return (Some (Outcome_Resume task)))) before
      else
        (let broker = rt_broker (jr_runtime j);
             record = record_event Event_Requested Status_Ok (ab_decision_epoch broker) RECEIVER_TASK_ID
               WORKLOAD_GENERATION (ab_request broker) OBJECT_TYPE_APPROVAL_BROKER
               CAPABILITY_RIGHT_SUBMIT_APPROVAL
         in case on_journal (begin_lifecycle record) j of
              (Inl error, j1) \<Rightarrow> act_bind (rollback_submit before task error) (\<lambda>out. act_return (Some out)) j1
            | (Inr _, j1) \<Rightarrow> (Inr None, j1)))"

definition journal_decision ::
  "u64 \<Rightarrow> JournaledRuntime \<Rightarrow> (JournaledRuntime, RuntimeError, TrapOutcome option) action" where
  "journal_decision decision before j =
     (let state = ab_state (rt_broker (jr_runtime j));
          before_broker = rt_broker (jr_runtime before);
          terminal =
            (if decision = DECISION_APPROVE \<and> state = Broker_Approved
             then Some (Event_Approved, Status_Ok, False)
             else if decision = DECISION_DENY \<and> state = Broker_Empty
             then Some (Event_Denied, Status_ApprovalDenied, True)
             else if decision = DECISION_EXPIRE \<and> state = Broker_Empty
             then Some (Event_Expired, Status_ApprovalExpired, ab_state before_broker = Broker_Pending)
             else None)
      in case terminal of
           None \<Rightarrow> (Inl Err_JournalInvariant, j)
         | Some (kind, status, release_unused) \<Rightarrow>
             (let record = record_event kind status (ab_decision_epoch (rt_broker (jr_runtime j)))
                    SENDER_TASK_ID SUPERVISOR_GENERATION (ab_request before_broker)
                    OBJECT_TYPE_APPROVAL_BROKER CAPABILITY_RIGHT_DECIDE_APPROVAL
              in case on_journal (append_reserved record release_unused) j of
                   (Inl _, _) \<Rightarrow> (Inl Err_JournalInvariant, before)
                 | (Inr _, j1) \<Rightarrow> (Inr None, j1)))"

definition journal_completion ::
  "JournaledRuntime \<Rightarrow> (JournaledRuntime, RuntimeError, TrapOutcome option) action" where
  "journal_completion before j =
     (let record = record_event Event_Completed Status_Ok (ab_decision_epoch (rt_broker (jr_runtime j)))
            SENDER_TASK_ID SUPERVISOR_GENERATION (ab_request (rt_broker (jr_runtime before)))
            OBJECT_TYPE_TEST_EFFECT CAPABILITY_RIGHT_COMMIT_EFFECT
      in case on_journal (append_reserved record False) j of
           (Inl _, _) \<Rightarrow> (Inl Err_JournalInvariant, before)
         | (Inr _, j1) \<Rightarrow> (Inr None, j1))"

definition journal_failure ::
  "u64 \<Rightarrow> JournaledRuntime \<Rightarrow> (JournaledRuntime, RuntimeError, TrapOutcome option) action" where
  "journal_failure task before j =
     (case checked_add (ab_decision_epoch (rt_broker (jr_runtime j))) 1 of
        None \<Rightarrow> (Inl Err_BrokerInvariant, j)
      | Some next_epoch \<Rightarrow>
          (let record = record_event Event_Failed Status_EffectUnavailable next_epoch SENDER_TASK_ID
                 SUPERVISOR_GENERATION (ab_request (rt_broker (jr_runtime before)))
                 OBJECT_TYPE_TEST_EFFECT CAPABILITY_RIGHT_COMMIT_EFFECT
           in act_then
                (on_runtime (modify_broker (\<lambda>b.
                   (clear_request (b\<lparr>ab_decision_epoch := next_epoch\<rparr>))\<lparr>ab_state := Broker_Empty\<rparr>)))
              (act_then (on_runtime (wake_workload Status_EffectUnavailable 0))
              (act_then (on_runtime (set_result task Status_EffectUnavailable 0))
              (\<lambda>j. case on_journal (append_reserved record False) j of
                     (Inl _, _) \<Rightarrow> (Inl Err_JournalInvariant, before)
                   | (Inr _, j1) \<Rightarrow> (Inr None, j1)))) j))"

definition result_is :: "u64 \<Rightarrow> TrapStatus \<Rightarrow> JournaledRuntime \<Rightarrow> RuntimeError + bool" where
  "result_is task status j =
     and_then (runtime_context (jr_runtime j) task) (\<lambda>c. Inr (cx_rax c = status_code status))"

definition journal_trap ::
  "u64 \<Rightarrow> TrapOperation option \<Rightarrow> TaskContextV1 \<Rightarrow> JournaledRuntime \<Rightarrow>
   (JournaledRuntime, RuntimeError, TrapOutcome option) action" where
  "journal_trap task operation input before j =
     (let b0 = rt_broker (jr_runtime before); b1 = rt_broker (jr_runtime j);
          when = (\<lambda>status arm.
            act_bind (act_read (result_is task status)) (\<lambda>is. if is then arm else act_return None) j)
      in if operation = Some Op_SubmitApproval \<and> ab_state b0 = Broker_Empty
            \<and> ab_state b1 = Broker_Pending \<and> ab_request_present b1
         then journal_submit task before j
         else if operation = Some Op_DecideApproval \<and> ab_request_present b0
         then when Status_Ok (journal_decision (cx_rdx input) before)
         else if operation = Some Op_CommitEffect \<and> ab_state b0 = Broker_Approved
            \<and> ab_state b1 = Broker_Empty
         then when Status_Ok (journal_completion before)
         else if operation = Some Op_CommitEffect \<and> ab_state b0 = Broker_Approved
            \<and> ab_state b1 = Broker_Approved
         then when Status_EffectUnavailable (journal_failure task before)
         else (Inr None, j))"

definition journaled_handle_trap :: "u64 \<Rightarrow> (JournaledRuntime, RuntimeError, TrapOutcome) action" where
  "journaled_handle_trap task =
     act_bind (act_read (\<lambda>j. running_task (jr_runtime j))) (\<lambda>running.
       if running \<noteq> task then act_fail Err_WrongState
       else
         act_bind (act_read (\<lambda>j. runtime_context (jr_runtime j) task)) (\<lambda>input.
           let operation = TrapOperation_parse (cx_rax input)
           in if operation = Some Op_InspectEffectJournal \<or> operation = Some Op_ReadEffectRecord
              then handle_journal_read task (the operation) input
              else (\<lambda>before.
                case on_runtime (handle_trap task) before of
                  (Inl error, _) \<Rightarrow> (Inl error, before)
                | (Inr outcome, j) \<Rightarrow>
                    (case journal_trap task operation input before j of
                       (Inl error, j1) \<Rightarrow> (Inl error, j1)
                     | (Inr (Some out), j1) \<Rightarrow> (Inr out, j1)
                     | (Inr None, j1) \<Rightarrow>
                         (if is_err (journaled_validate j1) then (Inl Err_JournalInvariant, before)
                          else (Inr outcome, j1))))))"


section \<open>Teardown\<close>

text \<open>What \<open>begin_teardown\<close> does to a live journal: a request still open gets its terminal record, then the journal is sealed.\<close>

definition journal_open_request :: "(JournaledRuntime, RuntimeError, unit) action" where
  "journal_open_request j =
     (let broker = rt_broker (jr_runtime j)
      in if \<not> ab_request_present broker then (Inr (), j)
         else
           (case checked_add (ab_decision_epoch broker) 1 of
              None \<Rightarrow> (Inl Err_JournalInvariant, j)
            | Some terminal_epoch \<Rightarrow>
                (let j1 = j\<lparr>jr_runtime := (jr_runtime j)
                       \<lparr>rt_broker := broker\<lparr>ab_decision_epoch := terminal_epoch\<rparr>\<rparr>\<rparr>;
                     terminal =
                       (case ab_state broker of
                          Broker_Pending \<Rightarrow> Some (Event_Denied, Status_ApprovalDenied, True)
                        | Broker_Approved \<Rightarrow> Some (Event_Expired, Status_ApprovalExpired, False)
                        | _ \<Rightarrow> None)
                 in case terminal of
                      None \<Rightarrow> (Inl Err_JournalInvariant, j1)
                    | Some (kind, status, release_unused) \<Rightarrow>
                        (let record = record_event kind status terminal_epoch 0 0 (ab_request broker)
                               OBJECT_TYPE_APPROVAL_BROKER 0
                         in case on_journal (append_reserved record release_unused) j1 of
                              (Inl _, _) \<Rightarrow> (Inl Err_JournalInvariant, j)
                            | (Inr _, j2) \<Rightarrow> (Inr (), j2)))))"

definition journaled_begin_teardown :: "u64 \<Rightarrow> (JournaledRuntime, RuntimeError, unit) action" where
  "journaled_begin_teardown task =
     act_bind (act_read (\<lambda>j. slot (jr_runtime j) task)) (\<lambda>s before.
       if ts_state s \<noteq> TaskState_Exited then (Inl Err_WrongState, before)
       else
         act_then
           (\<lambda>j. if ej_state (jr_journal j) = Journal_Live then
                   act_then journal_open_request
                     (\<lambda>j. case on_journal journal_seal j of
                            (Inl _, _) \<Rightarrow> (Inl Err_JournalInvariant, before)
                          | (Inr _, j1) \<Rightarrow> (Inr (), j1)) j
                 else (Inr (), j))
           (\<lambda>j. case on_runtime (begin_teardown task) j of
                  (Inl error, _) \<Rightarrow> (Inl error, before)
                | (Inr _, j1) \<Rightarrow>
                    (if is_err (journaled_validate j1) then (Inl Err_JournalInvariant, before)
                     else (Inr (), j1))) before)"

definition journaled_complete_teardown :: "u64 \<Rightarrow> (JournaledRuntime, RuntimeError, u64 option) action" where
  "journaled_complete_teardown task before =
     (case on_runtime (complete_teardown task) before of
        (Inr next_task, j) \<Rightarrow>
          (if is_ok (journaled_validate j) then (Inr next_task, j) else (Inl Err_JournalInvariant, before))
      | (Inl error, _) \<Rightarrow> (Inl error, before))"

definition finish_reclamation :: "(JournaledRuntime, RuntimeError, unit) action" where
  "finish_reclamation before =
     (let journal = jr_journal before
      in if list_ex (\<lambda>task. ts_state task \<noteq> TaskState_Dead) (rt_tasks (jr_runtime before))
            \<or> ej_state journal \<noteq> Journal_Sealed
            \<or> ej_reserved_record_count journal \<noteq> 0
            \<or> is_err (journal_validate journal)
         then (Inl Err_JournalInvariant, before)
         else
           (let j = before\<lparr>jr_journal := journal_clear_dead journal\<rparr>
            in if is_err (journaled_validate j) then (Inl Err_JournalInvariant, before) else (Inr (), j)))"

end
