(* ===== verification/Journaled_Inv.thy ===== *)
theory Journaled_Inv
  imports Journaled_Runtime
begin

text \<open>
  The invariant that ties the journal to the broker, that it implies the self-check, and the two ways a
  trap keeps it: without touching the broker, or with one record appended.
\<close>


section \<open>The invariant of the journaled runtime\<close>

definition expected_reserved :: "ApprovalBrokerState \<Rightarrow> u8" where
  "expected_reserved st = (case st of Broker_Pending \<Rightarrow> 2 | Broker_Approved \<Rightarrow> 1 | _ \<Rightarrow> 0)"

abbreviation table_state :: "Runtime \<Rightarrow> u64 \<Rightarrow> CapabilityTableState" where
  "table_state r t \<equiv> ct_state (ts_capabilities (task_slot r t))"

text \<open>The records of the steps of a request, without their place in the journal.\<close>

definition requested_record :: "u64 \<Rightarrow> ApprovalRequestV1 \<Rightarrow> EffectRecordV1" where
  "requested_record epoch request =
     record_event Event_Requested Status_Ok epoch RECEIVER_TASK_ID WORKLOAD_GENERATION request
       OBJECT_TYPE_APPROVAL_BROKER CAPABILITY_RIGHT_SUBMIT_APPROVAL"

definition decision_record :: "EffectEventKind \<Rightarrow> TrapStatus \<Rightarrow> u64 \<Rightarrow> ApprovalRequestV1 \<Rightarrow> EffectRecordV1" where
  "decision_record kind status epoch request =
     record_event kind status epoch SENDER_TASK_ID SUPERVISOR_GENERATION request
       OBJECT_TYPE_APPROVAL_BROKER CAPABILITY_RIGHT_DECIDE_APPROVAL"

definition outcome_record :: "EffectEventKind \<Rightarrow> TrapStatus \<Rightarrow> u64 \<Rightarrow> ApprovalRequestV1 \<Rightarrow> EffectRecordV1" where
  "outcome_record kind status epoch request =
     record_event kind status epoch SENDER_TASK_ID SUPERVISOR_GENERATION request
       OBJECT_TYPE_TEST_EFFECT CAPABILITY_RIGHT_COMMIT_EFFECT"

definition teardown_record :: "EffectEventKind \<Rightarrow> TrapStatus \<Rightarrow> u64 \<Rightarrow> ApprovalRequestV1 \<Rightarrow> EffectRecordV1" where
  "teardown_record kind status epoch request =
     record_event kind status epoch 0 0 request OBJECT_TYPE_APPROVAL_BROKER 0"

fun numbered :: "nat \<Rightarrow> EffectRecordV1 list \<Rightarrow> EffectRecordV1 list" where
  "numbered n [] = []"
| "numbered n (r # rs) = sequenced n r # numbered (Suc n) rs"

text \<open>A log that ends with the given records.\<close>

definition logged :: "EffectRecordV1 list \<Rightarrow> EffectRecordV1 list \<Rightarrow> bool" where
  "logged rs log \<longleftrightarrow> (\<exists>xs. log = xs @ numbered (length xs) rs)"

text \<open>
  The abstract audit protocol: what an auditor who sees only the kinds of the records in their order
  accepts, and the phase of the one request that may be open.
\<close>

datatype audit_phase = Audit_Idle | Audit_Requested | Audit_Approved

definition audit_step :: "audit_phase \<Rightarrow> u32 \<Rightarrow> audit_phase option" where
  "audit_step p kind =
     (case p of
        Audit_Idle \<Rightarrow> if kind = event_code Event_Requested then Some Audit_Requested else None
      | Audit_Requested \<Rightarrow>
          (if kind = event_code Event_Approved then Some Audit_Approved
           else if kind = event_code Event_Denied \<or> kind = event_code Event_Expired then Some Audit_Idle
           else None)
      | Audit_Approved \<Rightarrow>
          (if kind = event_code Event_Completed \<or> kind = event_code Event_Failed \<or> kind = event_code Event_Expired
           then Some Audit_Idle else None))"

definition audit :: "EffectRecordV1 list \<Rightarrow> audit_phase option" where
  "audit log = foldl (\<lambda>p r. Option.bind p (\<lambda>p. audit_step p (er_event_kind r))) (Some Audit_Idle) log"

definition broker_phase :: "ApprovalBrokerState \<Rightarrow> audit_phase" where
  "broker_phase st =
     (case st of Broker_Pending \<Rightarrow> Audit_Requested | Broker_Approved \<Rightarrow> Audit_Approved | _ \<Rightarrow> Audit_Idle)"

lemma audit_Nil [simp]: "audit [] = Some Audit_Idle"
  by (simp add: audit_def)

lemma audit_snoc [simp]:
  "audit (log @ [sequenced n r]) = Option.bind (audit log) (\<lambda>p. audit_step p (er_event_kind r))"
  by (simp add: audit_def sequenced_def)

lemma record_kinds [simp]:
  "er_event_kind (requested_record e q) = event_code Event_Requested"
  "er_event_kind (decision_record k st e q) = event_code k"
  "er_event_kind (outcome_record k st e q) = event_code k"
  "er_event_kind (teardown_record k st e q) = event_code k"
  by (simp_all add: requested_record_def decision_record_def outcome_record_def teardown_record_def record_event_def)

lemmas audit_simps = audit_step_def broker_phase_def

definition request_logged :: "ApprovalBroker \<Rightarrow> EffectRecordV1 list \<Rightarrow> bool" where
  "request_logged b log \<longleftrightarrow> audit log = Some (broker_phase (ab_state b))
     \<and> (ab_state b = Broker_Pending \<longrightarrow> logged [requested_record (ab_decision_epoch b) (ab_request b)] log)
     \<and> (ab_state b = Broker_Approved \<longrightarrow>
          logged [requested_record (ab_decision_epoch b - 1) (ab_request b),
                  decision_record Event_Approved Status_Ok (ab_decision_epoch b) (ab_request b)] log)"

lemma numbered_snoc: "numbered n (rs @ [r]) = numbered n rs @ [sequenced (n + length rs) r]"
  by (induction rs arbitrary: n) simp_all

lemma length_numbered [simp]: "length (numbered n rs) = length rs"
  by (induction rs arbitrary: n) simp_all

lemma logged_snoc: "logged rs log \<Longrightarrow> logged (rs @ [r]) (log @ [sequenced (length log) r])"
  by (force simp: logged_def numbered_snoc)

lemma logged_single [simp]: "logged [r] (log @ [sequenced (length log) r])"
  by (auto simp: logged_def)

text \<open>
  How the journal follows the broker.  A live journal has reserved a record for every step the open
  request may still take, it is accepted by the audit with the broker's phase, its last records are those
  of the steps taken, and the epoch leaves room for the rest; a sealed journal is complete and belongs to a
  broker that can accept no request any more.
\<close>

definition journal_follows :: "Runtime \<Rightarrow> EffectJournalV1 \<Rightarrow> bool" where
  "journal_follows r k \<longleftrightarrow>
     (case ej_state k of
        Journal_Building \<Rightarrow> False
      | Journal_Live \<Rightarrow>
          ej_reserved_record_count k = expected_reserved (ab_state (rt_broker r))
          \<and> (ab_state (rt_broker r) = Broker_Pending \<longrightarrow> unat (ab_decision_epoch (rt_broker r)) + 2 < 2 ^ 64)
          \<and> request_logged (rt_broker r) (journal_log k)
          \<and> table_state r SENDER_TASK_ID = Cap_Live
          \<and> (table_state r RECEIVER_TASK_ID = Cap_Live \<or> table_state r RECEIVER_TASK_ID = Cap_Building)
      | Journal_Sealed \<Rightarrow>
          ab_state (rt_broker r) \<noteq> Broker_Pending \<and> ab_state (rt_broker r) \<noteq> Broker_Approved
          \<and> (table_state r RECEIVER_TASK_ID = Cap_Closing \<or> table_state r RECEIVER_TASK_ID = Cap_Dead
             \<or> ab_state (rt_broker r) = Broker_Closing \<or> ab_state (rt_broker r) = Broker_Dead)
          \<and> audit (journal_log k) = Some Audit_Idle
      | Journal_Dead \<Rightarrow>
          table_state r SENDER_TASK_ID = Cap_Dead \<and> table_state r RECEIVER_TASK_ID = Cap_Dead)"

definition journaled_inv :: "JournaledRuntime \<Rightarrow> bool" where
  "journaled_inv j \<longleftrightarrow> sup_core (jr_runtime j) \<and> sched_inv (jr_runtime j) \<and> authority_inv (jr_runtime j)
     \<and> journal_ok (jr_journal j) \<and> journal_follows (jr_runtime j) (jr_journal j)"

lemma journaled_invD:
  assumes "journaled_inv j"
  shows "sup_core (jr_runtime j)" "sched_inv (jr_runtime j)" "authority_inv (jr_runtime j)"
    "journal_ok (jr_journal j)" "journal_follows (jr_runtime j) (jr_journal j)" "runtime_inv (jr_runtime j)"
  using assms by (simp_all add: journaled_inv_def runtime_inv_def)

lemma journal_follows_cong:
  assumes "rt_broker r' = rt_broker r" "table_state r' 1 = table_state r 1" "table_state r' 2 = table_state r 2"
  shows "journal_follows r' k = journal_follows r k"
  using assms by (cases "ej_state k") (simp_all add: journal_follows_def)


section \<open>The invariant implies validity\<close>

lemma journal_entries_card:
  "length (journal_entries c) = card {i. i < length (ct_slots c) \<and>
     (\<exists>e. cs_entry (ct_slots c ! i) = Some e \<and> ce_object_type e = OBJECT_TYPE_EFFECT_JOURNAL)}"
proof -
  have "length (filter P (List.map_filter f xs)) = length (filter (\<lambda>x. \<exists>e. f x = Some e \<and> P e) xs)"
    for P and f :: "CapabilitySlot \<Rightarrow> CapabilityEntry option" and xs
    by (induction xs) (auto simp: List.map_filter_def)
  then show ?thesis unfolding journal_entries_def by (simp only: length_filter_conv_card)
qed

lemma set_journal_entries:
  "e \<in> set (journal_entries c) \<longleftrightarrow> ce_object_type e = OBJECT_TYPE_EFFECT_JOURNAL
     \<and> (\<exists>i < length (ct_slots c). cs_entry (ct_slots c ! i) = Some e)"
proof -
  have "set (List.map_filter f xs) = {e. \<exists>x \<in> set xs. f x = Some e}" for f :: "CapabilitySlot \<Rightarrow> CapabilityEntry option" and xs
    by (force simp: List.map_filter_def)
  moreover have "(\<exists>x \<in> set xs. f x = Some e) \<longleftrightarrow> (\<exists>i < length xs. f (xs ! i) = Some e)"
    for f :: "CapabilitySlot \<Rightarrow> CapabilityEntry option" and xs
    by (metis in_set_conv_nth)
  ultimately show ?thesis unfolding journal_entries_def by auto
qed

lemma granted_journal:
  "i < length (granted_entries 1) \<Longrightarrow> ce_object_type (granted_entries 1 ! i) = OBJECT_TYPE_EFFECT_JOURNAL \<Longrightarrow>
     i = 3 \<and> granted_entries 1 ! i = journal_entry"
  "i < length (granted_entries 2) \<Longrightarrow> ce_object_type (granted_entries 2 ! i) \<noteq> OBJECT_TYPE_EFFECT_JOURNAL"
  by (auto simp: granted_entries_def supervisor_entries_def entry_for_def journal_entry_def workload_entry_def
      nth_Cons nth_append split: nat.splits if_splits)

lemma supervisor_journal_entries:
  assumes "table_allowed Profile_Supervised 1 c" "length (ct_slots c) = 16"
  shows "length (journal_entries c) \<le> 1" "e \<in> set (journal_entries c) \<Longrightarrow> e = journal_entry"
proof -
  have own: "i = 3 \<and> e = journal_entry" if "i < 16" "cs_entry (ct_slots c ! i) = Some e"
    "ce_object_type e = OBJECT_TYPE_EFFECT_JOURNAL" for i e
    using that assms(1) granted_journal(1) by (auto simp: table_allowed_def slot_allowed_def)
  have "card {i. i < 16 \<and> (\<exists>e. cs_entry (ct_slots c ! i) = Some e \<and> ce_object_type e = OBJECT_TYPE_EFFECT_JOURNAL)}
      \<le> card {3 :: nat}"
    using own by (intro card_mono) auto
  then show "length (journal_entries c) \<le> 1" unfolding journal_entries_card assms(2) by simp
  show "e \<in> set (journal_entries c) \<Longrightarrow> e = journal_entry"
    using own assms(2) by (auto simp: set_journal_entries)
qed

lemma workload_journal_entries:
  assumes "table_allowed Profile_Supervised 2 c" "length (ct_slots c) = 16"
  shows "journal_entries c = []"
proof -
  have "e \<notin> set (journal_entries c)" for e
    using assms granted_journal(2) by (auto simp: set_journal_entries table_allowed_def slot_allowed_def)
  then show ?thesis by (cases "journal_entries c") auto
qed

lemma journal_entries_dead: "journal_entries table_dead = []"
  by (simp add: journal_entries_def table_dead_def List.map_filter_def CapabilitySlot_EMPTY_def)

lemma closed_request:
  assumes "sup_core r" "ab_state (rt_broker r) \<noteq> Broker_Pending" "ab_state (rt_broker r) \<noteq> Broker_Approved"
  shows "\<not> ab_request_present (rt_broker r)"
proof (cases "ts_state (rt_task0 r) = TaskState_Dead")
  case True
  then show ?thesis using sup_coreD(4) [OF assms(1)] by (simp add: ApprovalBroker_DEAD_def)
next
  case False
  from sup_coreD(3) [OF assms(1) this] assms(2,3) show ?thesis
    by (auto simp: broker_inv_def request_cleared_def split: ApprovalBrokerState.splits)
qed

lemma table_ok_length: "table_ok c \<Longrightarrow> length (ct_slots c) = 16"
  by (simp add: table_ok_def table_shape_def)

lemma follows_state:
  assumes inv: "journaled_inv j"
  shows "validate_journal_state j = Inr ()"
proof -
  note d = journaled_invD [OF inv]
  note s = sup_coreD(1,2) [OF d(1)]
  note st = slot_inv_table_state(2) [OF s(1)] slot_inv_table_state(2) [OF s(2)]
  have dead: "journal_entries (ts_capabilities (rt_task0 (jr_runtime j))) = []"
    if "ts_state (rt_task0 (jr_runtime j)) = TaskState_Dead"
    using dead_table [OF s(1) that] by (simp add: journal_entries_dead)
  from d(4) have res: "ej_state (jr_journal j) = Journal_Sealed \<Longrightarrow> ej_reserved_record_count (jr_journal j) = 0"
    using journal_ok_iff [of "jr_journal j"] by simp
  show ?thesis
    using d(5) st dead res closed_request [OF d(1)]
    by (cases "ej_state (jr_journal j)")
      (auto simp: validate_journal_state_def journal_follows_def expected_reserved_def rt_tasks_def Let_def)
qed

lemma journaled_inv_validate:
  assumes inv: "journaled_inv j"
  shows "journaled_validate j = Inr ()"
proof -
  note d = journaled_invD [OF inv]
  note s = sup_coreD(1,2) [OF d(1)]
  let ?c = "ts_capabilities (rt_task0 (jr_runtime j))" and ?w = "ts_capabilities (rt_task1 (jr_runtime j))"
  have prof: "rt_profile (jr_runtime j) = Profile_Supervised" using d(1) by (simp add: sup_core_def)
  have ok: "length (ct_slots ?c) = 16" "length (ct_slots ?w) = 16"
    using s by (simp_all add: slot_inv_def table_ok_length)
  have a: "table_allowed Profile_Supervised 1 ?c" "table_allowed Profile_Supervised 2 ?w"
    using d(3) prof by (simp_all add: authority_inv_def)
  note e = supervisor_journal_entries [OF a(1) ok(1)]
  have "journal_validate (jr_journal j) = Inr ()" using d(4) by (simp add: journal_ok_def)
  moreover have "\<not> list_ex (\<lambda>entry. ce_rights entry \<noteq> CAPABILITY_RIGHT_READ_EFFECT_JOURNAL
        \<or> or_id (ce_object entry) \<noteq> EFFECT_JOURNAL_OBJECT_ID
        \<or> or_generation (ce_object entry) \<noteq> EFFECT_JOURNAL_OBJECT_GENERATION) (journal_entries ?c)"
  proof -
    have "ce_rights journal_entry = CAPABILITY_RIGHT_READ_EFFECT_JOURNAL"
      "or_id (ce_object journal_entry) = EFFECT_JOURNAL_OBJECT_ID"
      "or_generation (ce_object journal_entry) = EFFECT_JOURNAL_OBJECT_GENERATION"
      by (simp_all add: journal_entry_def entry_for_def)
    then show ?thesis using e(2) unfolding list_ex_iff by blast
  qed
  moreover have "ts_state (rt_task1 (jr_runtime j)) = TaskState_Dead \<Longrightarrow>
      ej_state (jr_journal j) = Journal_Sealed \<or> ej_state (jr_journal j) = Journal_Dead"
    using d(5) slot_inv_table_state(2) [OF s(2)]
    by (auto simp: journal_follows_def split: EffectJournalState.splits)
  ultimately show ?thesis
    using e(1) workload_journal_entries [OF a(2) ok(2)] follows_state [OF inv] runtime_inv_validate [OF d(6)]
    by (auto simp: journaled_validate_def Let_def)
qed


section \<open>Traps that the journal ignores\<close>

lemma on_runtime_eq: "on_runtime f j = (fst (f (jr_runtime j)), j\<lparr>jr_runtime := snd (f (jr_runtime j))\<rparr>)"
  by (simp add: on_runtime_def split: prod.splits)

lemma on_journal_eq: "on_journal f j = (fst (f (jr_journal j)), j\<lparr>jr_journal := snd (f (jr_journal j))\<rparr>)"
  by (simp add: on_journal_def split: prod.splits)

lemma trap_tables:
  assumes pre: "trap_pre t r" and h: "handle_trap t r = (Inr o', r')"
  shows "table_state r' t = Cap_Live"
    and "table_state r' (other t) = table_state r (other t)
      \<or> t = 1 \<and> table_state r 2 = Cap_Building \<and> table_state r' 2 = Cap_Live"
proof -
  note live = trap_table_live [OF pre]
  from pre h show "table_state r' t = Cap_Live"
    using live duplicate_refines [OF live] close_refines [OF live]
    by (cases rule: own_table_cases) (auto simp: table_refines_def)
  from pre h show "table_state r' (other t) = table_state r (other t)
      \<or> t = 1 \<and> table_state r 2 = Cap_Building \<and> table_state r' 2 = Cap_Live"
  proof (cases rule: other_table_cases)
    case launched
    have "table_state r 2 = Cap_Building"
      using slot_inv_table_state(3) [OF sup_coreD(2) [OF launched(2)]] launched(3) by simp
    then show ?thesis using launched workload_table_ok(2) by simp
  qed simp
qed

lemma trap_sup:
  assumes "sup_core r" "runtime_inv r" "handle_trap t r = (Inr o', r')"
  shows "sup_core r'" "sched_inv r'"
proof -
  have "rt_profile r' = Profile_Supervised" using profile_kept [OF assms(3)] assms(1) by (simp add: sup_core_def)
  moreover have "runtime_inv r'" by (rule handle_trap_inv [OF assms(2,3)])
  ultimately show "sup_core r'" "sched_inv r'" using core_profile by (auto simp: runtime_inv_core)
qed

lemma follows_trap:
  assumes f: "journal_follows r k" and pre: "trap_pre t r" and h: "handle_trap t r = (Inr o', r')"
    and b: "rt_broker r' = rt_broker r"
  shows "journal_follows r' k"
proof -
  note tt = trap_tables [OF pre h] and live = trap_table_live(2) [OF pre]
  show ?thesis
  proof (cases "t = 1")
    case True
    then show ?thesis
      using f b tt live by (cases "ej_state k") (auto simp: journal_follows_def)
  next
    case False
    then have "t = 2" using trap_preD(1) [OF pre] by (simp add: valid_task_def)
    then show ?thesis
      using f b tt live by (cases "ej_state k") (auto simp: journal_follows_def)
  qed
qed

lemma journaled_inv_quiet:
  assumes inv: "journaled_inv j" and pre: "trap_pre t (jr_runtime j)"
    and h: "handle_trap t (jr_runtime j) = (Inr o', r')" and b: "rt_broker r' = rt_broker (jr_runtime j)"
  shows "journaled_inv (j\<lparr>jr_runtime := r'\<rparr>)"
  using journaled_invD [OF inv] trap_sup [OF _ _ h] authority_trap [OF _ _ h] follows_trap [OF _ pre h b]
  by (simp add: journaled_inv_def)

text \<open>Writing registers of the calling task.\<close>

lemma journaled_inv_context:
  assumes inv: "journaled_inv j" and t: "valid_task t" and same: "\<And>c. same_identity (g c) c"
  shows "journaled_inv (j\<lparr>jr_runtime := upd t (\<lambda>s. s\<lparr>ts_context := g (ts_context s)\<rparr>) (jr_runtime j)\<rparr>)"
proof -
  let ?r = "jr_runtime j" and ?f = "\<lambda>s. s\<lparr>ts_context := g (ts_context s)\<rparr>"
  note d = journaled_invD [OF inv]
  have "similar (?f s) s" for s using same by (simp add: similar_def)
  then have "core (upd t ?f ?r) = core ?r" by (intro core_similar [OF t]) simp
  then have "core (upd t ?f ?r)" using d(6) by (simp add: runtime_inv_core)
  then have "sup_core (upd t ?f ?r)" using d(1) by (intro core_profile) (simp_all add: sup_core_def)
  moreover have "sched_inv (upd t ?f ?r)" using sched_upd_same [OF t, of ?f ?r] d(2) by simp
  moreover have same: "ts_capabilities (task_slot (upd t ?f ?r) u) = ts_capabilities (task_slot ?r u)"
    if "valid_task u" for u using that t by (simp add: task_slot_upd)
  moreover have "authority_inv (upd t ?f ?r)" using d(3) same by (simp add: authority_inv_task)
  moreover have "journal_follows (upd t ?f ?r) (jr_journal j)"
    using d(5) same [of 1] same [of 2] journal_follows_cong [of "upd t ?f ?r" ?r] by simp
  ultimately show ?thesis using d(4) by (simp add: journaled_inv_def)
qed

lemma journaled_inv_answered:
  "journaled_inv j \<Longrightarrow> valid_task t \<Longrightarrow> journaled_inv (j\<lparr>jr_runtime := answered t st v (jr_runtime j)\<rparr>)"
  unfolding answered_def by (rule journaled_inv_context) simp_all

lemma journaled_handle_trap_eq:
  assumes pre: "trap_pre t (jr_runtime j)"
  shows "journaled_handle_trap t j =
    (let input = ts_context (task_slot (jr_runtime j) t); operation = TrapOperation_parse (cx_rax input)
     in if operation = Some Op_InspectEffectJournal \<or> operation = Some Op_ReadEffectRecord
        then handle_journal_read t (the operation) input j
        else
          (case handle_trap t (jr_runtime j) of
             (Inl e, _) \<Rightarrow> (Inl e, j)
           | (Inr outcome, r') \<Rightarrow>
               (case journal_trap t operation input j (j\<lparr>jr_runtime := r'\<rparr>) of
                  (Inl e, j1) \<Rightarrow> (Inl e, j1)
                | (Inr (Some out), j1) \<Rightarrow> (Inr out, j1)
                | (Inr None, j1) \<Rightarrow>
                    (if is_err (journaled_validate j1) then (Inl Err_JournalInvariant, j)
                     else (Inr outcome, j1)))))"
proof -
  have "running_task (jr_runtime j) = Inr t"
    using running_task_iff [OF trap_preD(2) [OF pre], of t] trap_preD(1,5) [OF pre] by simp
  then show ?thesis
    using trap_preD(1) [OF pre]
    by (simp add: journaled_handle_trap_def act_bind_def runtime_context_def on_runtime_eq Let_def
        split: prod.splits sum.splits)
qed

lemma journaled_trap_quiet:
  assumes inv: "journaled_inv j" and pre: "trap_pre t (jr_runtime j)"
    and h: "handle_trap t (jr_runtime j) = (Inr o', r')" and b: "rt_broker r' = rt_broker (jr_runtime j)"
    and code: "trap_code t (jr_runtime j) \<notin> {Some Op_InspectEffectJournal, Some Op_ReadEffectRecord}"
    and n: "journal_trap t (trap_code t (jr_runtime j)) (ts_context (task_slot (jr_runtime j) t)) j (j\<lparr>jr_runtime := r'\<rparr>)
        = (Inr None, j\<lparr>jr_runtime := r'\<rparr>)"
  shows "journaled_handle_trap t j = (Inr o', j\<lparr>jr_runtime := r'\<rparr>)"
  using code h n journaled_inv_validate [OF journaled_inv_quiet [OF inv pre h b]]
  by (simp add: journaled_handle_trap_eq [OF pre] Let_def)

lemma set_journal_output_eq:
  assumes "valid_task t"
  shows "set_journal_output t st v j = (Inr (), j\<lparr>jr_runtime := upd t (\<lambda>s. s\<lparr>ts_context :=
    (ts_context s)\<lparr>cx_rax := status_code st, cx_rdi := fst v, cx_rsi := fst (snd v), cx_rdx := snd (snd v)\<rparr>\<rparr>) (jr_runtime j)\<rparr>)"
  using assms by (simp add: set_journal_output_def on_runtime_eq)

definition journal_output :: "u64 \<Rightarrow> TrapStatus \<Rightarrow> u64 \<times> u64 \<times> u64 \<Rightarrow> JournaledRuntime \<Rightarrow> JournaledRuntime" where
  "journal_output t st v j = j\<lparr>jr_runtime := upd t (\<lambda>s. s\<lparr>ts_context :=
    (ts_context s)\<lparr>cx_rax := status_code st, cx_rdi := fst v, cx_rsi := fst (snd v), cx_rdx := snd (snd v)\<rparr>\<rparr>) (jr_runtime j)\<rparr>"

lemma journal_output_inv:
  "journaled_inv j \<Longrightarrow> valid_task t \<Longrightarrow> journaled_inv (journal_output t st v j)"
  unfolding journal_output_def
  by (rule journaled_inv_context [where g = "\<lambda>c. c\<lparr>cx_rax := _, cx_rdi := _, cx_rsi := _, cx_rdx := _\<rparr>"])
    (simp_all add: same_identity_def)

lemma journal_read_cases:
  assumes inv: "journaled_inv j" and t: "valid_task t" and op: "op = Op_InspectEffectJournal \<or> op = Op_ReadEffectRecord"
  obtains st v where "handle_journal_read t op input j = (Inr (Outcome_Resume t), journal_output t st v j)"
proof -
  have out: "set_journal_output t st v j = (Inr (), journal_output t st v j)" for st v
    by (simp add: set_journal_output_eq [OF t] journal_output_def)
  have ok: "journaled_validate (journal_output t st v j) = Inr ()" for st v
    by (rule journaled_inv_validate [OF journal_output_inv [OF inv t]])
  have ex: "\<exists>st a b c. journal_output t st' v' j = journal_output t st (a, b, c) j" for st' v'
    by (cases v') blast
  have "\<exists>st v. handle_journal_read t op input j = (Inr (Outcome_Resume t), journal_output t st v j)"
    using op unfolding handle_journal_read_def
    by (auto simp: Let_def act_then_def act_bind_def out ok ex split: option.splits sum.splits)
  then show thesis using that by blast
qed


section \<open>Traps that append a record\<close>

definition appended :: "EffectRecordV1 \<Rightarrow> u8 \<Rightarrow> Runtime \<Rightarrow> JournaledRuntime \<Rightarrow> JournaledRuntime" where
  "appended rec n r' j =
     j\<lparr>jr_runtime := r', jr_journal := (committed rec (jr_journal j))\<lparr>ej_reserved_record_count := n\<rparr>\<rparr>"

lemma appended_simps [simp]:
  "jr_runtime (appended rec n r' j) = r'"
  "jr_journal (appended rec n r' j) = (committed rec (jr_journal j))\<lparr>ej_reserved_record_count := n\<rparr>"
  by (simp_all add: appended_def)

lemma appended_log:
  assumes inv: "journaled_inv j" and live: "ej_state (jr_journal j) = Journal_Live"
    and "header_ok rec" "unat (ej_committed_record_count (jr_journal j)) + unat n < 16" "unat n \<le> 2"
  shows "journal_log (jr_journal (appended rec n r' j)) =
      journal_log (jr_journal j) @ [sequenced (length (journal_log (jr_journal j))) rec]"
    "journal_ok (jr_journal (appended rec n r' j))"
    "ej_state (jr_journal (appended rec n r' j)) = Journal_Live"
  using commit_reserve [OF journaled_invD(4) [OF inv] live assms(3,4,5)] live
  by (simp_all add: journal_open_def committed_def)

lemma appended_inv:
  assumes inv: "journaled_inv j" and live: "ej_state (jr_journal j) = Journal_Live"
    and "header_ok rec" "unat (ej_committed_record_count (jr_journal j)) + unat n < 16"
    and r: "sup_core r'" "sched_inv r'" "authority_inv r'"
    and b: "n = expected_reserved (ab_state (rt_broker r'))"
      "ab_state (rt_broker r') = Broker_Pending \<Longrightarrow> unat (ab_decision_epoch (rt_broker r')) + 2 < 2 ^ 64"
    and tab: "table_state r' 1 = Cap_Live" "table_state r' 2 = Cap_Live \<or> table_state r' 2 = Cap_Building"
    and log: "request_logged (rt_broker r')
      (journal_log (jr_journal j) @ [sequenced (length (journal_log (jr_journal j))) rec])"
  shows "journaled_inv (appended rec n r' j)"
proof -
  have "unat n \<le> 2" using b(1) by (simp add: expected_reserved_def split: ApprovalBrokerState.splits)
  note l = appended_log [OF inv live assms(3,4) this, of r']
  then show ?thesis using r b tab log by (simp add: journaled_inv_def journal_follows_def)
qed

lemma live_tables:
  assumes f: "journal_follows r k" and live: "ej_state k = Journal_Live" and pre: "trap_pre t r"
    and h: "handle_trap t r = (Inr o', r')"
  shows "table_state r' 1 = Cap_Live" "table_state r' 2 = Cap_Live \<or> table_state r' 2 = Cap_Building"
proof -
  note tt = trap_tables [OF pre h]
  have f: "table_state r 1 = Cap_Live" "table_state r 2 = Cap_Live \<or> table_state r 2 = Cap_Building"
    using f live by (simp_all add: journal_follows_def)
  have "t = 1 \<or> t = 2" using trap_preD(1) [OF pre] by (simp add: valid_task_def)
  then show "table_state r' 1 = Cap_Live" "table_state r' 2 = Cap_Live \<or> table_state r' 2 = Cap_Building"
    using tt f by auto
qed

text \<open>The common case: the inner trap succeeds and one record is appended to a live journal.\<close>

lemma trap_appended_inv:
  assumes inv: "journaled_inv j" and live: "ej_state (jr_journal j) = Journal_Live"
    and pre: "trap_pre t (jr_runtime j)" and h: "handle_trap t (jr_runtime j) = (Inr o', r')"
    and "header_ok rec" "unat (ej_committed_record_count (jr_journal j)) + unat n < 16"
    and "n = expected_reserved (ab_state (rt_broker r'))"
      "ab_state (rt_broker r') = Broker_Pending \<Longrightarrow> unat (ab_decision_epoch (rt_broker r')) + 2 < 2 ^ 64"
    and "request_logged (rt_broker r')
      (journal_log (jr_journal j) @ [sequenced (length (journal_log (jr_journal j))) rec])"
  shows "journaled_inv (appended rec n r' j)"
  using journaled_invD [OF inv] trap_sup [OF _ _ h] authority_trap [OF _ _ h] live_tables [OF _ live pre h] assms
  by (intro appended_inv) simp_all

text \<open>An open request is one of a live journal that holds its reservation.\<close>

lemma open_live:
  assumes inv: "journaled_inv j"
    and st: "ab_state (rt_broker (jr_runtime j)) = Broker_Pending \<or> ab_state (rt_broker (jr_runtime j)) = Broker_Approved"
  shows "ej_state (jr_journal j) = Journal_Live"
    "ej_reserved_record_count (jr_journal j) = expected_reserved (ab_state (rt_broker (jr_runtime j)))"
    "ej_reserved_record_count (jr_journal j) \<noteq> 0"
    "ab_state (rt_broker (jr_runtime j)) = Broker_Pending \<Longrightarrow> unat (ab_decision_epoch (rt_broker (jr_runtime j))) + 2 < 2 ^ 64"
    "request_logged (rt_broker (jr_runtime j)) (journal_log (jr_journal j))"
    "unat (ej_committed_record_count (jr_journal j)) + unat (ej_reserved_record_count (jr_journal j)) \<le> 16"
proof -
  note d = journaled_invD [OF inv]
  have "ts_state (rt_task1 (jr_runtime j)) = TaskState_BlockedApproval" using sup_coreD(5) [OF d(1)] st by simp
  then have "table_state (jr_runtime j) 2 = Cap_Live"
    using slot_inv_table_state(1) [OF sup_coreD(2) [OF d(1)]] by simp
  then show live: "ej_state (jr_journal j) = Journal_Live"
    using d(5) st by (cases "ej_state (jr_journal j)") (auto simp: journal_follows_def)
  then show "ej_reserved_record_count (jr_journal j) = expected_reserved (ab_state (rt_broker (jr_runtime j)))"
    "ab_state (rt_broker (jr_runtime j)) = Broker_Pending \<Longrightarrow> unat (ab_decision_epoch (rt_broker (jr_runtime j))) + 2 < 2 ^ 64"
    "request_logged (rt_broker (jr_runtime j)) (journal_log (jr_journal j))"
    using d(5) by (simp_all add: journal_follows_def)
  then show "ej_reserved_record_count (jr_journal j) \<noteq> 0" using st by (auto simp: expected_reserved_def)
  show "unat (ej_committed_record_count (jr_journal j)) + unat (ej_reserved_record_count (jr_journal j)) \<le> 16"
    using journal_okD(2) [OF d(4)] live by simp
qed

lemma append_reserved_live:
  assumes inv: "journaled_inv j"
    and st: "ab_state (rt_broker (jr_runtime j)) = Broker_Pending \<or> ab_state (rt_broker (jr_runtime j)) = Broker_Approved"
    and hd: "header_ok rec"
    and n_def: "n = (if release then 0 else ej_reserved_record_count (jr_journal j) - 1)"
  shows "on_journal (append_reserved rec release) (j\<lparr>jr_runtime := r'\<rparr>) = (Inr (), appended rec n r' j)"
    "unat (ej_committed_record_count (jr_journal j)) + unat n < 16"
proof -
  note o = open_live [OF inv st]
  show "on_journal (append_reserved rec release) (j\<lparr>jr_runtime := r'\<rparr>) = (Inr (), appended rec n r' j)"
    using append_reserved_eq [OF journaled_invD(4) [OF inv] o(1,3)] hd
    by (simp add: on_journal_eq appended_def n_def)
  have "unat (ej_reserved_record_count (jr_journal j)) \<noteq> 0" using o(3) by (simp add: unat_eq_0)
  moreover have "unat n \<le> unat (ej_reserved_record_count (jr_journal j)) - 1"
    using o(3) by (simp add: n_def unat_minus_one)
  ultimately show "unat (ej_committed_record_count (jr_journal j)) + unat n < 16" using o(6) by linarith
qed

end
