(* ===== verification/Journaled_Traps.thy ===== *)
theory Journaled_Traps
  imports Journaled_Inv
begin

text \<open>
  What each operation on the broker records, and the outcome of every trap of the journaled runtime.
\<close>


section \<open>Submit\<close>

lemma submit_run_cases:
  assumes pre: "trap_pre t r" and code: "trap_code t r = Some Op_SubmitApproval" and h: "handle_trap t r = (Inr o', r')"
  obtains (refused) st where "o' = Outcome_Resume t" "r' = answered t st 0 r"
    | (accepted) arg where "t = 2" "sup_core r" "ab_state (rt_broker r) = Broker_Empty"
        "ab_decision_epoch (rt_broker r) \<noteq> u64_MAX" "rt_broker r' = submitted_broker arg (rt_broker r)"
        "arg = cx_rdx (ts_context (task_slot r t))"
proof -
  let ?c = "ts_context (task_slot r t)"
  note p = trap_preD [OF pre]
  have run: "submit_approval t (cx_rdi ?c) (cx_rsi ?c) (cx_rdx ?c) r = (Inr o', r')"
    using trap_operation_run [OF pre h] code by (simp add: trap_operation_def)
  from pre show thesis
  proof (cases rule: submit_cases [of t r "cx_rdi ?c" "cx_rsi ?c" "cx_rdx ?c"])
    case (refused st)
    with run resume_validated_eq [OF p(1,2)] that(1) [of st] show ?thesis by simp
  next
    case accepted
    then have "act_bind switch_next (\<lambda>next. act_then (act_read runtime_validate) (act_return (Outcome_Switch next)))
        (submitted (cx_rdx ?c) r) = (Inr o', r')" using run by simp
    then obtain n r1 where "switch_next (submitted (cx_rdx ?c) r) = (Inr n, r1)" "r' = r1"
      by (auto simp: act_bind_eq_Inr act_then_eq_Inr)
    with keeps_result [OF broker_tables.switch_next_keeps, of "submitted (cx_rdx ?c) r"]
    have "rt_broker r' = submitted_broker (cx_rdx ?c) (rt_broker r)" by (simp add: submitted_def)
    then show ?thesis by (rule that(2) [OF accepted(1-4) _ refl])
  qed
qed

lemma submitted_broker_simps [simp]:
  "ab_state (submitted_broker arg b) = Broker_Pending" "ab_request_present (submitted_broker arg b)"
  "ab_decision_epoch (submitted_broker arg b) = ab_decision_epoch b + 1"
  "ab_request (submitted_broker arg b) = the_request (ab_next_sequence b) arg"
  by (simp_all add: submitted_broker_def Let_def)

lemma epoch_room:
  assumes "\<not> (e :: u64) > u64_MAX - 3"
  shows "unat (e + 1) + 2 < 2 ^ 64"
proof -
  have "unat e \<le> unat (u64_MAX - 3)" using assms by (simp add: not_less word_le_nat_alt)
  also have "unat (u64_MAX - 3) = 2 ^ 64 - 4" by (simp add: u64_MAX_def)
  finally show ?thesis by (simp add: unat_word_ariths)
qed

text \<open>A submission that the broker accepts is either refused by the journal, with nothing changed but the answer, or recorded.\<close>

lemma submit_journaled:
  assumes inv: "journaled_inv j" and pre: "trap_pre t (jr_runtime j)" and code: "trap_code t (jr_runtime j) = Some Op_SubmitApproval"
    and h: "handle_trap t (jr_runtime j) = (Inr o', r')" and b: "ab_state (rt_broker (jr_runtime j)) = Broker_Empty"
    and t: "t = 2" and sub: "rt_broker r' = submitted_broker arg (rt_broker (jr_runtime j))"
  defines "rec \<equiv> requested_record (ab_decision_epoch (rt_broker r')) (ab_request (rt_broker r'))"
  obtains (refused) st where "journaled_handle_trap t j = (Inr (Outcome_Resume t), j\<lparr>jr_runtime := answered t st 0 (jr_runtime j)\<rparr>)"
    | (requested) "journaled_handle_trap t j = (Inr o', appended rec 2 r' j)" "journaled_inv (appended rec 2 r' j)"
        "ej_state (jr_journal j) = Journal_Live" "unat (ej_committed_record_count (jr_journal j)) + 2 < 16"
proof -
  let ?r = "jr_runtime j" and ?k = "jr_journal j" and ?j = "j\<lparr>jr_runtime := r'\<rparr>"
  note d = journaled_invD [OF inv]
  have live: "ej_state ?k = Journal_Live"
    using d(5) trap_table_live(2) [OF pre] t b by (cases "ej_state ?k") (auto simp: journal_follows_def)
  have jt: "journaled_handle_trap t j = (case journal_submit t j ?j of
        (Inl e, j1) \<Rightarrow> (Inl e, j1) | (Inr (Some out), j1) \<Rightarrow> (Inr out, j1)
      | (Inr None, j1) \<Rightarrow> (if is_err (journaled_validate j1) then (Inl Err_JournalInvariant, j) else (Inr o', j1)))"
    using code h b sub by (simp add: journaled_handle_trap_eq [OF pre] journal_trap_def Let_def)
  have refuse: "act_then (on_runtime (set_result t st 0)) (act_then (act_read journaled_validate) (act_return x)) j =
      (Inr x, j\<lparr>jr_runtime := answered t st 0 ?r\<rparr>)" for st and x :: "'x"
    using journaled_inv_validate [OF journaled_inv_answered [OF inv, of t st 0]] trap_preD(1) [OF pre]
    by (simp add: act_then_def act_bind_def on_runtime_eq set_result_eq answered_def)
  consider (exhausted) "ab_decision_epoch (rt_broker ?r) > u64_MAX - 3"
    | (full) "\<not> ab_decision_epoch (rt_broker ?r) > u64_MAX - 3"
        "unat (ej_committed_record_count ?k) + unat (ej_reserved_record_count ?k) > 13"
    | (room) "\<not> ab_decision_epoch (rt_broker ?r) > u64_MAX - 3"
        "unat (ej_committed_record_count ?k) + unat (ej_reserved_record_count ?k) \<le> 13" by linarith
  then show thesis
  proof cases
    case exhausted
    then have "journal_submit t j ?j = (Inr (Some (Outcome_Resume t)), j\<lparr>jr_runtime := answered t Status_BrokerUnavailable 0 ?r\<rparr>)"
      by (simp add: journal_submit_def refuse)
    then show ?thesis using jt refused by simp
  next
    case full
    then have "begin_lifecycle rec ?k = (Inl JournalError_Full, ?k)" by (simp add: begin_lifecycle_eq [OF d(4) live])
    then have "journal_submit t j ?j = (Inr (Some (Outcome_Resume t)), j\<lparr>jr_runtime := answered t Status_JournalFull 0 ?r\<rparr>)"
      using full(1) refuse [of Status_JournalFull "Outcome_Resume t"]
      by (simp add: journal_submit_def rec_def requested_record_def on_journal_eq Let_def act_bind_def rollback_submit_def)
    then show ?thesis using jt refused by simp
  next
    case room
    have hd: "header_ok rec" by (simp add: rec_def requested_record_def)
    have "begin_lifecycle rec ?k = (Inr (), (committed rec ?k)\<lparr>ej_reserved_record_count := 2\<rparr>)"
      using room(2) hd by (simp add: begin_lifecycle_eq [OF d(4) live])
    then have js: "journal_submit t j ?j = (Inr None, appended rec 2 r' j)"
      using room(1) by (simp add: journal_submit_def rec_def requested_record_def on_journal_eq Let_def appended_def)
    have cnt: "unat (ej_committed_record_count ?k) + 2 < 16" using room(2) by simp
    have "journaled_inv (appended rec 2 r' j)"
    proof (rule trap_appended_inv [OF inv live pre h hd])
      show "request_logged (rt_broker r') (journal_log ?k @ [sequenced (length (journal_log ?k)) rec])"
        using d(5) live b by (simp add: journal_follows_def request_logged_def sub rec_def audit_simps)
    qed (use cnt epoch_room [OF room(1)] sub in \<open>simp_all add: expected_reserved_def\<close>)
    with js jt journaled_inv_validate [OF this] live cnt show ?thesis by (intro requested) simp_all
  qed
qed


section \<open>Decisions\<close>

lemma unat_u64_MAX: "unat u64_MAX = 2 ^ 64 - 1"
  by (simp add: u64_MAX_def unsigned_minus_1_eq_mask mask_eq_exp_minus_1)

lemma resolve_object_status: "resolve_object r t h ty right i g = Inl st \<Longrightarrow> st \<noteq> Status_Ok"
  by (auto simp: resolve_object_def resolve_typed_def and_then_def map_err_def Let_def
      split: sum.splits if_splits option.splits)

lemma decide_status_not_ok: "decide_status r t h s d = Some st \<Longrightarrow> st \<noteq> Status_Ok"
  using resolve_object_status by (auto simp: decide_status_def Let_def split: sum.splits if_splits)

lemma answered_result:
  "valid_task t \<Longrightarrow> result_is t st' (j\<lparr>jr_runtime := answered t st v r\<rparr>) = Inr (st = st')"
  by (simp add: result_is_def runtime_context_def answered_def task_slot_upd context_set_result_def)

lemma decide_run_cases:
  assumes pre: "trap_pre t r" and code: "trap_code t r = Some Op_DecideApproval" and h: "handle_trap t r = (Inr o', r')"
    and room: "ab_state (rt_broker r) = Broker_Pending \<longrightarrow> unat (ab_decision_epoch (rt_broker r)) + 2 < 2 ^ 64"
  obtains (refused) st where "st \<noteq> Status_Ok" "o' = Outcome_Resume t" "r' = answered t st 0 r"
    | (applied) decision where "t = 1" "sup_core r" "ab_request_present (rt_broker r)"
        "decision_open decision (rt_broker r)" "decision = cx_rdx (ts_context (task_slot r t))"
        "o' = Outcome_Resume t" "r' = answered t Status_Ok 0 (decided decision r)"
proof -
  let ?c = "ts_context (task_slot r t)"
  note p = trap_preD [OF pre]
  have run: "decide_approval t (cx_rdi ?c) (cx_rsi ?c) (cx_rdx ?c) r = (Inr o', r')"
    using trap_operation_run [OF pre h] code by (simp add: trap_operation_def)
  from pre show thesis
  proof (cases rule: decide_cases [of t r "cx_rdi ?c" "cx_rsi ?c" "cx_rdx ?c"])
    case (refused st)
    with run resume_validated_eq [OF p(1,2)] that(1) [of st] decide_status_not_ok show ?thesis by force
  next
    case exhausted
    note o = open_request [OF pre exhausted(1,2)]
    have False
    proof (cases "ab_state (rt_broker r) = Broker_Pending")
      case True
      from room True have "ab_decision_epoch (rt_broker r) \<noteq> u64_MAX"
        "ab_decision_epoch (rt_broker r) + 1 \<noteq> u64_MAX"
        by (auto simp: unat_u64_MAX word_unat_eq_iff unat_word_ariths)
      with exhausted(3) show False by blast
    next
      case False
      with o(6) have "ab_state (rt_broker r) = Broker_Approved" by simp
      with o(3) exhausted(3,4) False show False by (auto simp: broker_inv_def)
    qed
    then show ?thesis ..
  next
    case applied
    note dp = decided_pre [OF pre applied(1-3)]
    from applied(5) run resume_validated_eq [OF trap_preD(1,2) [OF dp(1)]]
    have "o' = Outcome_Resume t" "r' = answered t Status_Ok 0 (decided (cx_rdx ?c) r)" by simp_all
    then show ?thesis using that(2) [OF open_request(1) [OF pre applied(1,2)] applied(1-3)] by blast
  qed
qed

text \<open>The record of a decision and the reservation it leaves.\<close>

definition decision_event :: "u64 \<Rightarrow> EffectEventKind \<times> TrapStatus" where
  "decision_event decision =
     (if decision = DECISION_APPROVE then (Event_Approved, Status_Ok)
      else if decision = DECISION_DENY then (Event_Denied, Status_ApprovalDenied)
      else (Event_Expired, Status_ApprovalExpired))"

lemma decided_broker_simps [simp]:
  "ab_decision_epoch (decided_broker b) = ab_decision_epoch b + 1" "ab_state (decided_broker b) = Broker_Empty"
  "ab_decision_epoch (approved_broker b) = ab_decision_epoch b + 1" "ab_state (approved_broker b) = Broker_Approved"
  "ab_request (approved_broker b) = ab_request b"
  by (simp_all add: decided_broker_def approved_broker_def clear_request_def)

lemma decided_broker_eq:
  "rt_broker (decided d r) = (if d = DECISION_APPROVE then approved_broker (rt_broker r) else decided_broker (rt_broker r))"
  by (simp add: decided_def)

lemma decide_journaled:
  assumes inv: "journaled_inv j" and pre: "trap_pre t (jr_runtime j)" and code: "trap_code t (jr_runtime j) = Some Op_DecideApproval"
    and h: "handle_trap t (jr_runtime j) = (Inr o', r')"
    and a: "sup_core (jr_runtime j)" "ab_request_present (rt_broker (jr_runtime j))"
      "decision_open decision (rt_broker (jr_runtime j))" "decision = cx_rdx (ts_context (task_slot (jr_runtime j) t))"
      "r' = answered t Status_Ok 0 (decided decision (jr_runtime j))"
  defines "rec \<equiv> decision_record (fst (decision_event decision)) (snd (decision_event decision))
      (ab_decision_epoch (rt_broker (jr_runtime j)) + 1) (ab_request (rt_broker (jr_runtime j)))"
    and "n \<equiv> (if decision = DECISION_APPROVE then 1 else 0)"
  shows "journaled_handle_trap t j = (Inr o', appended rec n r' j)" "journaled_inv (appended rec n r' j)"
    "ej_state (jr_journal j) = Journal_Live" "unat (ej_committed_record_count (jr_journal j)) + unat n < 16"
proof -
  let ?r = "jr_runtime j" and ?k = "jr_journal j" and ?j = "j\<lparr>jr_runtime := r'\<rparr>" and ?b = "rt_broker (jr_runtime j)"
  let ?pend = "ab_state ?b = Broker_Pending"
  note or = open_request [OF pre a(1,2)]
  note ol = open_live [OF inv or(6)]
  have v: "valid_task t" by (rule trap_preD(1) [OF pre])
  have dec: "decision = DECISION_APPROVE \<and> ?pend \<or> decision = DECISION_DENY \<and> ?pend \<or> decision = DECISION_EXPIRE"
    using a(3) by (auto simp: decision_open_def)
  define release where "release \<longleftrightarrow> decision = DECISION_DENY \<or> decision = DECISION_EXPIRE \<and> ?pend"
  have n: "n = (if release then 0 else ej_reserved_record_count ?k - 1)"
    using dec or(6) by (auto simp: n_def release_def ol(2) expected_reserved_def)
  have hd: "header_ok rec" by (simp add: rec_def decision_record_def)
  note app = append_reserved_live(1) [OF inv or(6) hd n, of r'] append_reserved_live(2) [OF inv or(6) hd n]
  have b: "rt_broker r' = (if decision = DECISION_APPROVE then approved_broker ?b else decided_broker ?b)"
    by (simp add: a(5) decided_broker_eq)
  have jd: "journal_decision decision j ?j = (Inr None, appended rec n r' j)"
    using dec app(1) b
    by (auto simp: journal_decision_def rec_def decision_record_def decision_event_def release_def Let_def)
  have jt: "journal_trap t (Some Op_DecideApproval) (ts_context (task_slot ?r t)) j ?j = (Inr None, appended rec n r' j)"
    using a(2) jd answered_result [OF v] a(4,5)
    by (simp add: journal_trap_def act_bind_def Let_def)
  have log: "request_logged (rt_broker r') (journal_log ?k @ [sequenced (length (journal_log ?k)) rec])"
  proof (cases "decision = DECISION_APPROVE")
    case True
    with dec have ?pend by simp
    with ol(5) have "logged [requested_record (ab_decision_epoch ?b) (ab_request ?b)] (journal_log ?k)"
      by (simp add: request_logged_def)
    from logged_snoc [OF this, of rec] True ol(5) \<open>?pend\<close> show ?thesis
      by (simp add: request_logged_def b rec_def decision_event_def audit_simps)
  next
    case False
    then show ?thesis using ol(5) or(6) dec by (auto simp: request_logged_def b rec_def decision_event_def audit_simps)
  qed
  show cnt: "unat (ej_committed_record_count ?k) + unat n < 16" by (rule app(2))
  show live: "ej_state ?k = Journal_Live" by (rule ol(1))
  show inv': "journaled_inv (appended rec n r' j)"
    by (rule trap_appended_inv [OF inv live pre h hd cnt _ _ log]) (auto simp: b n_def expected_reserved_def split: if_splits)
  show "journaled_handle_trap t j = (Inr o', appended rec n r' j)"
    using code h jt journaled_inv_validate [OF inv'] by (simp add: journaled_handle_trap_eq [OF pre] Let_def)
qed


section \<open>Commits\<close>

lemma resolve_object_unavailable: "resolve_object r t h ty right i g \<noteq> Inl Status_EffectUnavailable"
  by (auto simp: resolve_object_def resolve_typed_def and_then_def map_err_def Let_def
      split: sum.splits if_splits option.splits)

lemma commit_run_cases:
  assumes pre: "trap_pre t r" and code: "trap_code t r = Some Op_CommitEffect" and h: "handle_trap t r = (Inr o', r')"
  obtains (refused) st where "st \<noteq> Status_Ok" "o' = Outcome_Resume t" "r' = answered t st 0 r"
      "st = Status_EffectUnavailable \<Longrightarrow> ab_state (rt_broker r) = Broker_Approved \<Longrightarrow> sup_core r \<and> ab_request_present (rt_broker r)"
    | (committed) arg where "t = 1" "sup_core r" "ab_request_present (rt_broker r)" "ab_state (rt_broker r) = Broker_Approved"
        "o' = Outcome_Resume t" "r' = answered t Status_Ok 0 ((woken Status_Ok arg r)
           \<lparr>rt_broker := decided_broker (rt_broker r), rt_effect := (rt_effect r)\<lparr>se_occupied := True, se_value := arg\<rparr>\<rparr>)"
        "arg = ar_argument (ab_request (rt_broker r))"
proof -
  let ?c = "ts_context (task_slot r t)"
  note p = trap_preD [OF pre]
  have run: "commit_effect t (cx_rdi ?c) (cx_rsi ?c) (cx_rdx ?c) r = (Inr o', r')"
    using trap_operation_run [OF pre h] code by (simp add: trap_operation_def)
  show thesis
  proof (cases "commit_status r t (cx_rdi ?c) (cx_rsi ?c) (cx_rdx ?c)")
    case (Some st)
    have "st \<noteq> Status_Ok"
      using Some resolve_object_status by (auto simp: commit_status_def Let_def split: sum.splits if_splits)
    moreover have "sup_core r \<and> ab_request_present (rt_broker r)" if "st = Status_EffectUnavailable"
    proof -
      have sup: "rt_profile r = Profile_Supervised" and pr: "ab_request_present (rt_broker r)"
        using Some that resolve_object_unavailable
        by (auto simp: commit_status_def Let_def split: sum.splits if_splits)
      then show ?thesis using core_profile [OF p(3)] by simp
    qed
    moreover have "o' = Outcome_Resume t" "r' = answered t st 0 r"
      using run Some resume_validated_eq [OF p(1,2)] by (simp_all add: commit_effect_def)
    ultimately show ?thesis using that(1) by blast
  next
    case None
    note cs = commit_status_None [OF None]
    have sup: "sup_core r" by (rule core_profile [OF p(3) cs(1)])
    note or = open_request [OF pre sup cs(4)]
    let ?r1 = "(woken Status_Ok (cx_rdx ?c) r)\<lparr>rt_broker := decided_broker (rt_broker r),
        rt_effect := (rt_effect r)\<lparr>se_occupied := True, se_value := cx_rdx ?c\<rparr>\<rparr>"
    have "ab_decision_epoch (rt_broker r) \<noteq> u64_MAX" using or(3) cs(3) by (simp add: broker_inv_def)
    note db = decided_broker_inv [OF or(3) this]
    have "effect_inv ((rt_effect r)\<lparr>se_occupied := True, se_value := cx_rdx ?c\<rparr>)" using or(4) by (simp add: effect_inv_def)
    then have "trap_pre 1 ?r1" using pre or(1,2) sup db by (intro woken_pre(1)) simp_all
    from resume_validated_eq [OF trap_preD(1,2) [OF this]] run commit_eq [OF pre None]
    have "o' = Outcome_Resume t" "r' = answered t Status_Ok 0 ?r1" using or(1) by simp_all
    then show ?thesis using that(2) [OF or(1) sup cs(4,3)] cs(6) by metis
  qed
qed


lemma commit_journaled:
  assumes inv: "journaled_inv j" and pre: "trap_pre t (jr_runtime j)" and code: "trap_code t (jr_runtime j) = Some Op_CommitEffect"
    and h: "handle_trap t (jr_runtime j) = (Inr o', r')"
    and st: "ab_state (rt_broker (jr_runtime j)) = Broker_Approved"
    and b: "rt_broker r' = decided_broker (rt_broker (jr_runtime j))"
    and res: "result_is t Status_Ok (j\<lparr>jr_runtime := r'\<rparr>) = Inr True"
  defines "rec \<equiv> outcome_record Event_Completed Status_Ok
      (ab_decision_epoch (rt_broker (jr_runtime j)) + 1) (ab_request (rt_broker (jr_runtime j)))"
  shows "journaled_handle_trap t j = (Inr o', appended rec 0 r' j)" "journaled_inv (appended rec 0 r' j)"
    "ej_state (jr_journal j) = Journal_Live" "unat (ej_committed_record_count (jr_journal j)) < 16"
proof -
  let ?j = "j\<lparr>jr_runtime := r'\<rparr>" and ?k = "jr_journal j"
  note ol = open_live [OF inv disjI2 [OF st]]
  have n: "0 = (if False then 0 else ej_reserved_record_count ?k - 1)" by (simp add: ol(2) st expected_reserved_def)
  have hd: "header_ok rec" by (simp add: rec_def outcome_record_def)
  note app = append_reserved_live(1) [OF inv disjI2 [OF st] hd n, of r'] append_reserved_live(2) [OF inv disjI2 [OF st] hd n]
  have "journal_completion j ?j = (Inr None, appended rec 0 r' j)"
    using app(1) by (simp add: journal_completion_def rec_def outcome_record_def b)
  then have jt: "journal_trap t (Some Op_CommitEffect) (ts_context (task_slot (jr_runtime j) t)) j ?j =
      (Inr None, appended rec 0 r' j)"
    using st b res by (simp add: journal_trap_def act_bind_def Let_def)
  show "ej_state ?k = Journal_Live" and cnt: "unat (ej_committed_record_count ?k) < 16" using ol(1) app(2) by simp_all
  show inv': "journaled_inv (appended rec 0 r' j)"
    by (rule trap_appended_inv [OF inv ol(1) pre h hd app(2)]) (use ol(5) st in \<open>simp_all add: b expected_reserved_def request_logged_def rec_def audit_simps\<close>)
  show "journaled_handle_trap t j = (Inr o', appended rec 0 r' j)"
    using code h jt journaled_inv_validate [OF inv'] by (simp add: journaled_handle_trap_eq [OF pre] Let_def)
qed

text \<open>A commit to an occupied effect: the inner trap only answers, the journaled runtime ends the request.\<close>

definition commit_failed :: "Runtime \<Rightarrow> Runtime" where
  "commit_failed r =
     answered 1 Status_EffectUnavailable 0
       ((woken Status_EffectUnavailable 0 (answered 1 Status_EffectUnavailable 0 r))
         \<lparr>rt_broker := decided_broker (rt_broker r)\<rparr>)"

lemma commit_failed_pre:
  assumes pre: "trap_pre 1 r" and sup: "sup_core r" and st: "ab_state (rt_broker r) = Broker_Approved"
    and present: "ab_request_present (rt_broker r)"
  shows "trap_pre 1 (commit_failed r)" "exited_same r (commit_failed r)"
    "rt_broker (commit_failed r) = decided_broker (rt_broker r)" "rt_effect (commit_failed r) = rt_effect r"
    "ts_capabilities (rt_task0 (commit_failed r)) = ts_capabilities (rt_task0 r)"
    "ts_capabilities (rt_task1 (commit_failed r)) = ts_capabilities (rt_task1 r)"
    "rt_profile (commit_failed r) = rt_profile r"
proof -
  note or = open_request [OF pre sup present]
  let ?a = "answered 1 Status_EffectUnavailable 0 r" and ?b = "decided_broker (rt_broker r)"
  let ?w = "(woken Status_EffectUnavailable 0 ?a)\<lparr>rt_broker := ?b\<rparr>"
  have a: "trap_pre 1 ?a" using pre by (simp add: trap_pre_def answered_inv)
  have "sup_core ?a"
    using trap_preD(3) [OF a] sup by (intro core_profile) (simp_all add: sup_core_def)
  moreover have "ab_decision_epoch (rt_broker r) \<noteq> u64_MAX" using or(3) st by (simp add: broker_inv_def)
  note db = decided_broker_inv [OF or(3) this]
  ultimately have "trap_pre 1 ((woken Status_EffectUnavailable 0 ?a)\<lparr>rt_broker := ?b, rt_effect := rt_effect r\<rparr>)"
    "exited_same ?a ((woken Status_EffectUnavailable 0 ?a)\<lparr>rt_broker := ?b, rt_effect := rt_effect r\<rparr>)"
    using woken_pre [OF a, of ?b "rt_effect r"] or db by simp_all
  moreover have "(woken Status_EffectUnavailable 0 ?a)\<lparr>rt_broker := ?b, rt_effect := rt_effect r\<rparr> = ?w"
    by (simp add: woken_def)
  ultimately have w: "trap_pre 1 ?w" "exited_same ?a ?w" by simp_all
  show "trap_pre 1 (commit_failed r)" "exited_same r (commit_failed r)"
    using w unfolding commit_failed_def by (simp_all add: trap_pre_def answered_inv exited_same_def)
  show "rt_broker (commit_failed r) = decided_broker (rt_broker r)" "rt_effect (commit_failed r) = rt_effect r"
    "ts_capabilities (rt_task0 (commit_failed r)) = ts_capabilities (rt_task0 r)"
    "ts_capabilities (rt_task1 (commit_failed r)) = ts_capabilities (rt_task1 r)"
    "rt_profile (commit_failed r) = rt_profile r"
    by (simp_all add: commit_failed_def woken_def)
qed

lemma failure_journaled:
  assumes inv: "journaled_inv j" and pre: "trap_pre t (jr_runtime j)" and code: "trap_code t (jr_runtime j) = Some Op_CommitEffect"
    and h: "handle_trap t (jr_runtime j) = (Inr o', r')" and st: "ab_state (rt_broker (jr_runtime j)) = Broker_Approved"
    and r': "r' = answered t Status_EffectUnavailable 0 (jr_runtime j)" and present: "ab_request_present (rt_broker (jr_runtime j))"
  defines "rec \<equiv> outcome_record Event_Failed Status_EffectUnavailable
      (ab_decision_epoch (rt_broker (jr_runtime j)) + 1) (ab_request (rt_broker (jr_runtime j)))"
    and "r2 \<equiv> commit_failed (jr_runtime j)"
  shows "journaled_handle_trap t j = (Inr o', appended rec 0 r2 j)" "journaled_inv (appended rec 0 r2 j)"
    "ej_state (jr_journal j) = Journal_Live" "unat (ej_committed_record_count (jr_journal j)) < 16"
    "t = 1" "trap_pre 1 r2" "exited_same (jr_runtime j) r2" "rt_effect r2 = rt_effect (jr_runtime j)"
proof -
  let ?r = "jr_runtime j" and ?j = "j\<lparr>jr_runtime := r'\<rparr>" and ?k = "jr_journal j" and ?b = "rt_broker (jr_runtime j)"
  note d = journaled_invD [OF inv]
  note or = open_request [OF pre d(1) present]
  show t1: "t = 1" by (rule or(1))
  note cf = commit_failed_pre [OF pre [unfolded t1] d(1) st present, folded r2_def]
  note ol = open_live [OF inv disjI2 [OF st]]
  have n: "0 = (if False then 0 else ej_reserved_record_count ?k - 1)" by (simp add: ol(2) st expected_reserved_def)
  have hd: "header_ok rec" by (simp add: rec_def outcome_record_def)
  note app = append_reserved_live(1) [OF inv disjI2 [OF st] hd n, of r2] append_reserved_live(2) [OF inv disjI2 [OF st] hd n]
  have "ab_decision_epoch ?b \<noteq> u64_MAX" using or(3) st by (simp add: broker_inv_def)
  note e = checked_succ [OF this]
  have wake: "wake_workload Status_EffectUnavailable 0 (r'\<lparr>rt_broker := decided_broker ?b\<rparr>) =
      (Inr (), woken Status_EffectUnavailable 0 (r'\<lparr>rt_broker := decided_broker ?b\<rparr>))"
    by (rule wake_workload_eq) (simp_all add: r' or)
  have "woken Status_EffectUnavailable 0 (r'\<lparr>rt_broker := decided_broker ?b\<rparr>) =
      (woken Status_EffectUnavailable 0 r')\<lparr>rt_broker := decided_broker ?b\<rparr>" by (simp add: woken_def)
  then have r2: "answered t Status_EffectUnavailable 0 (woken Status_EffectUnavailable 0 (r'\<lparr>rt_broker := decided_broker ?b\<rparr>)) = r2"
    by (simp add: r2_def commit_failed_def r' t1)
  have bk: "rt_broker r' = ?b" by (simp add: r')
  have "journal_failure t j ?j = (Inr None, appended rec 0 r2 j)"
    using app(1) e wake r2 bk t1
    by (simp add: journal_failure_def act_then_def act_bind_def on_runtime_eq modify_broker_def set_result_eq
        decided_broker_def answered_def rec_def outcome_record_def)
  then have jt: "journal_trap t (Some Op_CommitEffect) (ts_context (task_slot ?r t)) j ?j = (Inr None, appended rec 0 r2 j)"
    using st bk answered_result [OF trap_preD(1) [OF pre]] by (simp add: journal_trap_def act_bind_def Let_def r')
  show "ej_state ?k = Journal_Live" "unat (ej_committed_record_count ?k) < 16" using ol(1) app(2) by simp_all
  have "sup_core r2" using trap_preD(3) [OF cf(1)] cf(7) d(1) by (intro core_profile) (simp_all add: sup_core_def)
  moreover have "authority_inv r2" using d(3) cf by (simp add: authority_inv_def)
  moreover have "table_state r2 1 = Cap_Live" "table_state r2 2 = Cap_Live \<or> table_state r2 2 = Cap_Building"
    using d(5) ol(1) cf by (simp_all add: journal_follows_def)
  ultimately show inv': "journaled_inv (appended rec 0 r2 j)"
    by (intro appended_inv [OF inv ol(1) hd app(2)])
      (use ol(5) st in \<open>simp_all add: trap_preD(4) [OF cf(1)] cf(3) expected_reserved_def request_logged_def rec_def audit_simps\<close>)
  show "journaled_handle_trap t j = (Inr o', appended rec 0 r2 j)"
    using code h jt journaled_inv_validate [OF inv'] by (simp add: journaled_handle_trap_eq [OF pre] Let_def)
  show "trap_pre 1 r2" "exited_same ?r r2" "rt_effect r2 = rt_effect ?r" using cf by simp_all
qed


section \<open>All traps\<close>

text \<open>
  A trap of the journaled runtime fails without a change, or changes only the runtime and leaves the
  broker alone, or appends one record.  The effect only changes together with the record of its
  completion.
\<close>

definition effect_recorded :: "Runtime \<Rightarrow> Runtime \<Rightarrow> EffectRecordV1 \<Rightarrow> bool" where
  "effect_recorded r r' rec \<longleftrightarrow>
     ab_state (rt_broker r) = Broker_Approved
     \<and> rec = outcome_record Event_Completed Status_Ok (ab_decision_epoch (rt_broker r) + 1) (ab_request (rt_broker r))
     \<and> rt_effect r' = (rt_effect r)\<lparr>se_occupied := True, se_value := ar_argument (ab_request (rt_broker r))\<rparr>"

definition outcome_failed :: "u64 \<Rightarrow> JournaledRuntime \<Rightarrow> (RuntimeError + TrapOutcome) \<times> JournaledRuntime \<Rightarrow> bool" where
  "outcome_failed t j res \<longleftrightarrow> (\<exists>e. res = (Inl e, j) \<and> trap_post t (jr_runtime j) (Inl e, jr_runtime j))"

definition outcome_quiet :: "u64 \<Rightarrow> JournaledRuntime \<Rightarrow> (RuntimeError + TrapOutcome) \<times> JournaledRuntime \<Rightarrow> bool" where
  "outcome_quiet t j res \<longleftrightarrow>
     (\<exists>o' r'. res = (Inr o', j\<lparr>jr_runtime := r'\<rparr>) \<and> journaled_inv (j\<lparr>jr_runtime := r'\<rparr>)
        \<and> trap_post t (jr_runtime j) (Inr o', r') \<and> rt_effect r' = rt_effect (jr_runtime j))"

definition outcome_records :: "u64 \<Rightarrow> JournaledRuntime \<Rightarrow> (RuntimeError + TrapOutcome) \<times> JournaledRuntime \<Rightarrow> bool" where
  "outcome_records t j res \<longleftrightarrow>
     (\<exists>o' r' rec n. res = (Inr o', appended rec n r' j) \<and> journaled_inv (appended rec n r' j)
        \<and> trap_post t (jr_runtime j) (Inr o', r') \<and> ej_state (jr_journal j) = Journal_Live \<and> header_ok rec
        \<and> unat (ej_committed_record_count (jr_journal j)) + unat n < 16 \<and> unat n \<le> 2
        \<and> (rt_effect r' = rt_effect (jr_runtime j) \<or> effect_recorded (jr_runtime j) r' rec))"

lemma outcome_recordsI:
  assumes "journaled_handle_trap t j = (Inr o', appended rec n r' j)" "journaled_inv (appended rec n r' j)"
    "ej_state (jr_journal j) = Journal_Live" "unat (ej_committed_record_count (jr_journal j)) + unat n < 16"
    and "trap_post t (jr_runtime j) (Inr o', r')" "header_ok rec" "unat n \<le> 2"
    and "rt_effect r' = rt_effect (jr_runtime j) \<or> effect_recorded (jr_runtime j) r' rec"
  shows "outcome_records t j (journaled_handle_trap t j)"
  using assms unfolding outcome_records_def by blast

lemma post_of: "trap_pre t r \<Longrightarrow> handle_trap t r = (Inr o', r') \<Longrightarrow> trap_post t r (Inr o', r')"
  using handle_trap_pre(2) trap_preD(2) by blast

lemma trap_quiet_cases:
  assumes inv: "journaled_inv j" and pre: "trap_pre t (jr_runtime j)"
    and h: "handle_trap t (jr_runtime j) = (Inr o', r')"
    and code: "trap_code t (jr_runtime j) \<notin> {Some Op_SubmitApproval, Some Op_DecideApproval, Some Op_CommitEffect,
        Some Op_InspectEffectJournal, Some Op_ReadEffectRecord}"
  shows "outcome_quiet t j (journaled_handle_trap t j)"
proof -
  have b: "rt_broker r' = rt_broker (jr_runtime j)" using broker_kept [OF h] code by simp
  have "journaled_handle_trap t j = (Inr o', j\<lparr>jr_runtime := r'\<rparr>)"
    using code by (intro journaled_trap_quiet [OF inv pre h b]) (auto simp: journal_trap_def Let_def)
  moreover have "rt_effect r' = rt_effect (jr_runtime j)" using effect_kept [OF h] code by simp
  ultimately show ?thesis
    using journaled_inv_quiet [OF inv pre h b] post_of [OF pre h] unfolding outcome_quiet_def by blast
qed

lemma trap_answered_quiet:
  assumes inv: "journaled_inv j" and pre: "trap_pre t (jr_runtime j)"
    and h: "handle_trap t (jr_runtime j) = (Inr o', r')" and r': "r' = answered t st 0 (jr_runtime j)"
    and code: "trap_code t (jr_runtime j) \<in> {Some Op_SubmitApproval, Some Op_DecideApproval, Some Op_CommitEffect}"
    and st: "trap_code t (jr_runtime j) \<noteq> Some Op_SubmitApproval \<Longrightarrow> st \<noteq> Status_Ok"
      "trap_code t (jr_runtime j) = Some Op_CommitEffect \<Longrightarrow>
        st \<noteq> Status_EffectUnavailable \<or> ab_state (rt_broker (jr_runtime j)) \<noteq> Broker_Approved"
  shows "outcome_quiet t j (journaled_handle_trap t j)"
proof -
  have b: "rt_broker r' = rt_broker (jr_runtime j)" by (simp add: r')
  have "journal_trap t (trap_code t (jr_runtime j)) (ts_context (task_slot (jr_runtime j) t)) j (j\<lparr>jr_runtime := r'\<rparr>)
      = (Inr None, j\<lparr>jr_runtime := r'\<rparr>)"
    using code st answered_result [OF trap_preD(1) [OF pre]]
    by (auto simp: journal_trap_def Let_def act_bind_def r')
  then have "journaled_handle_trap t j = (Inr o', j\<lparr>jr_runtime := r'\<rparr>)"
    using code by (intro journaled_trap_quiet [OF inv pre h b]) auto
  moreover have "rt_effect r' = rt_effect (jr_runtime j)" by (simp add: r')
  ultimately show ?thesis
    using journaled_inv_quiet [OF inv pre h b] post_of [OF pre h] unfolding outcome_quiet_def by blast
qed

lemma submit_outcome:
  assumes inv: "journaled_inv j" and pre: "trap_pre t (jr_runtime j)" and code: "trap_code t (jr_runtime j) = Some Op_SubmitApproval"
    and h: "handle_trap t (jr_runtime j) = (Inr o', r')"
  shows "outcome_quiet t j (journaled_handle_trap t j) \<or> outcome_records t j (journaled_handle_trap t j)"
  using pre code h
proof (cases rule: submit_run_cases)
  case (refused st)
  then show ?thesis using trap_answered_quiet [OF inv pre h refused(2)] code by simp
next
  case (accepted arg)
  have eff: "rt_effect r' = rt_effect (jr_runtime j)" using effect_kept [OF h] code by simp
  from inv pre code h accepted(3,1,5) show ?thesis
  proof (cases rule: submit_journaled)
    case (refused st)
    have v: "valid_task t" by (rule trap_preD(1) [OF pre])
    have "trap_post t (jr_runtime j) (Inr (Outcome_Resume t), answered t st 0 (jr_runtime j))" by (rule post_answered [OF pre])
    then show ?thesis
      using refused journaled_inv_answered [OF inv v] unfolding outcome_quiet_def by fastforce
  next
    case requested
    then have "outcome_records t j (journaled_handle_trap t j)"
      using post_of [OF pre h] eff by (intro outcome_recordsI [OF requested(1-3)]) (simp_all add: requested_record_def)
    then show ?thesis ..
  qed
qed

lemma decide_outcome:
  assumes inv: "journaled_inv j" and pre: "trap_pre t (jr_runtime j)" and code: "trap_code t (jr_runtime j) = Some Op_DecideApproval"
    and h: "handle_trap t (jr_runtime j) = (Inr o', r')"
  shows "outcome_quiet t j (journaled_handle_trap t j) \<or> outcome_records t j (journaled_handle_trap t j)"
proof -
  have "ab_state (rt_broker (jr_runtime j)) = Broker_Pending \<longrightarrow>
      unat (ab_decision_epoch (rt_broker (jr_runtime j))) + 2 < 2 ^ 64" using open_live(4) [OF inv] by blast
  from pre code h this show ?thesis
  proof (cases rule: decide_run_cases)
    case (refused st)
    then show ?thesis using trap_answered_quiet [OF inv pre h refused(3)] code by simp
  next
    case (applied decision)
    note dj = decide_journaled [OF inv pre code h applied(2-5,7)]
    have eff: "rt_effect r' = rt_effect (jr_runtime j)" using effect_kept [OF h] code by simp
    have "outcome_records t j (journaled_handle_trap t j)"
      by (rule outcome_recordsI [OF dj post_of [OF pre h]]) (simp_all add: decision_record_def eff)
    then show ?thesis ..
  qed
qed

lemma commit_outcome:
  assumes inv: "journaled_inv j" and pre: "trap_pre t (jr_runtime j)" and code: "trap_code t (jr_runtime j) = Some Op_CommitEffect"
    and h: "handle_trap t (jr_runtime j) = (Inr o', r')"
  shows "outcome_quiet t j (journaled_handle_trap t j) \<or> outcome_records t j (journaled_handle_trap t j)"
  using pre code h
proof (cases rule: commit_run_cases)
  case (refused st)
  show ?thesis
  proof (cases "st = Status_EffectUnavailable \<and> ab_state (rt_broker (jr_runtime j)) = Broker_Approved")
    case True
    then have present: "ab_request_present (rt_broker (jr_runtime j))" using refused(4) by blast
    note fj = failure_journaled [OF inv pre code h conjunct2 [OF True] _ present]
    have r': "r' = answered t Status_EffectUnavailable 0 (jr_runtime j)" using refused(3) True by simp
    have "trap_post t (jr_runtime j) (Inr o', commit_failed (jr_runtime j))"
      using fj(5,6,7) [OF r'] refused(2) trap_preD [OF fj(6) [OF r']] by (simp add: trap_post_def)
    then have "outcome_records t j (journaled_handle_trap t j)"
      using fj(4,8) [OF r'] by (intro outcome_recordsI [OF fj(1-3) [OF r']]) (simp_all add: outcome_record_def)
    then show ?thesis ..
  next
    case False
    then show ?thesis using trap_answered_quiet [OF inv pre h refused(3)] code refused(1) by simp
  qed
next
  case (committed arg)
  have b: "rt_broker r' = decided_broker (rt_broker (jr_runtime j))" by (simp add: committed(6))
  have "result_is t Status_Ok (j\<lparr>jr_runtime := r'\<rparr>) = Inr True"
    unfolding committed(6) using answered_result [OF trap_preD(1) [OF pre]] by simp
  note cj = commit_journaled [OF inv pre code h committed(4) b this]
  have "rt_effect r' = (rt_effect (jr_runtime j))\<lparr>se_occupied := True, se_value := arg\<rparr>" by (simp add: committed(6))
  then have "outcome_records t j (journaled_handle_trap t j)"
    using cj(4) post_of [OF pre h] committed(4,7)
    by (intro outcome_recordsI [OF cj(1-3)]) (simp_all add: outcome_record_def effect_recorded_def)
  then show ?thesis ..
qed

lemma journaled_trap_outcome:
  assumes inv: "journaled_inv j" and pre: "trap_pre t (jr_runtime j)"
  shows "outcome_failed t j (journaled_handle_trap t j) \<or> outcome_quiet t j (journaled_handle_trap t j)
    \<or> outcome_records t j (journaled_handle_trap t j)"
proof (cases "trap_code t (jr_runtime j) \<in> {Some Op_InspectEffectJournal, Some Op_ReadEffectRecord}")
  case True
  then obtain op where op: "trap_code t (jr_runtime j) = Some op" "op = Op_InspectEffectJournal \<or> op = Op_ReadEffectRecord"
    by auto
  note v = trap_preD(1) [OF pre]
  obtain st v' where out: "handle_journal_read t op (ts_context (task_slot (jr_runtime j) t)) j =
      (Inr (Outcome_Resume t), journal_output t st v' j)"
    by (rule journal_read_cases [OF inv v op(2)])
  let ?r = "jr_runtime (journal_output t st v' j)"
  have j': "journal_output t st v' j = j\<lparr>jr_runtime := ?r\<rparr>" by (simp add: journal_output_def)
  have inv': "journaled_inv (j\<lparr>jr_runtime := ?r\<rparr>)" using journal_output_inv [OF inv v] j' by metis
  have ts: "task_state ?r u = task_state (jr_runtime j) u" if "valid_task u" for u
    using that v by (simp add: journal_output_def task_slot_upd)
  have "exited_same (jr_runtime j) ?r" using ts [of 1] ts [of 2] by (simp add: exited_same_def)
  then have "trap_post t (jr_runtime j) (Inr (Outcome_Resume t), ?r)"
    using journaled_invD(6) [OF inv'] trap_preD(5) [OF pre] ts [OF v] by (simp add: trap_post_def)
  moreover have "rt_effect ?r = rt_effect (jr_runtime j)" by (simp add: journal_output_def)
  moreover have "journaled_handle_trap t j = (Inr (Outcome_Resume t), j\<lparr>jr_runtime := ?r\<rparr>)"
    using op out j' by (auto simp: journaled_handle_trap_eq [OF pre] Let_def)
  ultimately show ?thesis using inv' unfolding outcome_quiet_def by blast
next
  case code: False
  obtain x r' where x: "handle_trap t (jr_runtime j) = (x, r')" by fastforce
  show ?thesis
  proof (cases x)
    case (Inl e)
    have "r' = jr_runtime j" using handle_trap_error x Inl by blast
    have "trap_post t (jr_runtime j) (Inl e, jr_runtime j)"
      using handle_trap_inner_post [OF pre] x Inl
      by (auto simp: trap_post_def handle_trap_def act_restoring_def split: prod.splits sum.splits)
    moreover have "journaled_handle_trap t j = (Inl e, j)"
      using code x Inl by (auto simp: journaled_handle_trap_eq [OF pre] Let_def)
    ultimately show ?thesis unfolding outcome_failed_def by blast
  next
    case (Inr o')
    have h: "handle_trap t (jr_runtime j) = (Inr o', r')" using x Inr by simp
    consider (s) "trap_code t (jr_runtime j) = Some Op_SubmitApproval" | (d) "trap_code t (jr_runtime j) = Some Op_DecideApproval"
      | (c) "trap_code t (jr_runtime j) = Some Op_CommitEffect"
      | (q) "trap_code t (jr_runtime j) \<notin> {Some Op_SubmitApproval, Some Op_DecideApproval, Some Op_CommitEffect,
          Some Op_InspectEffectJournal, Some Op_ReadEffectRecord}" using code by blast
    then show ?thesis
    proof cases
      case q
      then show ?thesis using trap_quiet_cases [OF inv pre h q] by blast
    next
      case s
      then show ?thesis using submit_outcome [OF inv pre s h] by blast
    next
      case d
      then show ?thesis using decide_outcome [OF inv pre d h] by blast
    next
      case c
      then show ?thesis using commit_outcome [OF inv pre c h] by blast
    qed
  qed
qed

end
