(* ===== verification/Journaled_Calls.thy ===== *)
theory Journaled_Calls
  imports Journaled_Traps
begin

text \<open>
  Teardown, reclamation and construction of the journaled runtime: every public call keeps the invariant,
  a failed call changes nothing, and the journal only grows until it is reclaimed.
\<close>


section \<open>Teardown\<close>

lemma released_follows:
  assumes sup: "sup_core r" and t: "valid_task t" and ex: "task_state r t = TaskState_Exited"
    and live: "table_state r t = Cap_Live" and sealed: "ej_state k = Journal_Sealed" "audit (journal_log k) = Some Audit_Idle"
  shows "journal_follows (sup_released t r) k"
proof (cases "t = 1")
  case True
  have "ab_state (rt_broker (sup_released 1 r)) = Broker_Closing"
    by (simp add: sup_released_def closing_broker_def Let_def)
  then show ?thesis using True sealed by (simp add: journal_follows_def)
next
  case False
  then have t2: "t = 2" using t by (simp add: valid_task_def)
  have shut: "ab_state (rt_broker r) \<noteq> Broker_Pending" "ab_state (rt_broker r) \<noteq> Broker_Approved"
    using sup_coreD(5) [OF sup] ex t2 by auto
  have "ab_state (orphaned_broker r) = ab_state (rt_broker r)"
  proof (cases "ts_state (rt_task0 r) = TaskState_Dead")
    case True
    from sup_coreD(4) [OF sup True] orphaned_broker_dead show ?thesis by simp
  next
    case False
    from orphaned_broker_inv(2) [OF sup_coreD(3) [OF sup False] False shut] show ?thesis .
  qed
  moreover have "table_ok (ts_capabilities (rt_task1 r))" using sup_coreD(2) [OF sup] by (simp add: slot_inv_def)
  then have "ct_state (closing_table (ts_capabilities (rt_task1 r))) = Cap_Closing"
    using live t2 by (intro closing_table(3)) simp_all
  ultimately show ?thesis using t2 sealed shut by (simp add: journal_follows_def sup_released_def)
qed

lemma sup_core_broker:
  assumes "sup_core r" "ts_state (rt_task0 r) \<noteq> TaskState_Dead" "broker_inv b" "ab_state b = ab_state (rt_broker r)"
  shows "sup_core (r\<lparr>rt_broker := b\<rparr>)"
  using assms unfolding sup_core_def slots_inv_def by simp

text \<open>The supervisor's exit with a request still open: the epoch has already moved on when the runtime is torn down.\<close>

lemma begin_teardown_bumped:
  assumes inv: "runtime_inv r" and sup: "sup_core r" and ex: "ts_state (rt_task0 r) = TaskState_Exited"
    and live: "table_state r 1 = Cap_Live" and e: "e \<noteq> 0"
  defines "r1 \<equiv> r\<lparr>rt_broker := (rt_broker r)\<lparr>ab_decision_epoch := e\<rparr>\<rparr>"
  shows "begin_teardown 1 r1 = (Inr (), sup_released 1 r1)" "sup_core (sup_released 1 r1)"
    "sched_inv (sup_released 1 r1)"
    "rt_task0 (sup_released 1 r1) = rt_task0 (sup_released 1 r)" "rt_task1 (sup_released 1 r1) = rt_task1 (sup_released 1 r)"
    "rt_profile (sup_released 1 r1) = rt_profile (sup_released 1 r)"
proof -
  let ?b = "closing_broker ((rt_broker r)\<lparr>ab_decision_epoch := e\<rparr>)"
  have eq: "sup_released 1 r1 = (sup_released 1 r)\<lparr>rt_broker := ?b\<rparr>"
    by (simp add: sup_released_def r1_def terminal_status_def woken_def Let_def)
  have sched: "sched_inv r" "sched_inv r1" using inv by (simp_all add: runtime_inv_def r1_def)
  have b: "broker_inv (rt_broker r)" using sup_coreD(3) [OF sup] ex by simp
  then have "broker_inv ?b" "ab_state ?b = Broker_Closing"
    using e by (simp_all add: broker_inv_def closing_broker_def clear_request_def request_cleared_def ApprovalBroker_DEAD_def)
  moreover have rel: "sup_core (sup_released 1 r)" "sched_inv (sup_released 1 r)"
    using sup_released_core [OF sup _ _ live] sup_released_sched [OF sched(1)] ex by simp_all
  moreover have "ts_state (rt_task0 (sup_released 1 r)) \<noteq> TaskState_Dead" "ab_state (rt_broker (sup_released 1 r)) = Broker_Closing"
    using ex by (simp_all add: sup_released_def closing_broker_def woken_def Let_def)
  ultimately show core: "sup_core (sup_released 1 r1)" unfolding eq by (intro sup_core_broker) simp_all
  show s1: "sched_inv (sup_released 1 r1)" using rel(2) by (simp add: eq)
  have v: "runtime_validate (sup_released 1 r1) = Inr ()" using core s1 by (intro runtime_inv_validate) (simp add: runtime_inv_def)
  have ok: "table_ok (ts_capabilities (rt_task0 r))" using sup_coreD(1) [OF sup] by (simp add: slot_inv_def)
  have "begin_teardown_inner 1 r1 = (Inr (), sup_released 1 r1)"
    using sup ex live ok
    by (intro begin_teardown_sup_eq [OF _ sched(2) _ _ _ _ v]) (simp_all add: r1_def sup_core_def)
  then show "begin_teardown 1 r1 = (Inr (), sup_released 1 r1)" by (simp add: begin_teardown_def act_restoring_def)
  show "rt_task0 (sup_released 1 r1) = rt_task0 (sup_released 1 r)" "rt_task1 (sup_released 1 r1) = rt_task1 (sup_released 1 r)"
    "rt_profile (sup_released 1 r1) = rt_profile (sup_released 1 r)" by (simp_all add: eq)
qed

definition sealed :: "JournaledRuntime \<Rightarrow> JournaledRuntime" where
  "sealed j = j\<lparr>jr_journal := (jr_journal j)\<lparr>ej_state := Journal_Sealed\<rparr>\<rparr>"

lemma sealed_ok:
  assumes "journal_ok (jr_journal j)" "ej_state (jr_journal j) = Journal_Live" "ej_reserved_record_count (jr_journal j) = 0"
  shows "on_journal journal_seal j = (Inr (), sealed j)" "journal_ok (jr_journal (sealed j))"
    "journal_log (jr_journal (sealed j)) = journal_log (jr_journal j)"
proof -
  have eq: "journal_seal (jr_journal j) = (Inr (), jr_journal (sealed j))"
    using assms by (simp add: journal_seal_def sealed_def)
  then show "on_journal journal_seal j = (Inr (), sealed j)" by (simp add: on_journal_eq sealed_def)
  from seal_step [OF _ eq] assms show "journal_ok (jr_journal (sealed j))"
    "journal_log (jr_journal (sealed j)) = journal_log (jr_journal j)" by (simp_all add: journal_open_def)
qed

lemma journaled_begin_finish:
  assumes j: "sup_core (sup_released t r)" "sched_inv (sup_released t r)" "authority_inv (sup_released t r)"
    and b: "begin_teardown t r = (Inr (), sup_released t r)" and f: "journal_follows (sup_released t r) (jr_journal j)"
    and ok: "journal_ok (jr_journal j)" and r: "jr_runtime j = r"
  shows "journaled_inv (j\<lparr>jr_runtime := sup_released t r\<rparr>)"
    "on_runtime (begin_teardown t) j = (Inr (), j\<lparr>jr_runtime := sup_released t r\<rparr>)"
    "is_err (journaled_validate (j\<lparr>jr_runtime := sup_released t r\<rparr>)) = False"
proof -
  show inv: "journaled_inv (j\<lparr>jr_runtime := sup_released t r\<rparr>)" using j f ok by (simp add: journaled_inv_def)
  show "on_runtime (begin_teardown t) j = (Inr (), j\<lparr>jr_runtime := sup_released t r\<rparr>)" using b r by (simp add: on_runtime_eq)
  show "is_err (journaled_validate (j\<lparr>jr_runtime := sup_released t r\<rparr>)) = False"
    using journaled_inv_validate [OF inv] by simp
qed


text \<open>The state the journal is in when a live one is torn down: the open request has its last record.\<close>

definition concluded :: "JournaledRuntime \<Rightarrow> JournaledRuntime" where
  "concluded j =
     (let r = jr_runtime j; b = rt_broker r; e = ab_decision_epoch b + 1
      in if ab_request_present b
         then appended
           (if ab_state b = Broker_Pending then teardown_record Event_Denied Status_ApprovalDenied e (ab_request b)
            else teardown_record Event_Expired Status_ApprovalExpired e (ab_request b)) 0
           (r\<lparr>rt_broker := b\<lparr>ab_decision_epoch := e\<rparr>\<rparr>) j
         else j)"

lemma open_epoch:
  assumes inv: "journaled_inv j" and present: "ab_request_present (rt_broker (jr_runtime j))"
  shows "ab_state (rt_broker (jr_runtime j)) = Broker_Pending \<or> ab_state (rt_broker (jr_runtime j)) = Broker_Approved"
    "checked_add (ab_decision_epoch (rt_broker (jr_runtime j))) 1 = Some (ab_decision_epoch (rt_broker (jr_runtime j)) + 1)"
    "ab_decision_epoch (rt_broker (jr_runtime j)) + 1 \<noteq> 0" "ts_state (rt_task1 (jr_runtime j)) = TaskState_BlockedApproval"
proof -
  note d = journaled_invD [OF inv]
  show st: "ab_state (rt_broker (jr_runtime j)) = Broker_Pending \<or> ab_state (rt_broker (jr_runtime j)) = Broker_Approved"
    using closed_request [OF d(1)] present by blast
  show "ts_state (rt_task1 (jr_runtime j)) = TaskState_BlockedApproval" using sup_coreD(5) [OF d(1)] st by simp
  have nd: "ts_state (rt_task0 (jr_runtime j)) \<noteq> TaskState_Dead"
    using sup_coreD(4) [OF d(1)] present by (auto simp: ApprovalBroker_DEAD_def)
  have "ab_decision_epoch (rt_broker (jr_runtime j)) \<noteq> u64_MAX"
  proof (cases "ab_state (rt_broker (jr_runtime j)) = Broker_Pending")
    case True
    from open_live(4) [OF inv disjI1 [OF True] True] show ?thesis by (auto simp: unat_u64_MAX)
  next
    case False
    with st sup_coreD(3) [OF d(1) nd] show ?thesis by (simp add: broker_inv_def)
  qed
  then show "checked_add (ab_decision_epoch (rt_broker (jr_runtime j))) 1 = Some (ab_decision_epoch (rt_broker (jr_runtime j)) + 1)"
    "ab_decision_epoch (rt_broker (jr_runtime j)) + 1 \<noteq> 0" by (simp_all add: checked_succ succ_nonzero)
qed

lemma concluded_eq:
  assumes inv: "journaled_inv j" and live: "ej_state (jr_journal j) = Journal_Live"
  shows "journal_open_request j = (Inr (), concluded j)" "journal_ok (jr_journal (concluded j))"
    "ej_state (jr_journal (concluded j)) = Journal_Live" "ej_reserved_record_count (jr_journal (concluded j)) = 0"
    "\<exists>xs. journal_log (jr_journal (concluded j)) = journal_log (jr_journal j) @ xs"
    "audit (journal_log (jr_journal (concluded j))) = Some Audit_Idle"
proof -
  let ?r = "jr_runtime j" and ?k = "jr_journal j" and ?b = "rt_broker (jr_runtime j)"
  note d = journaled_invD [OF inv]
  have "journal_open_request j = (Inr (), concluded j) \<and> journal_ok (jr_journal (concluded j))
      \<and> ej_state (jr_journal (concluded j)) = Journal_Live \<and> ej_reserved_record_count (jr_journal (concluded j)) = 0
      \<and> (\<exists>xs. journal_log (jr_journal (concluded j)) = journal_log ?k @ xs)
      \<and> audit (journal_log (jr_journal (concluded j))) = Some Audit_Idle"
  proof (cases "ab_request_present ?b")
    case False
    then have "ab_state ?b \<noteq> Broker_Pending" "ab_state ?b \<noteq> Broker_Approved"
      using sup_coreD(3,4) [OF d(1)]
      by (cases "ts_state (rt_task0 ?r) = TaskState_Dead"; force simp: broker_inv_def request_open_def ApprovalBroker_DEAD_def)+
    then have "expected_reserved (ab_state ?b) = 0" "broker_phase (ab_state ?b) = Audit_Idle"
      by (simp_all add: expected_reserved_def broker_phase_def split: ApprovalBrokerState.splits)
    with False d live show ?thesis
      by (simp add: journal_open_request_def concluded_def journal_follows_def request_logged_def)
  next
    case True
    note oe = open_epoch [OF inv True]
    let ?e = "ab_decision_epoch ?b + 1"
    let ?r1 = "?r\<lparr>rt_broker := ?b\<lparr>ab_decision_epoch := ?e\<rparr>\<rparr>"
    define rec where "rec = (if ab_state ?b = Broker_Pending then teardown_record Event_Denied Status_ApprovalDenied ?e (ab_request ?b)
        else teardown_record Event_Expired Status_ApprovalExpired ?e (ab_request ?b))"
    define release where "release \<longleftrightarrow> ab_state ?b = Broker_Pending"
    have n: "0 = (if release then 0 else ej_reserved_record_count ?k - 1)"
      using oe(1) open_live(2) [OF inv oe(1)] by (auto simp: release_def expected_reserved_def)
    have hd: "header_ok rec" by (simp add: rec_def teardown_record_def)
    note app = append_reserved_live(1) [OF inv oe(1) hd n, of ?r1] append_reserved_live(2) [OF inv oe(1) hd n]
    have c: "concluded j = appended rec 0 ?r1 j" using True by (simp add: concluded_def rec_def Let_def)
    have "journal_open_request j = (Inr (), appended rec 0 ?r1 j)"
      using True oe(1,2) app(1)
      by (auto simp: journal_open_request_def rec_def release_def teardown_record_def Let_def)
    moreover have "ej_reserved_record_count (jr_journal (appended rec 0 ?r1 j)) = 0" by simp
    moreover have "audit (journal_log ?k @ [sequenced (length (journal_log ?k)) rec]) = Some Audit_Idle"
      using oe(1) open_live(5) [OF inv oe(1)] by (auto simp: request_logged_def rec_def audit_simps)
    ultimately show ?thesis unfolding c using appended_log [OF inv live hd app(2), of ?r1] by simp
  qed
  then show "journal_open_request j = (Inr (), concluded j)" "journal_ok (jr_journal (concluded j))"
    "ej_state (jr_journal (concluded j)) = Journal_Live" "ej_reserved_record_count (jr_journal (concluded j)) = 0"
    "\<exists>xs. journal_log (jr_journal (concluded j)) = journal_log (jr_journal j) @ xs"
    "audit (journal_log (jr_journal (concluded j))) = Some Audit_Idle" by blast+
qed

text \<open>The first phase of teardown: the journal is sealed and the inner runtime released.\<close>

definition torn_down :: "u64 \<Rightarrow> JournaledRuntime \<Rightarrow> JournaledRuntime" where
  "torn_down t j =
     (let j1 = (if ej_state (jr_journal j) = Journal_Live then sealed (concluded j) else j)
      in j1\<lparr>jr_runtime := sup_released t (jr_runtime j1)\<rparr>)"

lemma released_authority:
  assumes "runtime_inv r" "sup_core r" "authority_inv r" "valid_task t" "task_state r t = TaskState_Exited" "table_state r t = Cap_Live"
  shows "begin_teardown t r = (Inr (), sup_released t r)" "authority_inv (sup_released t r)"
proof -
  have "rt_profile r = Profile_Supervised" using assms(2) by (simp add: sup_core_def)
  then show eq: "begin_teardown t r = (Inr (), sup_released t r)"
    using begin_teardown_eq(1) [OF assms(1,4,5,6)] by (simp add: released_def)
  show "authority_inv (sup_released t r)" by (rule authority_begin [OF assms(1,3) eq])
qed

lemma begin_released:
  assumes inv: "journaled_inv j" and t: "valid_task t" and ex: "task_state (jr_runtime j) t = TaskState_Exited"
    and live: "table_state (jr_runtime j) t = Cap_Live" and r1: "r1 = jr_runtime (concluded j) \<or> r1 = jr_runtime j"
  shows "begin_teardown t r1 = (Inr (), sup_released t r1)" "sup_core (sup_released t r1)" "sched_inv (sup_released t r1)"
    "authority_inv (sup_released t r1)" "valid_task u \<Longrightarrow> task_slot (sup_released t r1) u = task_slot (sup_released t (jr_runtime j)) u"
    "ej_state k = Journal_Sealed \<Longrightarrow> audit (journal_log k) = Some Audit_Idle \<Longrightarrow> journal_follows (sup_released t r1) k"
proof -
  let ?r = "jr_runtime j"
  note d = journaled_invD [OF inv]
  note ra = released_authority [OF d(6,1,3) t ex live]
  have "begin_teardown t r1 = (Inr (), sup_released t r1) \<and> sup_core (sup_released t r1) \<and> sched_inv (sup_released t r1)
      \<and> authority_inv (sup_released t r1)
      \<and> (valid_task u \<longrightarrow> task_slot (sup_released t r1) u = task_slot (sup_released t ?r) u)
      \<and> (ej_state k = Journal_Sealed \<longrightarrow> audit (journal_log k) = Some Audit_Idle \<longrightarrow> journal_follows (sup_released t r1) k)"
  proof (cases "r1 = ?r")
    case True
    then show ?thesis
      using ra sup_released_core [OF d(1) t ex live] sup_released_sched [OF d(2) t ex] released_follows [OF d(1) t ex live] by simp
  next
    case False
    with r1 have present: "ab_request_present (rt_broker ?r)" and r1: "r1 = jr_runtime (concluded j)"
      by (auto simp: concluded_def Let_def split: if_splits)
    note oe = open_epoch [OF inv present]
    have t1: "t = 1" using t ex oe(4) by (auto simp: valid_task_def)
    have eq: "r1 = ?r\<lparr>rt_broker := (rt_broker ?r)\<lparr>ab_decision_epoch := ab_decision_epoch (rt_broker ?r) + 1\<rparr>\<rparr>"
      using r1 present by (simp add: concluded_def Let_def)
    have ex1: "ts_state (rt_task0 ?r) = TaskState_Exited" and live1: "table_state ?r 1 = Cap_Live" using ex live t1 by simp_all
    note bt = begin_teardown_bumped [OF d(6,1) ex1 live1 oe(3), folded eq]
    have "authority_inv (sup_released 1 r1)"
      using ra(2) t1 bt(4,5,6) by (simp add: authority_inv_def)
    moreover have "ab_state (rt_broker (sup_released 1 r1)) = Broker_Closing"
      by (simp add: sup_released_def closing_broker_def Let_def)
    ultimately show ?thesis using bt t1 by (simp add: journal_follows_def task_slot_def)
  qed
  then show "begin_teardown t r1 = (Inr (), sup_released t r1)" "sup_core (sup_released t r1)" "sched_inv (sup_released t r1)"
    "authority_inv (sup_released t r1)" "valid_task u \<Longrightarrow> task_slot (sup_released t r1) u = task_slot (sup_released t ?r) u"
    "ej_state k = Journal_Sealed \<Longrightarrow> audit (journal_log k) = Some Audit_Idle \<Longrightarrow> journal_follows (sup_released t r1) k" by blast+
qed

lemma torn_down_states:
  assumes inv: "journaled_inv j" and t: "valid_task t" and ex: "task_state (jr_runtime j) t = TaskState_Exited"
    and live: "table_state (jr_runtime j) t = Cap_Live"
  shows "task_state (jr_runtime (torn_down t j)) t = TaskState_Exited"
    "task_state (jr_runtime (torn_down t j)) (other t) = unblocked (task_state (jr_runtime j) (other t))"
    "table_state (jr_runtime (torn_down t j)) t = Cap_Closing"
proof -
  note d = journaled_invD [OF inv]
  have "jr_runtime (torn_down t j) = sup_released t (jr_runtime (concluded j))
      \<or> jr_runtime (torn_down t j) = sup_released t (jr_runtime j)"
    by (simp add: torn_down_def sealed_def)
  then have same: "task_slot (jr_runtime (torn_down t j)) u = task_slot (sup_released t (jr_runtime j)) u" if "valid_task u" for u
    using begin_released(5) [OF inv t ex live disjI1 [OF refl] that] by (elim disjE) simp_all
  have "table_ok (ts_capabilities (task_slot (jr_runtime j) t))"
    using core_slot_inv [OF _ t] d(6) by (simp add: runtime_inv_core slot_inv_def)
  from closing_table(3) [OF this live] sup_released_states [OF t ex d(1)] same [OF t] same [of "other t"]
  show "task_state (jr_runtime (torn_down t j)) t = TaskState_Exited"
    "task_state (jr_runtime (torn_down t j)) (other t) = unblocked (task_state (jr_runtime j) (other t))"
    "table_state (jr_runtime (torn_down t j)) t = Cap_Closing" by simp_all
qed

lemma journaled_begin_eq:
  assumes inv: "journaled_inv j" and t: "valid_task t" and ex: "task_state (jr_runtime j) t = TaskState_Exited"
    and live: "table_state (jr_runtime j) t = Cap_Live"
  shows "journaled_begin_teardown t j = (Inr (), torn_down t j)" "journaled_inv (torn_down t j)"
    "ej_state (jr_journal (torn_down t j)) = Journal_Sealed"
    "\<exists>xs. journal_log (jr_journal (torn_down t j)) = journal_log (jr_journal j) @ xs"
proof -
  note d = journaled_invD [OF inv]
  note br = begin_released [OF inv t ex live]
  have "journaled_begin_teardown t j = (Inr (), torn_down t j) \<and> journaled_inv (torn_down t j)
    \<and> ej_state (jr_journal (torn_down t j)) = Journal_Sealed
    \<and> (\<exists>xs. journal_log (jr_journal (torn_down t j)) = journal_log (jr_journal j) @ xs)"
  proof (cases "ej_state (jr_journal j) = Journal_Live")
    case True
    note c = concluded_eq [OF inv True]
    note s = sealed_ok [OF c(2,3,4)]
    let ?j = "sealed (concluded j)" and ?r1 = "jr_runtime (concluded j)"
    have sr: "jr_runtime ?j = ?r1" "ej_state (jr_journal ?j) = Journal_Sealed" by (simp_all add: sealed_def)
    have au: "audit (journal_log (jr_journal ?j)) = Some Audit_Idle" using s(3) c(6) by simp
    note f = journaled_begin_finish [OF br(2,3,4,1) [OF disjI1 [OF refl]] br(6) [OF disjI1 [OF refl] sr(2) au] s(2) sr(1)]
    have "torn_down t j = ?j\<lparr>jr_runtime := sup_released t ?r1\<rparr>" using True by (simp add: torn_down_def sr)
    then show ?thesis
      using f s(1,3) c(1,5) True t ex sr
      by (simp add: journaled_begin_teardown_def act_bind_def act_then_def)
  next
    case False
    have sealed: "ej_state (jr_journal j) = Journal_Sealed"
      using d(5) False live t by (cases "ej_state (jr_journal j)") (auto simp: journal_follows_def valid_task_def)
    have au: "audit (journal_log (jr_journal j)) = Some Audit_Idle" using d(5) sealed by (simp add: journal_follows_def)
    note f = journaled_begin_finish [OF br(2,3,4,1) [OF disjI2 [OF refl]] br(6) [OF disjI2 [OF refl] sealed au] d(4) refl]
    have "torn_down t j = j\<lparr>jr_runtime := sup_released t (jr_runtime j)\<rparr>" using False by (simp add: torn_down_def)
    then show ?thesis using f False t ex sealed
      by (simp add: journaled_begin_teardown_def act_bind_def act_then_def)
  qed
  then show "journaled_begin_teardown t j = (Inr (), torn_down t j)" "journaled_inv (torn_down t j)"
    "ej_state (jr_journal (torn_down t j)) = Journal_Sealed"
    "\<exists>xs. journal_log (jr_journal (torn_down t j)) = journal_log (jr_journal j) @ xs" by blast+
qed


section \<open>Reclamation\<close>

lemma closing_sealed:
  assumes inv: "journaled_inv j" and t: "valid_task t" and c: "table_state (jr_runtime j) t = Cap_Closing"
  shows "ej_state (jr_journal j) = Journal_Sealed"
  using journaled_invD(5) [OF inv] t c
  by (cases "ej_state (jr_journal j)") (auto simp: journal_follows_def valid_task_def)

lemma dispatch_keeps_inv:
  assumes inv: "journaled_inv j" and d: "dispatch_next (jr_runtime j) = (x, r')"
  shows "journaled_inv (j\<lparr>jr_runtime := r'\<rparr>)"
proof -
  note i = journaled_invD [OF inv]
  have core: "runtime_inv r'" using dispatch_next_inv [OF i(6)] d by simp
  from i(6) d have f: "rt_profile r' = rt_profile (jr_runtime j)" "rt_broker r' = rt_broker (jr_runtime j)"
    "ts_capabilities (rt_task0 r') = ts_capabilities (rt_task0 (jr_runtime j))"
    "ts_capabilities (rt_task1 r') = ts_capabilities (rt_task1 (jr_runtime j))"
    using keeps_result [OF broker_tables.dispatch_next_keeps d]
    by (cases rule: dispatch_next_cases; simp)+
  have "sup_core r'" using core f(1) i(1) core_profile by (simp add: runtime_inv_core sup_core_def)
  moreover have "journal_follows r' (jr_journal j)" using i(5) journal_follows_cong [of r' "jr_runtime j"] f by simp
  ultimately show ?thesis
    using core f i by (simp add: journaled_inv_def runtime_inv_core authority_inv_def)
qed

lemma reclaimed_keeps_inv:
  assumes inv: "journaled_inv j" and t: "valid_task t" and ex: "task_state (jr_runtime j) t = TaskState_Exited"
    and closing: "table_state (jr_runtime j) t = Cap_Closing"
  shows "journaled_inv (j\<lparr>jr_runtime := reclaimed t (jr_runtime j)\<rparr>)"
proof -
  let ?r = "jr_runtime j"
  note i = journaled_invD [OF inv]
  note sealed = closing_sealed [OF inv t closing]
  have "sup_core (reclaimed t ?r)" by (rule reclaimed_sup [OF i(1) t ex closing])
  moreover have "sched_inv (reclaimed t ?r)"
    using reclaimed_inv [OF i(6) t ex closing] by (simp add: runtime_inv_def)
  moreover have "authority_inv (reclaimed t ?r)"
    using i(3) t by (auto simp: authority_inv_def reclaimed_def valid_task_def Let_def)
  moreover have "journal_follows (reclaimed t ?r) (jr_journal j)"
    using i(5) sealed t
    by (auto simp: journal_follows_def reclaimed_def valid_task_def ApprovalBroker_DEAD_def Let_def)
  ultimately show ?thesis using i(4) by (simp add: journaled_inv_def)
qed


section \<open>All calls\<close>

lemma journaled_complete_step:
  assumes inv: "journaled_inv j" and c: "journaled_complete_teardown t j = (x, j')"
  shows "journaled_inv j'" "jr_journal j' = jr_journal j" "is_err x \<Longrightarrow> j' = j"
    "x = Inr n \<Longrightarrow> complete_teardown t (jr_runtime j) = (Inr n, jr_runtime j')"
    "complete_teardown t (jr_runtime j) = (Inr n, r') \<Longrightarrow> x = Inr n"
proof -
  obtain y s' where y: "complete_teardown t (jr_runtime j) = (y, s')" by fastforce
  have "journaled_inv j' \<and> jr_journal j' = jr_journal j \<and> (is_err x \<longrightarrow> j' = j)
      \<and> (\<forall>n. x = Inr n \<longrightarrow> complete_teardown t (jr_runtime j) = (Inr n, jr_runtime j'))
      \<and> (\<forall>n r'. complete_teardown t (jr_runtime j) = (Inr n, r') \<longrightarrow> x = Inr n)"
  proof (cases y)
    case (Inl e)
    then have "x = Inl e" "j' = j" using c y by (simp_all add: journaled_complete_teardown_def on_runtime_eq)
    with inv y Inl show ?thesis by simp
  next
    case (Inr n)
    have ci: "complete_teardown_inner t (jr_runtime j) = (Inr n, s')"
      using y Inr by (simp add: complete_teardown_def act_restoring_eq_Inr)
    note pre = complete_teardown_pre [OF ci]
    have "dispatch_next (reclaimed t (jr_runtime j)) = (Inr n, s')"
      using complete_teardown_inner_eq [OF journaled_invD(6) [OF inv] pre] ci by simp
    from dispatch_keeps_inv [OF reclaimed_keeps_inv [OF inv pre]] this
    have inv': "journaled_inv (j\<lparr>jr_runtime := s'\<rparr>)" by simp
    then have "x = Inr n" "j' = j\<lparr>jr_runtime := s'\<rparr>"
      using c y Inr journaled_inv_validate [OF inv'] by (simp_all add: journaled_complete_teardown_def on_runtime_eq)
    with inv' y Inr show ?thesis by simp
  qed
  then show "journaled_inv j'" "jr_journal j' = jr_journal j" "is_err x \<Longrightarrow> j' = j"
    "x = Inr n \<Longrightarrow> complete_teardown t (jr_runtime j) = (Inr n, jr_runtime j')"
    "complete_teardown t (jr_runtime j) = (Inr n, r') \<Longrightarrow> x = Inr n" by blast+
qed

lemma journaled_begin_refused:
  assumes inv: "journaled_inv j" and b: "journaled_begin_teardown t j = (x, j')"
    and no: "\<not> (valid_task t \<and> task_state (jr_runtime j) t = TaskState_Exited \<and> table_state (jr_runtime j) t = Cap_Live)"
  shows "j' = j" "is_err x"
proof -
  let ?r = "jr_runtime j"
  have "j' = j \<and> is_err x"
  proof (cases "valid_task t \<and> task_state ?r t = TaskState_Exited")
    case False
    then show ?thesis using b
      by (auto simp: journaled_begin_teardown_def act_bind_def slot_def valid_task_def task_slot_def split: if_splits)
  next
    case True
    then have t: "valid_task t" and ex: "task_state ?r t = TaskState_Exited" by simp_all
    have "slot_inv t (task_slot ?r t)"
      using core_slot_inv [OF _ t] journaled_invD(6) [OF inv] by (simp add: runtime_inv_core)
    with ex no t have "table_state ?r t = Cap_Closing" by (simp add: slot_inv_def)
    note sealed = closing_sealed [OF inv t this]
    have "fst (begin_teardown t ?r) \<noteq> Inr ()"
      using begin_teardown_pre(3) no t ex by (auto simp: begin_teardown_def act_restoring_def split: prod.splits sum.splits)
    then obtain e where "fst (begin_teardown t ?r) = Inl e" by (cases "fst (begin_teardown t ?r)") auto
    then have "journaled_begin_teardown t j = (Inl e, j)"
      using t ex sealed by (simp add: journaled_begin_teardown_def act_bind_def act_then_def on_runtime_eq)
    then show ?thesis using b by auto
  qed
  then show "j' = j" "is_err x" by blast+
qed

lemma journaled_begin_step:
  assumes inv: "journaled_inv j" and b: "journaled_begin_teardown t j = (x, j')"
  shows "journaled_inv j'" "\<exists>xs. journal_log (jr_journal j') = journal_log (jr_journal j) @ xs" "is_err x \<Longrightarrow> j' = j"
    "ej_state (jr_journal j') = Journal_Sealed \<or> j' = j"
proof -
  have "journaled_inv j' \<and> (\<exists>xs. journal_log (jr_journal j') = journal_log (jr_journal j) @ xs) \<and> (is_err x \<longrightarrow> j' = j)
      \<and> (ej_state (jr_journal j') = Journal_Sealed \<or> j' = j)"
    using journaled_begin_eq [OF inv, of t] journaled_begin_refused [OF inv b] inv b
    by (cases "valid_task t \<and> task_state (jr_runtime j) t = TaskState_Exited \<and> table_state (jr_runtime j) t = Cap_Live") auto
  then show "journaled_inv j'" "\<exists>xs. journal_log (jr_journal j') = journal_log (jr_journal j) @ xs" "is_err x \<Longrightarrow> j' = j"
    "ej_state (jr_journal j') = Journal_Sealed \<or> j' = j" by blast+
qed

lemma journaled_trap_step:
  assumes inv: "journaled_inv j" and h: "journaled_handle_trap t j = (x, j')"
  shows "journaled_inv j'" "\<exists>xs. journal_log (jr_journal j') = journal_log (jr_journal j) @ xs" "is_err x \<Longrightarrow> j' = j"
proof -
  have "journaled_inv j' \<and> (\<exists>xs. journal_log (jr_journal j') = journal_log (jr_journal j) @ xs) \<and> (is_err x \<longrightarrow> j' = j)"
  proof (cases "trap_pre t (jr_runtime j)")
    case False
    then have "running_task (jr_runtime j) \<noteq> Inr t"
      using running_task_iff [OF journaled_invD(6) [OF inv]] journaled_invD(6) [OF inv] by (simp add: trap_pre_def)
    then have "j' = j" using h by (auto simp: journaled_handle_trap_def act_bind_def split: sum.splits if_splits)
    with inv show ?thesis by simp
  next
    case True
    from journaled_trap_outcome [OF inv True] show ?thesis
    proof (elim disjE)
      assume "outcome_failed t j (journaled_handle_trap t j)"
      with inv h show ?thesis by (auto simp: outcome_failed_def)
    next
      assume "outcome_quiet t j (journaled_handle_trap t j)"
      with h show ?thesis by (auto simp: outcome_quiet_def)
    next
      assume "outcome_records t j (journaled_handle_trap t j)"
      then obtain o' r' rec n where eq: "(x, j') = (Inr o', appended rec n r' j)" and inv': "journaled_inv (appended rec n r' j)"
        and a: "ej_state (jr_journal j) = Journal_Live" "header_ok rec"
          "unat (ej_committed_record_count (jr_journal j)) + unat n < 16" "unat n \<le> 2"
        using h unfolding outcome_records_def by auto
      from appended_log(1) [OF inv a, of r'] eq inv' show ?thesis by auto
    qed
  qed
  then show "journaled_inv j'" "\<exists>xs. journal_log (jr_journal j') = journal_log (jr_journal j) @ xs" "is_err x \<Longrightarrow> j' = j"
    by blast+
qed

lemma journaled_capture_step:
  assumes inv: "journaled_inv j" and root: "root \<noteq> 0" and c: "journaled_capture_trap t frame root g j = (x, j')"
  shows "journaled_inv j'" "jr_journal j' = jr_journal j" "is_err x \<Longrightarrow> j' = j"
proof -
  let ?r = "jr_runtime j"
  note i = journaled_invD [OF inv]
  have c': "capture_trap t frame root g ?r = (x, jr_runtime j')" "jr_journal j' = jr_journal j"
    using c by (auto simp: journaled_capture_trap_def on_runtime_eq)
  show "jr_journal j' = jr_journal j" by (rule c'(2))
  have core: "runtime_inv (jr_runtime j')" using capture_trap_inv [OF i(6) root, of t frame g] c'(1) by simp
  have f: "rt_profile (jr_runtime j') = rt_profile ?r" "rt_broker (jr_runtime j') = rt_broker ?r"
    using keeps_result [OF profile_tables.capture_keeps c'(1)] keeps_result [OF broker_tables.capture_keeps c'(1)] by simp_all
  have eq: "jr_runtime j' = snd (capture_trap t frame root g ?r)" using c'(1) by simp
  have caps: "ts_capabilities (rt_task0 (jr_runtime j')) = ts_capabilities (rt_task0 ?r)"
    "ts_capabilities (rt_task1 (jr_runtime j')) = ts_capabilities (rt_task1 ?r)"
    unfolding eq by (simp_all add: capture_trap_eq upd_def)
  have "sup_core (jr_runtime j')" using core f(1) i(1) core_profile by (simp add: runtime_inv_core sup_core_def)
  moreover have "journal_follows (jr_runtime j') (jr_journal j)"
    using i(5) journal_follows_cong [of "jr_runtime j'" ?r] f caps by simp
  ultimately show "journaled_inv j'"
    using core f caps i c'(2) by (simp add: journaled_inv_def runtime_inv_core authority_inv_def)
  show "is_err x \<Longrightarrow> j' = j" using c by (auto simp: journaled_capture_trap_def on_runtime_eq capture_trap_eq split: if_splits)
qed

lemma finish_reclamation_step:
  assumes inv: "journaled_inv j" and f: "finish_reclamation j = (x, j')"
  shows "journaled_inv j'" "is_err x \<Longrightarrow> j' = j"
proof -
  let ?j = "j\<lparr>jr_journal := journal_clear_dead (jr_journal j)\<rparr>"
  note i = journaled_invD [OF inv]
  have s: "slot_inv 1 (rt_task0 (jr_runtime j))" "slot_inv 2 (rt_task1 (jr_runtime j))"
    using sup_coreD(1,2) [OF i(1)] by simp_all
  have "journaled_inv ?j" if "ts_state (rt_task0 (jr_runtime j)) = TaskState_Dead" "ts_state (rt_task1 (jr_runtime j)) = TaskState_Dead"
    using that i journal_ok_dead slot_inv_table_state(2) [OF s(1)] slot_inv_table_state(2) [OF s(2)]
    by (simp add: journaled_inv_def journal_clear_dead_def journal_follows_def) (simp add: journal_DEAD_def)
  then have "journaled_inv j' \<and> (is_err x \<longrightarrow> j' = j)"
    using f inv by (auto simp: finish_reclamation_def Let_def rt_tasks_def split: if_splits)
  then show "journaled_inv j'" "is_err x \<Longrightarrow> j' = j" by blast+
qed


section \<open>Construction\<close>

definition journaled_entries :: "CapabilityEntry list" where
  "journaled_entries = supervisor_entries @ [journal_entry]"

definition published_journaled :: "TaskContextV1 \<Rightarrow> TaskContextV1 \<Rightarrow> JournaledRuntime" where
  "published_journaled s w =
     \<lparr>jr_runtime = published_sup journaled_entries s w, jr_journal = journal_building\<lparr>ej_state := Journal_Live\<rparr>\<rparr>"

lemma journaled_table_ok: "table_ok (table_of Cap_Live SENDER_TASK_ID SUPERVISOR_GENERATION journaled_entries)"
  by (rule table_of_ok)
    (use valid_supervisor_rights in \<open>auto simp: journaled_entries_def supervisor_entries_def journal_entry_def
      entry_for_def fixed_ref_def\<close>)

lemma published_journaled_inv:
  assumes "cx_task_id s = SENDER_TASK_ID" "cx_task_id w = RECEIVER_TASK_ID"
    "cx_generation s = SUPERVISOR_GENERATION" "cx_generation w = WORKLOAD_GENERATION" "cx_root s \<noteq> 0" "cx_root w \<noteq> 0"
  shows "journaled_inv (published_journaled s w)"
proof -
  let ?r = "published_sup journaled_entries s w"
  have "runtime_inv ?r" by (rule published_sup_inv [OF assms journaled_table_ok])
  then have "sup_core ?r" "sched_inv ?r" using core_profile by (auto simp: runtime_inv_core published_sup_def)
  moreover have "table_allowed Profile_Supervised 1 (table_of Cap_Live 1 4 journaled_entries)"
    by (rule table_allowed_of) (simp add: slot_allowed_def granted_entries_def journaled_entries_def)
  then have "authority_inv ?r"
    by (simp add: authority_inv_def published_sup_def)
      (rule table_allowed_empty, simp add: table_building_def CapabilitySlot_EMPTY_def)
  moreover have "journal_follows ?r (journal_building\<lparr>ej_state := Journal_Live\<rparr>)"
    by (simp add: journal_follows_def published_sup_def expected_reserved_def fresh_broker_def request_logged_def broker_phase_def
        table_building_def) (simp add: journal_building_def)
  ultimately show ?thesis by (simp add: journaled_inv_def published_journaled_def journal_ok_published)
qed

lemma from_parts_journal: "the (from_parts (Suc (Suc (Suc 0))) 1) = SUPERVISOR_JOURNAL_HANDLE"
  by (simp add: from_parts_def const_simps)

lemma journaled_publish_None:
  assumes "cx_generation s = SUPERVISOR_GENERATION" "cx_generation w = WORKLOAD_GENERATION"
  shows "journaled_publish_supervisor None (journaled_unpublished s w) =
    (case journaled_validate (published_journaled s w) of
       Inl e \<Rightarrow> (Inl Err_PublicationFailure, journaled_rollback_publication
                   (map (\<lambda>i. the (from_parts i 1)) [0, Suc 0, Suc (Suc 0)]) SUPERVISOR_JOURNAL_HANDLE (published_journaled s w))
     | Inr _ \<Rightarrow> (Inr (), published_journaled s w))"
proof -
  note i = install_table_of [where task = 1 and g = 4, OF _ valid_supervisor_rights(1), simplified]
    install_table_of [where task = 1 and g = 4, OF _ valid_supervisor_rights(2), simplified]
    install_table_of [where task = 1 and g = 4, OF _ valid_supervisor_rights(3), simplified]
    install_table_of [where task = 1 and g = 4, OF _ valid_supervisor_rights(4), simplified]
  show ?thesis
    using assms from_parts_journal
    by (simp add: journaled_publish_supervisor_def journaled_publish_live_def journaled_unpublished_def
        unpublished_supervised_def on_runtime_def on_journal_def journal_publish_building
        task0_capabilities_def table_building_of i publish_table_of act_then_def act_bind_def queue_push_action_def
        queue_new_of queue_push_of published_journaled_def published_sup_def journaled_entries_def journal_entry_def
        supervisor_entries_def fixed_ref_def fresh_broker_def fresh_effect_def broker_building_def Let_def
        split: sum.splits)
qed

lemma journaled_validate_runtime: "journaled_validate j = Inr () \<Longrightarrow> runtime_validate (jr_runtime j) = Inr ()"
  by (simp add: journaled_validate_def Let_def and_then_eq_Inr)

lemma journaled_new_inv:
  assumes "journaled_new_supervised s w = Inr j"
  shows "j = published_journaled s w" "journaled_inv j"
proof -
  have g: "cx_task_id s = 1" "cx_task_id w = 2" "cx_generation s = 4" "cx_generation w = 5"
    using assms by (auto simp: journaled_new_supervised_def split: if_splits)
  then have val: "journaled_validate (published_journaled s w) = Inr ()" and j: "j = published_journaled s w"
    using assms journaled_publish_None [of s w] by (auto simp: journaled_new_supervised_def split: sum.splits)
  from journaled_validate_runtime [OF val] have v: "runtime_validate (published_sup journaled_entries s w) = Inr ()"
    by (simp add: published_journaled_def)
  have "cx_root s \<noteq> 0" "cx_root w \<noteq> 0"
    using validate_roots(1) [OF v, of 1] validate_roots(1) [OF v, of 2] by (simp_all add: published_sup_def)
  then show "j = published_journaled s w" "journaled_inv j" using published_journaled_inv [of s w] g j by simp_all
qed

lemma journaled_new_succeeds:
  assumes "cx_task_id s = SENDER_TASK_ID" "cx_task_id w = RECEIVER_TASK_ID"
    "cx_generation s = SUPERVISOR_GENERATION" "cx_generation w = WORKLOAD_GENERATION" "cx_root s \<noteq> 0" "cx_root w \<noteq> 0"
  shows "journaled_new_supervised s w = Inr (published_journaled s w)"
  using assms journaled_inv_validate [OF published_journaled_inv [OF assms]] journaled_publish_None [of s w]
  by (simp add: journaled_new_supervised_def)

text \<open>A failed publication is rolled back completely.\<close>

definition journaled_rolled_back :: "JournaledRuntime \<Rightarrow> bool" where
  "journaled_rolled_back j \<longleftrightarrow> rolled_back (jr_runtime j) \<and> jr_journal j = journal_DEAD"

lemma rollback_frame:
  assumes "sup_frame (jr_runtime j)"
  shows "journaled_rolled_back (journaled_rollback_publication hs h j)"
proof -
  let ?r = "jr_runtime j"
  have "sup_frame (if h \<noteq> 0 then ?r\<lparr>rt_task0 := (rt_task0 ?r)\<lparr>ts_capabilities :=
      rollback_install h (ts_capabilities (rt_task0 ?r))\<rparr>\<rparr> else ?r)"
    using assms by (simp add: sup_frame_def)
  from rolled_back_sup [OF this] show ?thesis
    by (simp add: journaled_rollback_publication_def journaled_rolled_back_def journal_clear_dead_def Let_def)
qed

lemma on_runtime_frame:
  assumes "on_runtime (task0_capabilities f) j = (x, j')" "sup_frame (jr_runtime j)"
  shows "sup_frame (jr_runtime j')"
  using assms task0_frame [of f "jr_runtime j"] by (auto simp: on_runtime_def split: prod.splits)

lemma journaled_installs_frame:
  "journaled_installs f steps installed j = (x, j') \<Longrightarrow> sup_frame (jr_runtime j) \<Longrightarrow>
   (\<forall>e. x = Inl e \<longrightarrow> journaled_rolled_back j') \<and> (\<forall>hs. x = Inr hs \<longrightarrow> sup_frame (jr_runtime j'))"
proof (induction f steps installed j rule: journaled_installs.induct)
  case (2 f step ty obj rights rest installed j)
  show ?case
  proof (cases "on_runtime (task0_capabilities (install_object_building ty
      \<lparr>or_id = obj, or_generation = FIXED_OBJECT_GENERATION\<rparr> rights)) j")
    case (Pair y j1)
    then have "sup_frame (jr_runtime j1)" using on_runtime_frame 2(3) by blast
    with 2 Pair rollback_frame show ?thesis by (cases y) (auto split: if_splits)
  qed
qed auto

lemma journaled_publish_live_failed:
  assumes p: "journaled_publish_live f hs h j = (Inl e, j')" and fr: "sup_frame (jr_runtime j)"
  shows "journaled_rolled_back j'"
proof -
  obtain x j1 where 1: "on_journal journal_publish j = (x, j1)" by fastforce
  obtain y j2 where 2: "on_runtime (task0_capabilities table_publish) j1 = (y, j2)" by fastforce
  define j3 where "j3 = j2\<lparr>jr_runtime := (jr_runtime j2)\<lparr>rt_broker := (rt_broker (jr_runtime j2))\<lparr>ab_state := Broker_Empty\<rparr>\<rparr>\<rparr>"
  obtain z j4 where 4: "act_then (on_runtime (queue_push_action SENDER_TASK_ID)) (act_read journaled_validate) j3 = (z, j4)"
    by fastforce
  have f1: "sup_frame (jr_runtime j1)" using 1 fr by (auto simp: on_journal_def split: prod.splits)
  have f2: "sup_frame (jr_runtime j2)" by (rule on_runtime_frame [OF 2 f1])
  then have f3: "sup_frame (jr_runtime j3)" by (simp add: j3_def sup_frame_def)
  have "jr_runtime j4 = snd (queue_push_action SENDER_TASK_ID (jr_runtime j3))"
    using 4 by (auto simp: act_then_def act_bind_def on_runtime_eq split: sum.splits)
  then have f4: "sup_frame (jr_runtime j4)"
    using f3 queue_push_action_frame [of SENDER_TASK_ID "jr_runtime j3"]
    by (cases "queue_push_action SENDER_TASK_ID (jr_runtime j3)") simp
  show ?thesis
    using p 1 2 4 fr f1 f2 f3 f4 rollback_frame
    unfolding journaled_publish_live_def
    by (cases x; cases y; cases z) (auto simp: Let_def j3_def [symmetric] split: if_splits)
qed

lemma journaled_publish_failed:
  assumes p: "journaled_publish_supervisor f j = (Inl e, j')" and fr: "sup_frame (jr_runtime j)"
  shows "journaled_rolled_back j'"
proof -
  define steps where "steps = [(0::nat, OBJECT_TYPE_TASK_CONTROL, TASK_CONTROL_OBJECT_ID, CAPABILITY_RIGHT_START),
      (1, OBJECT_TYPE_APPROVAL_BROKER, APPROVAL_BROKER_OBJECT_ID, CAPABILITY_RIGHT_DECIDE_APPROVAL),
      (2, OBJECT_TYPE_TEST_EFFECT, TEST_EFFECT_OBJECT_ID, CAPABILITY_RIGHT_COMMIT_EFFECT)]"
  obtain x j1 where 1: "journaled_installs f steps [] j = (x, j1)" by fastforce
  note f1 = journaled_installs_frame [OF 1 fr]
  obtain y j2 where 2: "on_runtime (task0_capabilities (install_object_building OBJECT_TYPE_EFFECT_JOURNAL
      \<lparr>or_id = EFFECT_JOURNAL_OBJECT_ID, or_generation = EFFECT_JOURNAL_OBJECT_GENERATION\<rparr>
      CAPABILITY_RIGHT_READ_EFFECT_JOURNAL)) j1 = (y, j2)" by fastforce
  have f2: "sup_frame (jr_runtime j2)" if "sup_frame (jr_runtime j1)" by (rule on_runtime_frame [OF 2 that])
  have f3: "sup_frame (jr_runtime (j2\<lparr>jr_runtime := (jr_runtime j2)\<lparr>rt_task0 := (rt_task0 (jr_runtime j2))
      \<lparr>ts_capabilities := c\<rparr>\<rparr>\<rparr>))" if "sup_frame (jr_runtime j1)" for c
    using f2 [OF that] by (simp add: sup_frame_def)
  show ?thesis
    using p 1 2 f1 f2 f3 rollback_frame journaled_publish_live_failed
    unfolding journaled_publish_supervisor_def steps_def
    by (cases x; cases y) (auto simp: Let_def split: if_splits)
qed

end
