(* ===== verification/Runtime_Properties.thy ===== *)
theory Runtime_Properties
  imports Runtime_Authority
begin

text \<open>
  What the runtime as a whole promises: its state is always valid and user traps never fail, a failed call
  changes nothing, an exited task is reclaimed, tasks are isolated, an effect needs an approval, authority
  stays confined, a failed publication leaves nothing behind and a message is delivered once.
  Each property rests on the invariants and frame lemmas of the theories before.
\<close>


section \<open>Example states\<close>

definition example_context :: "u64 \<Rightarrow> u64 \<Rightarrow> TaskContextV1" where
  "example_context task generation = context_initial task generation (4096 * task) 0x400000 0x800000 27 35"

definition example_coop :: Runtime where
  "example_coop = published_coop (example_context SENDER_TASK_ID 2) (example_context RECEIVER_TASK_ID 3)"

definition example_supervised :: Runtime where
  "example_supervised = published_sup supervisor_entries
     (example_context SENDER_TASK_ID SUPERVISOR_GENERATION) (example_context RECEIVER_TASK_ID WORKLOAD_GENERATION)"

lemma example_start: "runtime_start example_coop" "runtime_start example_supervised"
proof -
  have "runtime_new (example_context SENDER_TASK_ID 2) (example_context RECEIVER_TASK_ID 3) = Inr example_coop"
    unfolding example_coop_def by (rule runtime_new_succeeds) (simp_all add: example_context_def context_initial_def)
  then show "runtime_start example_coop" unfolding runtime_start_def by blast
  have "new_supervised (example_context SENDER_TASK_ID SUPERVISOR_GENERATION)
      (example_context RECEIVER_TASK_ID WORKLOAD_GENERATION) = Inr example_supervised"
    unfolding example_supervised_def
    by (rule new_supervised_succeeds) (simp_all add: example_context_def context_initial_def)
  then show "runtime_start example_supervised" unfolding runtime_start_def by blast
qed

lemma start_reachable: "runtime_start r \<Longrightarrow> runtime_reachable r"
  unfolding runtime_reachable_def by blast

lemmas example_inv = runtime_start_inv [OF example_start(1)] runtime_start_inv [OF example_start(2)]

definition coop_running :: Runtime where
  "coop_running = dispatched RECEIVER_TASK_ID [SENDER_TASK_ID] example_coop"

definition supervisor_running :: Runtime where
  "supervisor_running = dispatched SENDER_TASK_ID [] example_supervised"

lemma running_reach: "kernel_reach coop_running" "kernel_reach supervisor_running"
proof -
  have "dispatch_next example_coop = (Inr (Some 2), coop_running)"
    unfolding coop_running_def
    by (subst dispatch_next_eq) (use example_inv(1) in \<open>auto simp: runtime_inv_core example_coop_def
        published_coop_def ready_set_def\<close>)
  then show "kernel_reach coop_running" by (rule kernel_reach.reach_start [OF example_start(1)])
  have "dispatch_next example_supervised = (Inr (Some 1), supervisor_running)"
    unfolding supervisor_running_def
    by (subst dispatch_next_eq) (use example_inv(2) in \<open>auto simp: runtime_inv_core example_supervised_def
        published_sup_def ready_set_def\<close>)
  then show "kernel_reach supervisor_running" by (rule kernel_reach.reach_start [OF example_start(2)])
qed


section \<open>Validity and totality\<close>



text \<open>C18: user code cannot stop the kernel through a trap.  Whenever the kernel waits for a trap there is
  a running task, and for every trap frame of that task, whatever its registers hold, both the capture
  and the handler succeed.\<close>

theorem user_traps_never_fail:
  assumes "kernel_reach r"
  shows "\<exists>t g. running_task r = Inr t \<and> runtime_generation r t = Inr g
    \<and> (\<forall>frame root. root \<noteq> 0 \<longrightarrow>
         (\<exists>r1 out r2. capture_trap t frame root g r = (Inr (), r1) \<and> handle_trap t r1 = (Inr out, r2)))"
proof -
  obtain t where s: "scheduled t r" using kernel_reach_scheduled [OF assms] by blast
  note d = scheduledD [OF s]
  let ?g = "ts_generation (task_slot r t)"
  have "\<exists>r1 out r2. capture_trap t frame root ?g r = (Inr (), r1) \<and> handle_trap t r1 = (Inr out, r2)"
    if "root \<noteq> 0" for frame root
  proof -
    have c: "capture_trap t frame root ?g r = (Inr (), upd t (\<lambda>s. s\<lparr>ts_context := from_trap frame t ?g root\<rparr>) r)"
      using d(2,4) by (simp add: capture_trap_eq)
    from capture_scheduled [OF s that c] show ?thesis using c by (cases rule: trap_total) blast+
  qed
  then show ?thesis using d(2,6) by (auto simp: runtime_generation_def)
qed

theorem user_traps_never_fail_witness:
  "kernel_reach coop_running \<and> (\<exists>t g. running_task coop_running = Inr t \<and> runtime_generation coop_running t = Inr g
    \<and> (\<forall>frame root. root \<noteq> 0 \<longrightarrow>
         (\<exists>r1 out r2. capture_trap t frame root g coop_running = (Inr (), r1) \<and> handle_trap t r1 = (Inr out, r2))))"
  using user_traps_never_fail [OF running_reach(1)] running_reach(1) by blast


section \<open>Exit and teardown\<close>

definition trap_frame :: "TrapOperation \<Rightarrow> u64 \<Rightarrow> u64 \<Rightarrow> u64 \<Rightarrow> TrapFrameV1" where
  "trap_frame operation rdi rsi rdx =
     \<lparr>tf_rax = operation_code operation, tf_rbx = 0, tf_rcx = 0, tf_rdx = rdx, tf_rbp = 0, tf_rsi = rsi,
      tf_rdi = rdi, tf_r8 = 0, tf_r9 = 0, tf_r10 = 0, tf_r11 = 0, tf_r12 = 0, tf_r13 = 0, tf_r14 = 0,
      tf_r15 = 0, tf_rip = 0x400000, tf_cs = 27, tf_rflags = 2, tf_rsp = 0x800000, tf_ss = 35\<rparr>"

text \<open>The kernel captures a frame of the running task and handles the trap.\<close>

lemma captured_trap:
  assumes s: "scheduled t r" and "root \<noteq> 0" "g = ts_generation (task_slot r t)"
  shows "capture_trap t frame root g r = (Inr (), upd t (\<lambda>s. s\<lparr>ts_context := from_trap frame t g root\<rparr>) r)"
    "scheduled t (upd t (\<lambda>s. s\<lparr>ts_context := from_trap frame t g root\<rparr>) r)"
proof -
  note d = scheduledD [OF s]
  show c: "capture_trap t frame root g r = (Inr (), upd t (\<lambda>s. s\<lparr>ts_context := from_trap frame t g root\<rparr>) r)"
    using d(2,4) assms(3) by (simp add: capture_trap_eq)
  show "scheduled t (upd t (\<lambda>s. s\<lparr>ts_context := from_trap frame t g root\<rparr>) r)"
    by (rule capture_scheduled [OF s assms(2) c])
qed

lemma scheduled_operation:
  assumes "scheduled t r"
  shows "handle_trap_inner t r = trap_operation t (ts_context (task_slot r t)) r"
  using scheduledD [OF assms] by (simp add: handle_trap_inner_eq)

lemma exit_trap:
  assumes s: "scheduled t r" and "root \<noteq> 0" "g = ts_generation (task_slot r t)"
  shows "\<exists>r1 r2. capture_trap t (trap_frame Op_Exit 0 0 0) root g r = (Inr (), r1)
    \<and> handle_trap t r1 = (Inr (Outcome_Exit t), r2)"
proof -
  let ?frame = "trap_frame Op_Exit 0 0 0"
  let ?r1 = "upd t (\<lambda>s. s\<lparr>ts_context := from_trap ?frame t g root\<rparr>) r"
  note c = captured_trap [OF assms, of ?frame]
  note d = scheduledD [OF c(2)]
  have "ts_context (task_slot ?r1 t) = from_trap ?frame t g root" using d(2) by (simp add: task_slot_upd)
  then have op: "handle_trap_inner t ?r1 = runtime_exit t 0 0 0 ?r1"
    using scheduled_operation [OF c(2)] by (simp add: trap_operation_def from_trap_def trap_frame_def TrapOperation_parse_def)
  moreover have "fst (runtime_exit t 0 0 0 ?r1) = Inr (Outcome_Exit t)"
  proof -
    have "fst (runtime_exit t 0 0 0 ?r1) = Inr (Outcome_Exit t) \<or> (\<exists>e. fst (runtime_exit t 0 0 0 ?r1) = Inl e)"
      using d(2) by (simp add: runtime_exit_def act_then_def act_bind_def split: sum.splits)
    moreover have "trap_post t ?r1 (runtime_exit t 0 0 0 ?r1)" by (rule exit_post [OF d(1)])
    ultimately show ?thesis using d(5) by (cases "runtime_exit t 0 0 0 ?r1") (auto simp: trap_post_def)
  qed
  ultimately have "handle_trap t ?r1 = (Inr (Outcome_Exit t), snd (runtime_exit t 0 0 0 ?r1))"
    by (cases "runtime_exit t 0 0 0 ?r1") (simp add: handle_trap_success)
  with c(1) show ?thesis by blast
qed

text \<open>C22: an exited task is reclaimed.  After an exit trap of the running task both phases of teardown
  succeed, unless the other task was never launched: the exited slot is dead, the state is valid, and
  either the other task, woken if it was blocked, is now running or every task is dead.\<close>

theorem exited_task_is_reclaimed:
  assumes "kernel_reach r" "running_task r = Inr t" "root \<noteq> 0"
    and "capture_trap t frame root g r = (Inr (), r1)" "handle_trap t r1 = (Inr (Outcome_Exit t), r2)"
    and "runtime_state r (other t) \<noteq> Inr TaskState_Staged"
  shows "\<exists>r3 n r4. begin_teardown t r2 = (Inr (), r3) \<and> complete_teardown t r3 = (Inr n, r4)
    \<and> runtime_state r4 t = Inr TaskState_Dead \<and> runtime_validate r4 = Inr ()
    \<and> (case n of None \<Rightarrow> runtime_state r4 (other t) = Inr TaskState_Dead
       | Some u \<Rightarrow> u = other t \<and> runtime_state r4 u = Inr TaskState_Running)"
proof -
  have s: "scheduled t r" using kernel_reach_scheduled [OF assms(1)] assms(2) scheduledD(6) by fastforce
  have s1: "scheduled t r1" by (rule capture_scheduled [OF s assms(3,4)])
  have t: "valid_task t" by (rule scheduledD(2) [OF s])
  have same: "task_state r1 (other t) = task_state r (other t)"
    using assms(4) t by (auto simp: capture_trap_eq valid_task_def split: if_splits)
  from s1 assms(5) obtain r3 where b: "begin_teardown t r2 = (Inr (), r3)" "runtime_inv r3"
      "task_state r3 t = TaskState_Exited" "ct_state (ts_capabilities (task_slot r3 t)) = Cap_Closing"
      "task_state r3 (other t) = unblocked (task_state r1 (other t))"
      "task_state r3 (other t) = TaskState_Ready \<or> task_state r3 (other t) = TaskState_Dead
       \<or> task_state r3 (other t) = TaskState_Staged"
    by (rule exit_completes)
  have "task_state r (other t) \<noteq> TaskState_Staged" using assms(6) t by (simp add: runtime_state_def)
  then have "task_state r3 (other t) = TaskState_Ready \<or> task_state r3 (other t) = TaskState_Dead"
    using b(5,6) same by auto
  then show ?thesis
  proof
    assume "task_state r3 (other t) = TaskState_Ready"
    then obtain r4 where "complete_teardown t r3 = (Inr (Some (other t)), r4)" "scheduled (other t) r4"
        "task_state r4 t = TaskState_Dead"
      using complete_teardown_outcome(1) [OF b(2) t b(3,4)] by blast
    then show ?thesis
      using b(1) t scheduledD(3,4) [of "other t" r4] runtime_inv_validate [of r4]
      by (intro exI [of _ r3] exI [of _ "Some (other t)"] exI [of _ r4]) (simp add: runtime_state_def)
  next
    assume "task_state r3 (other t) = TaskState_Dead"
    then obtain r4 where "complete_teardown t r3 = (Inr None, r4)" "runtime_inv r4"
        "task_state r4 1 = TaskState_Dead" "task_state r4 2 = TaskState_Dead"
      using complete_teardown_outcome(2) [OF b(2) t b(3,4)] by blast
    then show ?thesis
      using b(1) t runtime_inv_validate [of r4]
      by (intro exI [of _ r3] exI [of _ None] exI [of _ r4]) (auto simp: runtime_state_def valid_task_def)
  qed
qed

lemma coop_running_facts:
  "running_task coop_running = Inr 2" "scheduled 2 coop_running" "ts_generation (task_slot coop_running 2) = 3"
  "runtime_state coop_running (other 2) = Inr TaskState_Ready"
proof -
  obtain t where s: "scheduled t coop_running" using kernel_reach_scheduled [OF running_reach(1)] by blast
  have "t = 2"
    using scheduledD(2,4) [OF s] by (auto simp: valid_task_def coop_running_def dispatched_def example_coop_def published_coop_def)
  with s show "scheduled 2 coop_running" "running_task coop_running = Inr 2" using scheduledD(6) [OF s] by simp_all
  show "ts_generation (task_slot coop_running 2) = 3" "runtime_state coop_running (other 2) = Inr TaskState_Ready"
    by (simp_all add: coop_running_def dispatched_def example_coop_def published_coop_def example_context_def
        context_initial_def runtime_state_def)
qed

theorem exited_task_is_reclaimed_witness:
  "\<exists>r1 r2 r3 n r4. capture_trap 2 (trap_frame Op_Exit 0 0 0) 8192 3 coop_running = (Inr (), r1)
    \<and> handle_trap 2 r1 = (Inr (Outcome_Exit 2), r2)
    \<and> begin_teardown 2 r2 = (Inr (), r3) \<and> complete_teardown 2 r3 = (Inr n, r4)
    \<and> runtime_state r4 2 = Inr TaskState_Dead"
proof -
  obtain r1 r2 where h: "capture_trap 2 (trap_frame Op_Exit 0 0 0) 8192 3 coop_running = (Inr (), r1)"
      "handle_trap 2 r1 = (Inr (Outcome_Exit 2), r2)"
    using exit_trap [OF coop_running_facts(2), of 8192 3] coop_running_facts(3) by auto
  show ?thesis
    using exited_task_is_reclaimed [OF running_reach(1) coop_running_facts(1) _ h] coop_running_facts(4) h
    by fastforce
qed

text \<open>C27: a supervisor that exits before it launches the workload is never reclaimed.  The first phase of
  its teardown succeeds, but the second always fails with \<open>NoRunnableTask\<close> and leaves the exited slot
  as it was, because the staged workload is neither dead nor runnable.\<close>

theorem unlaunched_workload_stops_teardown:
  assumes "kernel_reach r" "running_task r = Inr t" "root \<noteq> 0"
    and "capture_trap t frame root g r = (Inr (), r1)" "handle_trap t r1 = (Inr (Outcome_Exit t), r2)"
    and "runtime_state r (other t) = Inr TaskState_Staged"
  shows "\<exists>r3. begin_teardown t r2 = (Inr (), r3) \<and> complete_teardown t r3 = (Inl Err_NoRunnableTask, r3)
    \<and> runtime_state r3 t = Inr TaskState_Exited"
proof -
  have s: "scheduled t r" using kernel_reach_scheduled [OF assms(1)] assms(2) scheduledD(6) by fastforce
  have s1: "scheduled t r1" by (rule capture_scheduled [OF s assms(3,4)])
  have t: "valid_task t" by (rule scheduledD(2) [OF s])
  have same: "task_state r1 (other t) = task_state r (other t)"
    using assms(4) t by (auto simp: capture_trap_eq valid_task_def split: if_splits)
  from s1 assms(5) obtain r3 where b: "begin_teardown t r2 = (Inr (), r3)" "runtime_inv r3"
      "task_state r3 t = TaskState_Exited" "ct_state (ts_capabilities (task_slot r3 t)) = Cap_Closing"
      "task_state r3 (other t) = unblocked (task_state r1 (other t))"
    by (rule exit_completes) blast
  have "task_state r3 (other t) = TaskState_Staged" using assms(6) t b(5) same by (simp add: runtime_state_def)
  then show ?thesis
    using complete_teardown_outcome(3) [OF b(2) t b(3,4)] b(1,3) t by (auto simp: runtime_state_def)
qed

lemma supervisor_running_facts:
  "running_task supervisor_running = Inr 1" "scheduled 1 supervisor_running"
  "ts_generation (task_slot supervisor_running 1) = 4" "runtime_state supervisor_running (other 1) = Inr TaskState_Staged"
proof -
  obtain t where s: "scheduled t supervisor_running" using kernel_reach_scheduled [OF running_reach(2)] by blast
  have "t = 1"
    using scheduledD(2,4) [OF s]
    by (auto simp: valid_task_def supervisor_running_def dispatched_def example_supervised_def published_sup_def)
  with s show "scheduled 1 supervisor_running" "running_task supervisor_running = Inr 1"
    using scheduledD(6) [OF s] by simp_all
  show "ts_generation (task_slot supervisor_running 1) = 4"
    "runtime_state supervisor_running (other 1) = Inr TaskState_Staged"
    by (simp_all add: supervisor_running_def dispatched_def example_supervised_def published_sup_def runtime_state_def)
qed

theorem unlaunched_workload_stops_teardown_witness:
  "\<exists>r1 r2 r3. capture_trap 1 (trap_frame Op_Exit 0 0 0) 4096 4 supervisor_running = (Inr (), r1)
    \<and> handle_trap 1 r1 = (Inr (Outcome_Exit 1), r2)
    \<and> begin_teardown 1 r2 = (Inr (), r3) \<and> complete_teardown 1 r3 = (Inl Err_NoRunnableTask, r3)"
proof -
  obtain r1 r2 where h: "capture_trap 1 (trap_frame Op_Exit 0 0 0) 4096 4 supervisor_running = (Inr (), r1)"
      "handle_trap 1 r1 = (Inr (Outcome_Exit 1), r2)"
    using exit_trap [OF supervisor_running_facts(2), of 4096 4] supervisor_running_facts(3) by auto
  show ?thesis
    using unlaunched_workload_stops_teardown [OF running_reach(2) supervisor_running_facts(1) _ h]
      supervisor_running_facts(4) h
    by fastforce
qed


section \<open>Failure and isolation\<close>

text \<open>C12: a failed call changes nothing.  In every reachable state, a public call that returns an error
  leaves the whole runtime as it was, also for dispatch, which does not restore a copy itself.\<close>

theorem failed_calls_change_nothing:
  assumes "runtime_reachable r"
  shows "(dispatch_next r = (Inl e, r') \<or> capture_trap t frame root g r = (Inl e, r')
      \<or> handle_trap t r = (Inl e, r') \<or> begin_teardown t r = (Inl e, r') \<or> complete_teardown t r = (Inl e, r'))
    \<longrightarrow> r' = r"
proof (intro impI, elim disjE)
  assume "dispatch_next r = (Inl e, r')"
  then show "r' = r" using reachable_inv [OF assms] by (auto elim: dispatch_next_cases)
next
  assume "capture_trap t frame root g r = (Inl e, r')"
  then show "r' = r" by (simp add: capture_trap_eq split: if_splits)
qed (simp_all add: handle_trap_def begin_teardown_def complete_teardown_def act_restoring_Inl)

theorem failed_calls_change_nothing_witness:
  "begin_teardown 1 example_supervised = (Inl Err_WrongState, example_supervised)"
proof -
  have "fst (begin_teardown 1 example_supervised) = Inl Err_WrongState"
    by (simp add: begin_teardown_def begin_teardown_inner_def act_restoring_def act_bind_def
        example_supervised_def published_sup_def)
  then show ?thesis
    using failed_calls_change_nothing [OF start_reachable [OF example_start(2)], of Err_WrongState _ _ _ _ _]
    by (cases "begin_teardown 1 example_supervised") auto
qed

text \<open>C23: tasks are isolated.  Whatever trap a task makes, the identity and saved registers of the other
  task are unchanged except for the two registers that carry the result of a call, and its capability table is unchanged unless the trap is the launch of the workload.\<close>

theorem other_task_untouched:
  assumes "handle_trap t r = (x, r')"
  shows "saved_registers (other t) r' = saved_registers (other t) r
    \<and> (trap_code t r \<noteq> Some Op_StartWorkload \<longrightarrow>
         ts_capabilities (task_slot r' (other t)) = ts_capabilities (task_slot r (other t)))"
  using registers_kept [OF assms] other_table_kept [OF assms] by blast

theorem other_task_untouched_witness:
  "saved_registers 1 (snd (handle_trap 2 coop_running)) = saved_registers 1 coop_running"
  using other_task_untouched [of 2 coop_running "fst (handle_trap 2 coop_running)" "snd (handle_trap 2 coop_running)"]
  by simp


section \<open>Effects and authority\<close>

text \<open>C3: an effect is committed only with a live approval, once, and exactly as requested.  If a trap
  changes the effect cell, then it is a commit by the supervisor while the broker holds an approved,
  well-formed request; the cell was empty and now holds the argument of that request, and the
  approval is consumed.\<close>

theorem effect_needs_approval:
  assumes inv: "runtime_inv r" and h: "handle_trap t r = (x, r')" and ne: "rt_effect r' \<noteq> rt_effect r"
  shows "t = SENDER_TASK_ID \<and> ab_state (rt_broker r) = Broker_Approved \<and> ab_request_present (rt_broker r)
    \<and> \<not> request_invalid (ab_request (rt_broker r)) \<and> \<not> se_occupied (rt_effect r)
    \<and> rt_effect r' = (rt_effect r)\<lparr>se_occupied := True, se_value := ar_argument (ab_request (rt_broker r))\<rparr>
    \<and> ab_state (rt_broker r') = Broker_Empty \<and> \<not> ab_request_present (rt_broker r')"
proof -
  have op: "trap_code t r = Some Op_CommitEffect" using effect_kept [OF h] ne by blast
  obtain o' where x: "x = Inr o'" using h ne handle_trap_error by (cases x) auto
  have pre: "trap_pre t r" by (rule handle_trap_pre(1) [OF inv]) (use h x in simp)
  note p = trap_preD [OF pre]
  let ?c = "ts_context (task_slot r t)"
  have run: "commit_effect t (cx_rdi ?c) (cx_rsi ?c) (cx_rdx ?c) r = (Inr o', r')"
    using h x op running_task_iff [OF p(2), of t] p(1,5)
    by (simp add: handle_trap_success handle_trap_inner_eq trap_operation_def)
  have none: "commit_status r t (cx_rdi ?c) (cx_rsi ?c) (cx_rdx ?c) = None"
  proof (rule ccontr)
    assume "commit_status r t (cx_rdi ?c) (cx_rsi ?c) (cx_rdx ?c) \<noteq> None"
    then obtain st where "resume_validated t st 0 r = (Inr o', r')" using run by (auto simp: commit_effect_def)
    from keeps_result [OF effect_tables.resume_validated_keeps this] ne show False by simp
  qed
  note c = commit_status_None [OF none]
  have sup: "sup_core r" using core_profile [OF p(3)] c(1) by simp
  note o = open_request [OF pre sup c(4)]
  have e: "ab_decision_epoch (rt_broker r) \<noteq> u64_MAX" using o(3) c(3) by (simp add: broker_inv_def)
  let ?f = "(rt_effect r)\<lparr>se_occupied := True, se_value := cx_rdx ?c\<rparr>"
  let ?r = "(woken Status_Ok (cx_rdx ?c) r)\<lparr>rt_broker := decided_broker (rt_broker r), rt_effect := ?f\<rparr>"
  have "trap_pre 1 ?r"
    by (rule woken_pre(1)) (use pre o sup decided_broker_inv [OF o(3) e] in \<open>simp_all add: effect_inv_def\<close>)
  then have r': "r' = answered 1 Status_Ok 0 ?r"
    using run commit_eq [OF pre none] o(1) resume_validated_eq trap_preD(2) by simp
  have "request_open (rt_broker r)" using o(3) c(3) by (simp add: broker_inv_def)
  then show ?thesis
    using o(1) c r' by (simp add: request_open_def decided_broker_def clear_request_def)
qed

text \<open>A runtime whose supervisor runs while an approved request waits for its commit.\<close>

definition example_request_broker :: ApprovalBroker where
  "example_request_broker = approved_broker (submitted_broker 42 fresh_broker)"

definition example_approved :: Runtime where
  "example_approved =
     (let r = launched supervisor_running
      in r\<lparr>rt_task0 := (rt_task0 r)\<lparr>ts_context := from_trap (trap_frame Op_CommitEffect SUPERVISOR_EFFECT_HANDLE 1 42)
             SENDER_TASK_ID SUPERVISOR_GENERATION 4096\<rparr>,
           rt_task1 := (rt_task1 r)\<lparr>ts_state := TaskState_BlockedApproval\<rparr>,
           rt_queue := queue_of [], rt_broker := example_request_broker\<rparr>)"

lemma example_approved_inv: "runtime_inv example_approved"
proof -
  have sup: "sup_core supervisor_running"
  proof -
    have "core supervisor_running" using scheduledD(3) [OF supervisor_running_facts(2)] by (simp add: runtime_inv_core)
    then show ?thesis
      by (rule core_profile) (simp add: supervisor_running_def dispatched_def example_supervised_def published_sup_def)
  qed
  have staged: "ts_state (rt_task1 supervisor_running) = TaskState_Staged"
    by (simp add: supervisor_running_def dispatched_def example_supervised_def published_sup_def)
  note l = sup_coreD [OF launched_core [OF sup staged]]
  have run: "ts_state (rt_task0 (launched supervisor_running)) = TaskState_Running"
    "ts_generation (rt_task0 (launched supervisor_running)) = 4"
    "ct_state (ts_capabilities (rt_task0 (launched supervisor_running))) = Cap_Live"
    "ab_state (rt_broker (launched supervisor_running)) = Broker_Empty"
    by (simp_all add: launched_def supervisor_running_def dispatched_def example_supervised_def published_sup_def
        fresh_broker_def)
  have b: "broker_inv example_request_broker" "ab_state example_request_broker = Broker_Approved"
    by (simp_all add: example_request_broker_def approved_broker_def submitted_broker_def fresh_broker_def
        broker_building_def broker_inv_def request_open_def request_invalid_def the_request_def u64_MAX_def Let_def)
  have s0: "slot_inv 1 ((rt_task0 (launched supervisor_running))\<lparr>ts_context :=
      from_trap (trap_frame Op_CommitEffect SUPERVISOR_EFFECT_HANDLE 1 42) 1 4 4096\<rparr>)"
    using l(1) run by (simp add: slot_inv_def from_trap_def)
  have s1: "slot_inv 2 ((rt_task1 (launched supervisor_running))\<lparr>ts_state := TaskState_BlockedApproval\<rparr>)"
    by (rule slot_inv_state [OF l(2)]) (simp_all add: launched_def workload_table_ok)
  have "sup_core example_approved"
    using launched_core [OF sup staged] s0 s1 b run
    by (simp add: example_approved_def sup_core_def slots_inv_def launched_def Let_def)
  moreover have "sched_inv example_approved"
    using run(1) by (simp add: example_approved_def sched_inv_def queue_inv_def ready_set_def Let_def)
  ultimately show ?thesis by (simp add: runtime_inv_def)
qed


lemma example_commit:
  "\<exists>r'. handle_trap 1 example_approved = (Inr (Outcome_Resume 1), r') \<and> rt_effect r' \<noteq> rt_effect example_approved"
proof -
  let ?r = example_approved
  have sup: "rt_profile ?r = Profile_Supervised" "ts_state (rt_task0 ?r) = TaskState_Running"
    "ts_state (rt_task1 ?r) = TaskState_BlockedApproval" "rt_effect ?r = fresh_effect"
    by (simp_all add: example_approved_def launched_def supervisor_running_def dispatched_def example_supervised_def
        published_sup_def Let_def)
  have pre: "trap_pre 1 ?r" using example_approved_inv sup by (simp add: trap_pre_def)
  have ctx: "ts_context (rt_task0 ?r) = from_trap (trap_frame Op_CommitEffect 18 1 42) 1 4 4096"
    by (simp add: example_approved_def const_simps Let_def)
  have caps: "ts_capabilities (rt_task0 ?r) = table_of Cap_Live 1 4 supervisor_entries" "ts_generation (rt_task0 ?r) = 4"
    by (simp_all add: example_approved_def launched_def supervisor_running_def dispatched_def example_supervised_def
        published_sup_def Let_def)
  have entry: "live_entry (table_of Cap_Live 1 4 supervisor_entries) 18 = Some (supervisor_entries ! 2)"
    by (simp add: live_entry_def handle_decode_def table_of_def supervisor_entries_def filled_slot_def
        CapabilitySlot_EMPTY_def drop_bit_eq_div Let_def)
  have res: "resolve_object ?r 1 18 OBJECT_TYPE_TEST_EFFECT CAPABILITY_RIGHT_COMMIT_EFFECT TEST_EFFECT_OBJECT_ID 1 = Inr ()"
  proof -
    have "resolve_typed (table_of Cap_Live 1 4 supervisor_entries) 1 4 18 OBJECT_TYPE_TEST_EFFECT
        CAPABILITY_RIGHT_COMMIT_EFFECT = Inr (supervisor_entries ! 2)"
      unfolding resolve_typed_eq_Inr using entry by (simp add: supervisor_entries_def entry_for_def)
    then show ?thesis
      using caps by (simp add: resolve_object_def supervisor_entries_def entry_for_def fixed_ref_def)
  qed
  have broker: "rt_broker ?r = example_request_broker" by (simp add: example_approved_def Let_def)
  have none: "commit_status ?r 1 18 1 42 = None"
    using res sup(1,4) broker
    by (simp add: commit_status_def example_request_broker_def approved_broker_def submitted_broker_def
        fresh_broker_def broker_building_def the_request_def fresh_effect_def u64_MAX_def Let_def)
  have "handle_trap_inner 1 ?r = commit_effect 1 18 1 42 ?r"
    using running_task_iff [OF example_approved_inv, of 1] sup ctx
    by (simp add: handle_trap_inner_eq trap_operation_def from_trap_def trap_frame_def TrapOperation_parse_def)
  moreover have "trap_post 1 ?r (commit_effect 1 18 1 42 ?r)" by (rule commit_post [OF pre])
  moreover have "rt_effect (snd (commit_effect 1 18 1 42 ?r)) = fresh_effect\<lparr>se_occupied := True, se_value := 42\<rparr>"
    using commit_eq [OF pre none] keepsD [OF effect_tables.resume_validated_keeps] sup(4) by simp
  moreover have "fst (commit_effect 1 18 1 42 ?r) = Inr (Outcome_Resume 1)"
    using commit_eq [OF pre none] calculation(2) sup(3)
    by (cases "commit_effect 1 18 1 42 ?r")
      (auto simp: trap_post_def resume_validated_def act_then_def act_bind_def set_result_eq split: sum.splits)
  ultimately show ?thesis
    using sup(4) by (cases "commit_effect 1 18 1 42 ?r") (simp add: handle_trap_success fresh_effect_def)
qed

theorem effect_needs_approval_witness:
  "rt_effect (snd (handle_trap 1 example_approved)) =
     (rt_effect example_approved)\<lparr>se_occupied := True, se_value := ar_argument (ab_request (rt_broker example_approved))\<rparr>
   \<and> rt_effect (snd (handle_trap 1 example_approved)) \<noteq> rt_effect example_approved"
  using example_commit effect_needs_approval [OF example_approved_inv, of 1] by fastforce

text \<open>C5: the hostile workload can only ever ask.  In the supervised profile every live capability of the
  workload, after any sequence of calls, is the right to submit a request to the broker; it can neither
  decide, nor commit, nor start, nor read the journal.  In the cooperative profile every live capability
  of the receiver is on the endpoint and gives at most the receive right.\<close>

theorem authority_confined:
  assumes "runtime_reachable r" "live_entry (ts_capabilities (rt_task1 r)) raw = Some e"
  shows "case rt_profile r of
      Profile_Supervised \<Rightarrow> ce_object_type e = OBJECT_TYPE_APPROVAL_BROKER
        \<and> ce_rights e = CAPABILITY_RIGHT_SUBMIT_APPROVAL
    | Profile_Cooperative \<Rightarrow> ce_object_type e = OBJECT_TYPE_ENDPOINT
        \<and> rights_subset (ce_rights e) CAPABILITY_RIGHT_RECEIVE"
proof -
  have "table_allowed (rt_profile r) 2 (ts_capabilities (rt_task1 r))"
    using reachable_authority [OF assms(1)] by (simp add: authority_inv_def)
  from table_allowed_live [OF this assms(2)] obtain i where "slot_allowed (rt_profile r) 2 i e" by blast
  then show ?thesis
    by (cases "rt_profile r") (simp_all add: slot_allowed_def granted_entries_def workload_entry_def entry_for_def)
qed

theorem authority_confined_witness:
  "case rt_profile example_coop of
      Profile_Supervised \<Rightarrow> ce_object_type (receiver_entry 3) = OBJECT_TYPE_APPROVAL_BROKER
        \<and> ce_rights (receiver_entry 3) = CAPABILITY_RIGHT_SUBMIT_APPROVAL
    | Profile_Cooperative \<Rightarrow> ce_object_type (receiver_entry 3) = OBJECT_TYPE_ENDPOINT
        \<and> rights_subset (ce_rights (receiver_entry 3)) CAPABILITY_RIGHT_RECEIVE"
proof (rule authority_confined [OF start_reachable [OF example_start(1)]])
  show "live_entry (ts_capabilities (rt_task1 example_coop)) 16 = Some (receiver_entry 3)"
    by (simp add: example_coop_def published_coop_def example_context_def context_initial_def live_entry_def
        handle_decode_def table_of_def filled_slot_def CapabilitySlot_EMPTY_def drop_bit_eq_div Let_def)
qed


section \<open>Publication and messages\<close>

text \<open>C25: a failed publication leaves nothing behind.  Whatever step of the publication of either profile
  fails, by injection or for any other reason, both slots are dead with empty tables and the state is
  valid, so no partly installed handle survives.\<close>

theorem failed_publication_rolls_back:
  assumes "publish_initial fail (unpublished a b) = (Inl e, r)
    \<or> publish_supervisor fail (unpublished_supervised a b) = (Inl e, r)"
  shows "runtime_validate r = Inr () \<and> runtime_state r SENDER_TASK_ID = Inr TaskState_Dead
    \<and> runtime_state r RECEIVER_TASK_ID = Inr TaskState_Dead
    \<and> ts_capabilities (rt_task0 r) = table_dead \<and> ts_capabilities (rt_task1 r) = table_dead
    \<and> runtime_queue r = ([0, 0], 0)"
proof -
  have "rolled_back r"
    using assms publish_initial_failed publish_supervisor_failed unpublished_frames by blast
  then have inv: "runtime_inv r" and dead: "ts_state (rt_task0 r) = TaskState_Dead" "ts_state (rt_task1 r) = TaskState_Dead"
    by (simp_all add: rolled_back_def)
  have "slot_inv 1 (rt_task0 r)" "slot_inv 2 (rt_task1 r)"
    using inv core_slots by (auto simp: runtime_inv_core slots_inv_def)
  note t = dead_table [OF this(1) dead(1)] dead_table [OF this(2) dead(2)]
  have "rt_queue r = queue_of []" using inv dead empty_queue by (simp add: runtime_inv_core)
  then show ?thesis
    using t dead runtime_inv_validate [OF inv]
    by (simp add: runtime_state_def runtime_queue_def queue_as_array_def queue_of_def numeral_2_eq_2)
qed

theorem failed_publication_rolls_back_witness:
  "let res = publish_initial (Some 0) (unpublished (example_context 1 2) (example_context 2 3))
   in fst res = Inl Err_PublicationFailure \<and> runtime_validate (snd res) = Inr ()
      \<and> ts_capabilities (rt_task0 (snd res)) = table_dead"
proof -
  have "fst (publish_initial (Some 0) (unpublished (example_context 1 2) (example_context 2 3))) = Inl Err_PublicationFailure"
    by (simp add: publish_initial_def)
  then obtain r where eq: "publish_initial (Some 0) (unpublished (example_context 1 2) (example_context 2 3)) =
      (Inl Err_PublicationFailure, r)" by (metis prod.collapse)
  show ?thesis using failed_publication_rolls_back [OF disjI1 [OF eq]] by (simp add: eq Let_def)
qed

lemma receive_takes:
  assumes pre: "trap_pre 2 r" and res: "resolve_endpoint r 2 handle CAPABILITY_RIGHT_RECEIVE = Inr ()"
    and occ: "ep_occupied (rt_endpoint r)"
  shows "runtime_receive 2 handle 0 0 r =
    (Inr (Outcome_Resume 2), answered 2 Status_Ok (ep_payload (rt_endpoint r))
       (r\<lparr>rt_endpoint := (rt_endpoint r)\<lparr>ep_occupied := False, ep_payload := 0\<rparr>\<rparr>))"
proof -
  note p = trap_preD [OF pre]
  have coop: "coop_core r" using resolve_endpoint_coop [OF p(3) res] .
  let ?r = "r\<lparr>rt_endpoint := (rt_endpoint r)\<lparr>ep_occupied := False, ep_payload := 0\<rparr>\<rparr>"
  have "coop_core ?r" using coop_endpoint [OF coop endpoint_take] coop by (simp add: coop_core_def)
  then have "runtime_inv ?r" using p(4) by (simp add: runtime_inv_def)
  then show ?thesis
    using res occ resume_validated_eq [of 2 ?r]
    by (simp add: runtime_receive_def act_then_def act_bind_def Let_def)
qed

text \<open>C21: a message is delivered exactly once and unchanged.  A send over a resolvable handle to a present
  receiver with an empty slot succeeds.  If the receiver is blocked, it becomes ready with the message
  as the value of its call; otherwise the message is stored, and the receiver's next receive returns
  it and empties the slot.\<close>

theorem message_delivered:
  assumes inv: "runtime_inv r" and run: "running_task r = Inr t"
    and res: "resolve_endpoint r t handle CAPABILITY_RIGHT_SEND = Inr ()"
    and "ep_receiver_generation (rt_endpoint r) \<noteq> 0" "\<not> ep_occupied (rt_endpoint r)"
  shows "\<exists>r1. runtime_send t handle message 0 r = (Inr (Outcome_Resume t), r1)
    \<and> (if ts_state (rt_task1 r) = TaskState_BlockedReceive
       then ts_state (rt_task1 r1) = TaskState_Ready \<and> \<not> ep_occupied (rt_endpoint r1)
         \<and> ts_context (rt_task1 r1) = context_set_result Status_Ok message (ts_context (rt_task1 r))
       else ep_occupied (rt_endpoint r1)
         \<and> (\<forall>r2 h. runtime_inv r2 \<and> running_task r2 = Inr RECEIVER_TASK_ID \<and> rt_endpoint r2 = rt_endpoint r1
              \<and> resolve_endpoint r2 RECEIVER_TASK_ID h CAPABILITY_RIGHT_RECEIVE = Inr () \<longrightarrow>
              (\<exists>r3. runtime_receive RECEIVER_TASK_ID h 0 0 r2 = (Inr (Outcome_Resume RECEIVER_TASK_ID), r3)
                 \<and> \<not> ep_occupied (rt_endpoint r3)
                 \<and> ts_context (rt_task1 r3) = context_set_result Status_Ok message (ts_context (rt_task1 r2)))))"
proof -
  have pre: "trap_pre t r" using inv run running_task_iff [OF inv] by (simp add: trap_pre_def)
  note p = trap_preD [OF pre]
  have coop: "coop_core r" using resolve_endpoint_coop [OF p(3) res] .
  note d = delivered_pre [OF pre coop assms(4), of message]
  let ?r1 = "answered t Status_Ok 0 (delivered message r)"
  have eq: "runtime_send t handle message 0 r = (Inr (Outcome_Resume t), ?r1)"
    using send_delivers [OF pre res assms(4,5)] resume_validated_eq [OF p(1) trap_preD(2) [OF d(1)]] by simp
  show ?thesis
  proof (cases "ts_state (rt_task1 r) = TaskState_BlockedReceive")
    case True
    then have "t = 1" using p(1,5) by (auto simp: valid_task_def)
    with eq True assms(5) show ?thesis by (simp add: delivered_def woken_def answered_def)
  next
    case False
    have ep: "rt_endpoint ?r1 = (rt_endpoint r)\<lparr>ep_occupied := True, ep_payload := message\<rparr>"
      using False by (simp add: delivered_def)
    have "\<exists>r3. runtime_receive 2 h 0 0 r2 = (Inr (Outcome_Resume 2), r3) \<and> \<not> ep_occupied (rt_endpoint r3)
        \<and> ts_context (rt_task1 r3) = context_set_result Status_Ok message (ts_context (rt_task1 r2))"
      if "runtime_inv r2" "running_task r2 = Inr 2" "rt_endpoint r2 = rt_endpoint ?r1"
        "resolve_endpoint r2 2 h CAPABILITY_RIGHT_RECEIVE = Inr ()" for r2 h
    proof -
      have "trap_pre 2 r2" using that(1,2) running_task_iff by (simp add: trap_pre_def)
      from receive_takes [OF this that(4)] that(3) ep show ?thesis by (simp add: answered_def)
    qed
    with eq ep False show ?thesis by simp
  qed
qed

definition example_sending :: Runtime where
  "example_sending = dispatched SENDER_TASK_ID [RECEIVER_TASK_ID] example_coop"

lemma example_sending_inv: "runtime_inv example_sending" "running_task example_sending = Inr 1"
proof -
  have core: "core example_coop" using example_inv(1) by (simp add: runtime_inv_core)
  have "task_state example_coop 1 = TaskState_Ready" "task_state example_coop 2 = TaskState_Ready"
    by (simp_all add: example_coop_def published_coop_def)
  then show "runtime_inv example_sending"
    unfolding example_sending_def by (intro dispatched_inv [OF core]) (auto simp: ready_set_def)
  then show "running_task example_sending = Inr 1"
    by (simp add: running_task_iff) (simp add: example_sending_def dispatched_def)
qed

theorem message_delivered_witness:
  "\<exists>r1. runtime_send 1 16 7 0 example_sending = (Inr (Outcome_Resume 1), r1) \<and> ep_occupied (rt_endpoint r1)"
proof -
  have fields: "rt_task0 example_sending = (rt_task0 example_coop)\<lparr>ts_state := TaskState_Running\<rparr>"
    "rt_task1 example_sending = rt_task1 example_coop" "rt_endpoint example_sending = rt_endpoint example_coop"
    by (simp_all add: example_sending_def dispatched_def)
  have entry: "live_entry (table_of Cap_Live 1 2 [sender_entry 2]) 16 = Some (sender_entry 2)"
    by (simp add: live_entry_def handle_decode_def table_of_def filled_slot_def CapabilitySlot_EMPTY_def
        drop_bit_eq_div Let_def)
  have "resolve_typed (table_of Cap_Live 1 2 [sender_entry 2]) 1 2 16 OBJECT_TYPE_ENDPOINT CAPABILITY_RIGHT_SEND =
      Inr (sender_entry 2)"
    unfolding resolve_typed_eq_Inr using entry by (simp add: sender_entry_def entry_for_def)
  then have res: "resolve_endpoint example_sending 1 16 CAPABILITY_RIGHT_SEND = Inr ()"
    by (simp add: resolve_endpoint_def resolve_def fields example_coop_def published_coop_def example_context_def
        context_initial_def sender_entry_def entry_for_def endpoint_ref_def)
  have "ts_state (rt_task1 example_sending) \<noteq> TaskState_BlockedReceive"
    "ep_receiver_generation (rt_endpoint example_sending) \<noteq> 0" "\<not> ep_occupied (rt_endpoint example_sending)"
    by (simp_all add: fields example_coop_def published_coop_def example_context_def context_initial_def)
  then show ?thesis using message_delivered [OF example_sending_inv res, of 7] by auto
qed

end
