(* ===== verification/Journaled_Properties.thy ===== *)
theory Journaled_Properties
  imports Journaled_Calls Runtime_Properties
begin

text \<open>
What the journaled runtime as a whole promises: sequences of calls and the kernel's protocol keep its
  invariant, user traps never fail, every effect is recorded with its history, the records follow the life
  cycle of a request and never change, an exit seals the journal and a failed publication leaves nothing.
\<close>


section \<open>Sequences of calls\<close>

text \<open>The public calls up to reclamation of the journal, in any order, with any arguments and results.\<close>

inductive journaled_step :: "JournaledRuntime \<Rightarrow> JournaledRuntime \<Rightarrow> bool" where
  journaled_dispatch: "journaled_dispatch_next j = (x, j') \<Longrightarrow> journaled_step j j'"
| journaled_capture: "root \<noteq> 0 \<Longrightarrow> journaled_capture_trap t frame root g j = (x, j') \<Longrightarrow> journaled_step j j'"
| journaled_trap: "journaled_handle_trap t j = (x, j') \<Longrightarrow> journaled_step j j'"
| journaled_begin: "journaled_begin_teardown t j = (x, j') \<Longrightarrow> journaled_step j j'"
| journaled_complete: "journaled_complete_teardown t j = (x, j') \<Longrightarrow> journaled_step j j'"

inductive journaled_call :: "JournaledRuntime \<Rightarrow> JournaledRuntime \<Rightarrow> bool" where
  call_step: "journaled_step j j' \<Longrightarrow> journaled_call j j'"
| call_finish: "finish_reclamation j = (x, j') \<Longrightarrow> journaled_call j j'"

definition journaled_start :: "JournaledRuntime \<Rightarrow> bool" where
  "journaled_start j \<longleftrightarrow> (\<exists>s w. journaled_new_supervised s w = Inr j)"

definition journaled_reachable :: "JournaledRuntime \<Rightarrow> bool" where
  "journaled_reachable j \<longleftrightarrow> (\<exists>j0. journaled_start j0 \<and> journaled_call\<^sup>*\<^sup>* j0 j)"

lemma dispatch_step:
  assumes inv: "journaled_inv j" and d: "journaled_dispatch_next j = (x, j')"
  shows "journaled_inv j'" "jr_journal j' = jr_journal j"
  using dispatch_keeps_inv [OF inv, of "fst (dispatch_next (jr_runtime j))" "snd (dispatch_next (jr_runtime j))"] d
  by (auto simp: journaled_dispatch_next_def on_runtime_eq)

text \<open>The log only grows, and once sealed it does not change at all.\<close>

definition log_grows :: "JournaledRuntime \<Rightarrow> JournaledRuntime \<Rightarrow> bool" where
  "log_grows j j' \<longleftrightarrow> (\<exists>xs. journal_log (jr_journal j') = journal_log (jr_journal j) @ xs)
     \<and> (ej_state (jr_journal j) = Journal_Live \<longrightarrow> ej_state (jr_journal j') \<noteq> Journal_Dead)
     \<and> (ej_state (jr_journal j) = Journal_Sealed \<longrightarrow> jr_journal j' = jr_journal j)"

lemma log_grows_same: "jr_journal j' = jr_journal j \<Longrightarrow> log_grows j j'"
  by (simp add: log_grows_def)

lemma log_grows_trap:
  assumes inv: "journaled_inv j" and h: "journaled_handle_trap t j = (x, j')"
  shows "log_grows j j'"
proof (cases "trap_pre t (jr_runtime j)")
  case False
  then have "running_task (jr_runtime j) \<noteq> Inr t"
    using running_task_iff [OF journaled_invD(6) [OF inv]] journaled_invD(6) [OF inv] by (simp add: trap_pre_def)
  then have "j' = j" using h by (auto simp: journaled_handle_trap_def act_bind_def split: sum.splits if_splits)
  then show ?thesis by (simp add: log_grows_same)
next
  case True
  from journaled_trap_outcome [OF inv True] show ?thesis
  proof (elim disjE)
    assume "outcome_records t j (journaled_handle_trap t j)"
    then obtain o' r' rec n where "(x, j') = (Inr o', appended rec n r' j)"
      and live: "ej_state (jr_journal j) = Journal_Live" using h unfolding outcome_records_def by auto
    then have "ej_state (jr_journal j') = Journal_Live" by (simp add: committed_def)
    then show ?thesis using journaled_trap_step(2) [OF inv h] live by (simp add: log_grows_def)
  qed (use h in \<open>auto simp: outcome_failed_def outcome_quiet_def intro: log_grows_same\<close>)
qed

lemma log_grows_begin:
  assumes inv: "journaled_inv j" and b: "journaled_begin_teardown t j = (x, j')"
  shows "log_grows j j'"
proof (cases "valid_task t \<and> task_state (jr_runtime j) t = TaskState_Exited \<and> table_state (jr_runtime j) t = Cap_Live")
  case True
  then have "j' = torn_down t j" using journaled_begin_eq(1) [OF inv, of t] b by auto
  then have "ej_state (jr_journal j) = Journal_Sealed \<Longrightarrow> jr_journal j' = jr_journal j" by (simp add: torn_down_def)
  then show ?thesis using journaled_begin_step(2,4) [OF inv b] by (auto simp: log_grows_def)
next
  case False
  then show ?thesis using journaled_begin_refused(1) [OF inv b] by (intro log_grows_same) simp
qed

lemma journaled_step_inv:
  assumes "journaled_step j j'" "journaled_inv j"
  shows "journaled_inv j'" "log_grows j j'"
proof -
  have "journaled_inv j' \<and> log_grows j j'"
    using assms
  proof (induction rule: journaled_step.induct)
    case (journaled_dispatch j x j')
    then show ?case using dispatch_step log_grows_same by blast
  next
    case (journaled_capture root t frame g j x j')
    then show ?case using journaled_capture_step(1,2) log_grows_same by blast
  next
    case (journaled_trap t j x j')
    then show ?case using journaled_trap_step(1) log_grows_trap by blast
  next
    case (journaled_begin t j x j')
    then show ?case using journaled_begin_step(1) log_grows_begin by blast
  next
    case (journaled_complete t j x j')
    then show ?case using journaled_complete_step(1,2) log_grows_same by blast
  qed
  then show "journaled_inv j'" "log_grows j j'" by blast+
qed

lemma journaled_call_inv: "journaled_call j j' \<Longrightarrow> journaled_inv j \<Longrightarrow> journaled_inv j'"
  by (induction rule: journaled_call.induct) (blast intro: journaled_step_inv(1) finish_reclamation_step(1))+

interpretation journaled_calls: inductive_invariant journaled_start journaled_call journaled_inv
  by unfold_locales (use journaled_call_inv journaled_new_inv(2) in \<open>auto simp: journaled_start_def\<close>)

lemma journaled_reachable_inv: "journaled_reachable j \<Longrightarrow> journaled_inv j"
  unfolding journaled_reachable_def using journaled_calls.reachable_invar by blast

text \<open>The journaled runtime meets the contract of an append-only log as long as its journal is open.\<close>

definition journal_readable :: "JournaledRuntime \<Rightarrow> bool" where
  "journal_readable j \<longleftrightarrow> journaled_inv j \<and> ej_state (jr_journal j) \<noteq> Journal_Dead"

lemma readable_open: "journal_readable j \<Longrightarrow> journal_open (jr_journal j)"
  using journaled_invD(4,5) [of j]
  by (cases "ej_state (jr_journal j)") (auto simp: journal_readable_def journal_open_def journal_follows_def)

interpretation journaled_log: append_log journal_readable "\<lambda>j. journal_log (jr_journal j)" journaled_step
proof
  fix j j'
  assume r: "journal_readable j" and s: "journaled_step j j'"
  then have inv: "journaled_inv j" by (simp add: journal_readable_def)
  note si = journaled_step_inv [OF s inv]
  from readable_open [OF r] si show "journal_readable j'"
    by (auto simp: journal_readable_def journal_open_def log_grows_def)
  from si(2) show "\<exists>xs. journal_log (jr_journal j') = journal_log (jr_journal j) @ xs" by (simp add: log_grows_def)
qed


section \<open>The kernel's protocol with a journal\<close>

inductive journaled_kernel :: "JournaledRuntime \<Rightarrow> bool" where
  kernel_start: "journaled_start j \<Longrightarrow> journaled_dispatch_next j = (Inr (Some t), j') \<Longrightarrow> journaled_kernel j'"
| kernel_trap: "journaled_kernel j \<Longrightarrow> journaled_running_task j = Inr t \<Longrightarrow> root \<noteq> 0 \<Longrightarrow>
    journaled_capture_trap t frame root g j = (Inr (), j1) \<Longrightarrow> journaled_handle_trap t j1 = (Inr out, j') \<Longrightarrow>
    out \<noteq> Outcome_Exit t \<Longrightarrow> journaled_kernel j'"
| kernel_exit: "journaled_kernel j \<Longrightarrow> journaled_running_task j = Inr t \<Longrightarrow> root \<noteq> 0 \<Longrightarrow>
    journaled_capture_trap t frame root g j = (Inr (), j1) \<Longrightarrow>
    journaled_handle_trap t j1 = (Inr (Outcome_Exit t), j2) \<Longrightarrow> journaled_begin_teardown t j2 = (Inr (), j3) \<Longrightarrow>
    journaled_complete_teardown t j3 = (Inr (Some u), j') \<Longrightarrow> journaled_kernel j'"

definition journaled_scheduled :: "u64 \<Rightarrow> JournaledRuntime \<Rightarrow> bool" where
  "journaled_scheduled t j \<longleftrightarrow> journaled_inv j \<and> scheduled t (jr_runtime j)"

lemma journaled_captured:
  assumes s: "journaled_scheduled t j" and root: "root \<noteq> 0" and c: "journaled_capture_trap t frame root g j = (Inr (), j1)"
  shows "journaled_scheduled t j1"
proof -
  have "capture_trap t frame root g (jr_runtime j) = (Inr (), jr_runtime j1)"
    using c by (auto simp: journaled_capture_trap_def on_runtime_eq prod_eq_iff)
  then show ?thesis
    using s journaled_capture_step(1) [OF _ root c] capture_scheduled [OF _ root] by (auto simp: journaled_scheduled_def)
qed

lemma journaled_trap_total:
  assumes s: "journaled_scheduled t j"
  obtains (resumed) j' where "journaled_handle_trap t j = (Inr (Outcome_Resume t), j')" "journaled_scheduled t j'"
    | (switched) u j' where "journaled_handle_trap t j = (Inr (Outcome_Switch u), j')" "journaled_scheduled u j'"
    | (exited) j' where "journaled_handle_trap t j = (Inr (Outcome_Exit t), j')" "journaled_inv j'"
        "task_state (jr_runtime j') t = TaskState_Exited"
        "task_state (jr_runtime j') (other t) = task_state (jr_runtime j) (other t)"
        "table_state (jr_runtime j') t = Cap_Live"
proof -
  have inv: "journaled_inv j" and sch: "scheduled t (jr_runtime j)" using s by (simp_all add: journaled_scheduled_def)
  obtain x j' where h: "journaled_handle_trap t j = (x, j')" by fastforce
  have post: "trap_post t (jr_runtime j) (x, jr_runtime j')"
    using journaled_trap_outcome [OF inv scheduledD(1) [OF sch]] h
    by (auto simp: outcome_failed_def outcome_quiet_def outcome_records_def)
  have inv': "journaled_inv j'" by (rule journaled_trap_step(1) [OF inv h])
  from sch post show thesis
    by (cases rule: post_scheduled) (use h inv' that in \<open>auto simp: journaled_scheduled_def\<close>)
qed

lemma journaled_exit_completes:
  assumes s: "journaled_scheduled t j" and h: "journaled_handle_trap t j = (Inr (Outcome_Exit t), j1)"
  shows "journaled_begin_teardown t j1 = (Inr (), torn_down t j1)" "journaled_inv (torn_down t j1)"
    "ej_state (jr_journal (torn_down t j1)) = Journal_Sealed"
    "task_state (jr_runtime (torn_down t j1)) t = TaskState_Exited" "table_state (jr_runtime (torn_down t j1)) t = Cap_Closing"
    "task_state (jr_runtime (torn_down t j1)) (other t) = unblocked (task_state (jr_runtime j) (other t))"
    "task_state (jr_runtime (torn_down t j1)) (other t) \<in> {TaskState_Ready, TaskState_Dead, TaskState_Staged}"
proof -
  have sch: "scheduled t (jr_runtime j)" using s by (simp add: journaled_scheduled_def)
  note d = scheduledD [OF sch]
  from s h have j1: "journaled_inv j1" "task_state (jr_runtime j1) t = TaskState_Exited"
      "task_state (jr_runtime j1) (other t) = task_state (jr_runtime j) (other t)" "table_state (jr_runtime j1) t = Cap_Live"
    by (cases rule: journaled_trap_total; auto)+
  note b = journaled_begin_eq [OF j1(1) d(2) j1(2,4)] and st = torn_down_states [OF j1(1) d(2) j1(2,4)]
  from b st j1(3) show "journaled_begin_teardown t j1 = (Inr (), torn_down t j1)" "journaled_inv (torn_down t j1)"
    "ej_state (jr_journal (torn_down t j1)) = Journal_Sealed"
    "task_state (jr_runtime (torn_down t j1)) t = TaskState_Exited" "table_state (jr_runtime (torn_down t j1)) t = Cap_Closing"
    and oth: "task_state (jr_runtime (torn_down t j1)) (other t) = unblocked (task_state (jr_runtime j) (other t))"
    by simp_all
  show "task_state (jr_runtime (torn_down t j1)) (other t) \<in> {TaskState_Ready, TaskState_Dead, TaskState_Staged}"
    using oth d(5) trap_preD(6) [OF d(1)] by (cases "task_state (jr_runtime j) (other t)") (simp_all add: unblocked_def)
qed

lemma journaled_complete_outcome:
  assumes inv: "journaled_inv j" and t: "valid_task t" and ex: "task_state (jr_runtime j) t = TaskState_Exited"
    and cl: "table_state (jr_runtime j) t = Cap_Closing"
  shows "task_state (jr_runtime j) (other t) = TaskState_Ready \<Longrightarrow>
      \<exists>j'. journaled_complete_teardown t j = (Inr (Some (other t)), j') \<and> journaled_scheduled (other t) j'"
    and "task_state (jr_runtime j) (other t) = TaskState_Dead \<Longrightarrow>
      \<exists>j'. journaled_complete_teardown t j = (Inr None, j') \<and> journaled_inv j' \<and> jr_journal j' = jr_journal j
        \<and> task_state (jr_runtime j') 1 = TaskState_Dead \<and> task_state (jr_runtime j') 2 = TaskState_Dead"
    and "task_state (jr_runtime j) (other t) = TaskState_Staged \<Longrightarrow> journaled_complete_teardown t j = (Inl Err_NoRunnableTask, j)"
proof -
  note o = complete_teardown_outcome [OF journaled_invD(6) [OF inv] t ex cl]
  obtain x j' where c: "journaled_complete_teardown t j = (x, j')" by fastforce
  note cs = journaled_complete_step [OF inv c]
  show "\<exists>j'. journaled_complete_teardown t j = (Inr (Some (other t)), j') \<and> journaled_scheduled (other t) j'"
    if "task_state (jr_runtime j) (other t) = TaskState_Ready"
    using o(1) [OF that] c cs(1) cs(4,5) [of "Some (other t)"] by (force simp: journaled_scheduled_def)
  show "\<exists>j'. journaled_complete_teardown t j = (Inr None, j') \<and> journaled_inv j' \<and> jr_journal j' = jr_journal j
        \<and> task_state (jr_runtime j') 1 = TaskState_Dead \<and> task_state (jr_runtime j') 2 = TaskState_Dead"
    if "task_state (jr_runtime j) (other t) = TaskState_Dead"
    using o(2) [OF that] c cs(1,2) cs(4,5) [of None] by force
  show "journaled_complete_teardown t j = (Inl Err_NoRunnableTask, j)"
    if "task_state (jr_runtime j) (other t) = TaskState_Staged"
    using o(3) [OF that] by (simp add: journaled_complete_teardown_def on_runtime_eq)
qed

lemma journaled_start_scheduled:
  assumes "journaled_start j" "journaled_dispatch_next j = (Inr (Some t), j')"
  shows "journaled_scheduled t j'"
proof -
  obtain s w where n: "journaled_new_supervised s w = Inr j" using assms(1) by (auto simp: journaled_start_def)
  note j = journaled_new_inv [OF n]
  have d: "dispatch_next (jr_runtime j) = (Inr (Some t), jr_runtime j')"
    using assms(2) by (auto simp: journaled_dispatch_next_def on_runtime_eq prod_eq_iff)
  have ne: "task_state (jr_runtime j) 1 = TaskState_Ready" "task_state (jr_runtime j) 2 = TaskState_Staged"
    unfolding j(1) by (simp_all add: published_journaled_def published_sup_def)
  from journaled_invD(6) [OF j(2)] d have "scheduled t (jr_runtime j')"
    by (cases rule: dispatch_next_cases)
      (use ne in \<open>auto simp: scheduled_def trap_pre_def dispatched_def valid_task_def\<close>)
  with dispatch_step(1) [OF j(2) assms(2)] show ?thesis by (simp add: journaled_scheduled_def)
qed

lemma running_scheduled:
  "journaled_scheduled t j \<Longrightarrow> journaled_running_task j = Inr u \<Longrightarrow> u = t"
  using scheduledD(6) by (auto simp: journaled_scheduled_def journaled_running_task_def)

lemma journaled_kernel_scheduled: "journaled_kernel j \<Longrightarrow> \<exists>t. journaled_scheduled t j"
proof (induction rule: journaled_kernel.induct)
  case (kernel_start j t j')
  then show ?case using journaled_start_scheduled by blast
next
  case (kernel_trap j t root frame g j1 out j')
  then have "journaled_scheduled t j" using running_scheduled by blast
  from journaled_captured [OF this] kernel_trap have "journaled_scheduled t j1" by blast
  from this kernel_trap show ?case by (cases rule: journaled_trap_total) auto
next
  case (kernel_exit j t root frame g j1 j2 j3 u j')
  then have "journaled_scheduled t j" using running_scheduled by blast
  from journaled_captured [OF this] kernel_exit have s: "journaled_scheduled t j1" by blast
  have t: "valid_task t" using s scheduledD(2) by (auto simp: journaled_scheduled_def)
  note e = journaled_exit_completes [OF s kernel_exit(5)]
  have j3: "j3 = torn_down t j2" using e(1) kernel_exit(6) by simp
  note c = journaled_complete_outcome [OF e(2) t e(4,5)]
  show ?case using e(7) c kernel_exit(7) j3 by auto
qed


section \<open>Example states\<close>

definition example_journaled :: JournaledRuntime where
  "example_journaled = published_journaled (example_context SENDER_TASK_ID SUPERVISOR_GENERATION)
     (example_context RECEIVER_TASK_ID WORKLOAD_GENERATION)"

definition journaled_running :: JournaledRuntime where
  "journaled_running = example_journaled\<lparr>jr_runtime := dispatched SENDER_TASK_ID [] (jr_runtime example_journaled)\<rparr>"

lemma example_journaled_start: "journaled_start example_journaled"
proof -
  have "journaled_new_supervised (example_context SENDER_TASK_ID SUPERVISOR_GENERATION)
      (example_context RECEIVER_TASK_ID WORKLOAD_GENERATION) = Inr example_journaled"
    unfolding example_journaled_def
    by (rule journaled_new_succeeds) (simp_all add: example_context_def context_initial_def)
  then show ?thesis unfolding journaled_start_def by blast
qed

lemma start_journaled_reachable: "journaled_start j \<Longrightarrow> journaled_reachable j"
  unfolding journaled_reachable_def by blast

lemmas example_journaled_reachable = start_journaled_reachable [OF example_journaled_start]
lemmas example_journaled_inv = journaled_reachable_inv [OF example_journaled_reachable]

lemma journaled_running_kernel: "journaled_kernel journaled_running" "journaled_running_task journaled_running = Inr 1"
  "journaled_scheduled 1 journaled_running"
proof -
  have "dispatch_next (jr_runtime example_journaled) = (Inr (Some 1), dispatched 1 [] (jr_runtime example_journaled))"
    by (subst dispatch_next_eq) (use journaled_invD(6) [OF example_journaled_inv] in
      \<open>auto simp: runtime_inv_core example_journaled_def published_journaled_def published_sup_def ready_set_def\<close>)
  then have d: "journaled_dispatch_next example_journaled = (Inr (Some 1), journaled_running)"
    by (simp add: journaled_dispatch_next_def on_runtime_eq journaled_running_def)
  then show "journaled_kernel journaled_running" by (rule journaled_kernel.kernel_start [OF example_journaled_start])
  show s: "journaled_scheduled 1 journaled_running" by (rule journaled_start_scheduled [OF example_journaled_start d])
  then show "journaled_running_task journaled_running = Inr 1"
    using scheduledD(6) by (simp add: journaled_scheduled_def journaled_running_task_def)
qed

text \<open>The supervisor is about to commit a request that the workload has submitted and it has approved.\<close>

definition example_recorded :: JournaledRuntime where
  "example_recorded =
     \<lparr>jr_runtime = example_approved,
      jr_journal = (committed (decision_record Event_Approved Status_Ok 3 (the_request 1 42))
        (committed (requested_record 2 (the_request 1 42)) (journal_building\<lparr>ej_state := Journal_Live\<rparr>)))
        \<lparr>ej_reserved_record_count := 1\<rparr>\<rparr>"

lemma example_request_broker_facts:
  "ab_state example_request_broker = Broker_Approved" "ab_decision_epoch example_request_broker = 3"
  "ab_request example_request_broker = the_request 1 42" "ab_request_present example_request_broker"
  by (simp_all add: example_request_broker_def approved_broker_def submitted_broker_def fresh_broker_def
      broker_building_def the_request_def u64_MAX_def Let_def)

lemma example_recorded_journal:
  "journal_ok (jr_journal example_recorded)"
  "journal_log (jr_journal example_recorded) = numbered 0 [requested_record 2 (the_request 1 42),
     decision_record Event_Approved Status_Ok 3 (the_request 1 42)]"
proof -
  let ?a = "requested_record 2 (the_request 1 42)" and ?b = "decision_record Event_Approved Status_Ok 3 (the_request 1 42)"
  let ?k = "journal_building\<lparr>ej_state := Journal_Live\<rparr>"
  have k: "journal_ok ?k" "ej_state ?k \<noteq> Journal_Dead" by (simp_all add: journal_ok_published)
  have n: "unat (ej_committed_record_count ?k) = 0" "unat (ej_reserved_record_count ?k) = 0" "journal_log ?k = []"
    by (simp_all add: journal_building_def journal_log_def)
  have h: "header_ok ?a" "header_ok ?b" by (simp_all add: requested_record_def decision_record_def)
  have ok1: "journal_ok (committed ?a ?k)" by (rule committed_ok [OF k h(1)]) (simp only: n)
  have c1: "unat (ej_committed_record_count (committed ?a ?k)) = 1" "ej_reserved_record_count (committed ?a ?k) = 0"
    "ej_state (committed ?a ?k) \<noteq> Journal_Dead"
    by (simp_all add: committed_def journal_building_def)
  have l1: "journal_log (committed ?a ?k) = [sequenced 0 ?a]" using committed_log [OF k, of ?a] n by simp
  have ok2: "journal_ok (committed ?b (committed ?a ?k))" by (rule committed_ok [OF ok1 c1(3) h(2)]) (simp add: c1)
  have l2: "journal_log (committed ?b (committed ?a ?k)) = [sequenced 0 ?a, sequenced 1 ?b]"
    using committed_log [OF ok1 c1(3), of ?b] c1(1) l1 by simp
  show "journal_log (jr_journal example_recorded) = numbered 0 [?a, ?b]"
    using l2 by (simp add: example_recorded_def journal_log_def)
  show "journal_ok (jr_journal example_recorded)"
    unfolding example_recorded_def JournaledRuntime.simps
    by (rule reserve_ok [OF ok2]) (simp_all add: committed_def journal_building_def)
qed

lemma example_recorded_inv: "journaled_inv example_recorded"
proof -
  let ?r = example_approved
  have r: "rt_profile ?r = Profile_Supervised" "rt_broker ?r = example_request_broker"
    "ts_capabilities (rt_task0 ?r) = table_of Cap_Live 1 4 supervisor_entries" "ts_capabilities (rt_task1 ?r) = workload_table"
    by (simp_all add: example_approved_def launched_def supervisor_running_def dispatched_def example_supervised_def
        published_sup_def Let_def)
  have "sup_core ?r" "sched_inv ?r" using example_approved_inv core_profile r(1) by (auto simp: runtime_inv_core)
  moreover have "authority_inv ?r"
    using r table_allowed_of [of supervisor_entries Profile_Supervised 1] table_allowed_of [of "[workload_entry]" Profile_Supervised 2]
    by (simp add: authority_inv_def workload_table_of slot_allowed_def granted_entries_def nth_append)
  moreover have "journal_follows ?r (jr_journal example_recorded)"
  proof -
    have "request_logged example_request_broker (journal_log (jr_journal example_recorded))"
      unfolding example_recorded_journal(2) request_logged_def example_request_broker_facts logged_def
      by (auto simp: audit_def audit_step_def broker_phase_def sequenced_def intro!: exI [of _ "[]"])
    then show ?thesis
      using r by (simp add: journal_follows_def example_recorded_def expected_reserved_def example_request_broker_facts
          workload_table_of table_of_def committed_def)
  qed
  ultimately show ?thesis
    using example_recorded_journal(1) by (simp add: journaled_inv_def) (simp add: example_recorded_def)
qed

lemma example_recorded_commit:
  obtains j' where "journaled_handle_trap 1 example_recorded = (Inr (Outcome_Resume 1), j')"
    "rt_effect (jr_runtime j') \<noteq> rt_effect (jr_runtime example_recorded)"
proof -
  let ?j = example_recorded
  have r: "jr_runtime ?j = example_approved" by (simp add: example_recorded_def)
  have pre: "trap_pre 1 (jr_runtime ?j)" "trap_code 1 (jr_runtime ?j) = Some Op_CommitEffect"
    using example_approved_inv unfolding r
    by (simp_all add: trap_pre_def example_approved_def launched_def supervisor_running_def dispatched_def
        example_supervised_def published_sup_def from_trap_def trap_frame_def TrapOperation_parse_def Let_def)
  obtain r' where h: "handle_trap 1 (jr_runtime ?j) = (Inr (Outcome_Resume 1), r')" "rt_effect r' \<noteq> rt_effect (jr_runtime ?j)"
    using example_commit unfolding r by blast
  from pre h(1) show thesis
  proof (cases rule: commit_run_cases)
    case (refused st)
    then show ?thesis using h(2) by simp
  next
    case (committed arg)
    have "journaled_handle_trap 1 ?j = (Inr (Outcome_Resume 1),
        appended (outcome_record Event_Completed Status_Ok (ab_decision_epoch (rt_broker (jr_runtime ?j)) + 1)
          (ab_request (rt_broker (jr_runtime ?j)))) 0 r' ?j)"
      by (rule commit_journaled(1) [OF example_recorded_inv pre h(1) committed(4)])
        (use committed(6) answered_result [of 1] in simp_all)
    then show ?thesis by (rule that) (use h(2) in simp)
  qed
qed

section \<open>Validity and totality\<close>



text \<open>C17: user code cannot stop the journaled kernel, not even by filling the journal.  Whenever the kernel
  waits for a trap there is a running task, and for every trap frame of that task both the capture and
  the handler succeed.\<close>

theorem journaled_traps_never_fail:
  assumes "journaled_kernel j"
  shows "\<exists>t g. journaled_running_task j = Inr t \<and> journaled_generation j t = Inr g
    \<and> (\<forall>frame root. root \<noteq> 0 \<longrightarrow>
         (\<exists>j1 out j2. journaled_capture_trap t frame root g j = (Inr (), j1) \<and> journaled_handle_trap t j1 = (Inr out, j2)))"
proof -
  obtain t where s: "journaled_scheduled t j" using journaled_kernel_scheduled [OF assms] by blast
  then have r: "scheduled t (jr_runtime j)" by (simp add: journaled_scheduled_def)
  let ?g = "ts_generation (task_slot (jr_runtime j) t)"
  have "\<exists>j1 out j2. journaled_capture_trap t frame root ?g j = (Inr (), j1) \<and> journaled_handle_trap t j1 = (Inr out, j2)"
    if root: "root \<noteq> 0" for frame root
  proof -
    obtain j1 where c: "journaled_capture_trap t frame root ?g j = (Inr (), j1)"
      using captured_trap(1) [OF r root refl] by (simp add: journaled_capture_trap_def on_runtime_eq)
    from journaled_captured [OF s root c] show ?thesis using c by (cases rule: journaled_trap_total) blast+
  qed
  then show ?thesis
    using scheduledD(2,6) [OF r] by (auto simp: journaled_running_task_def journaled_generation_def runtime_generation_def)
qed

theorem journaled_traps_never_fail_witness:
  "journaled_kernel journaled_running \<and> (\<exists>t g. journaled_running_task journaled_running = Inr t
    \<and> (\<exists>j1 out j2. journaled_capture_trap t (trap_frame Op_SubmitApproval 0 0 0) 4096 g journaled_running = (Inr (), j1)
         \<and> journaled_handle_trap t j1 = (Inr out, j2)))"
proof -
  have "(4096 :: u64) \<noteq> 0" by simp
  with journaled_traps_never_fail [OF journaled_running_kernel(1)] journaled_running_kernel(1) show ?thesis by blast
qed



section \<open>The audit trail\<close>

lemma effect_change_records:
  assumes inv: "journaled_inv j" and h: "journaled_handle_trap t j = (x, j')"
    and ne: "rt_effect (jr_runtime j') \<noteq> rt_effect (jr_runtime j)"
  obtains rec where "effect_recorded (jr_runtime j) (jr_runtime j') rec"
    "journal_log (jr_journal j') = journal_log (jr_journal j) @ [sequenced (length (journal_log (jr_journal j))) rec]"
proof -
  have "running_task (jr_runtime j) = Inr t"
    using h ne by (auto simp: journaled_handle_trap_def act_bind_def split: sum.splits if_splits)
  then have "trap_pre t (jr_runtime j)"
    using running_task_iff [OF journaled_invD(6) [OF inv]] journaled_invD(6) [OF inv] by (simp add: trap_pre_def)
  from journaled_trap_outcome [OF inv this] h ne have "outcome_records t j (x, j')"
    by (auto simp: outcome_failed_def outcome_quiet_def)
  then obtain r' rec n where j': "j' = appended rec n r' j" "ej_state (jr_journal j) = Journal_Live" "header_ok rec"
      "unat (ej_committed_record_count (jr_journal j)) + unat n < 16" "unat n \<le> 2"
      "rt_effect r' = rt_effect (jr_runtime j) \<or> effect_recorded (jr_runtime j) r' rec"
    unfolding outcome_records_def by blast
  from appended_log(1) [OF inv j'(2-5)] j'(1,6) ne show thesis by (intro that [of rec]) auto
qed



text \<open>C6: the journal refines the life cycle of a request.  As long as it has not been reclaimed, its
  records are a run of the audit automaton (idle, requested, approved and back to idle by exactly one
  terminal record) that ends in the phase the broker is in; a sealed journal leaves no request open.\<close>

theorem journal_refines_lifecycle:
  assumes "journaled_reachable j" "ej_state (jr_journal j) \<noteq> Journal_Dead"
  shows "audit (journal_log (jr_journal j)) = Some (broker_phase (ab_state (rt_broker (jr_runtime j))))
    \<and> (ej_state (jr_journal j) = Journal_Sealed \<longrightarrow> audit (journal_log (jr_journal j)) = Some Audit_Idle)"
  using journaled_invD(5) [OF journaled_reachable_inv [OF assms(1)]] assms(2)
  by (cases "ej_state (jr_journal j)"; cases "ab_state (rt_broker (jr_runtime j))")
    (auto simp: journal_follows_def request_logged_def broker_phase_def)

theorem journal_refines_lifecycle_witness:
  "ej_state (jr_journal example_journaled) \<noteq> Journal_Dead \<and> audit (journal_log (jr_journal example_journaled)) = Some Audit_Idle"
proof -
  have s: "ej_state (jr_journal example_journaled) \<noteq> Journal_Dead"
    by (simp add: example_journaled_def published_journaled_def)
  show ?thesis
    using journal_refines_lifecycle [OF example_journaled_reachable s] s
    by (simp add: example_journaled_def published_journaled_def published_sup_def broker_phase_def fresh_broker_def)
qed

text \<open>C20: what the journal has shown it keeps showing.  A record read by sequence number reads the same
  after any calls, until the whole journal is reclaimed.\<close>

theorem journaled_records_immutable:
  assumes "journaled_inv j" "ej_state (jr_journal j) \<noteq> Journal_Dead" "journaled_step\<^sup>*\<^sup>* j j'"
    and "effect_record j n = Inr rec"
  shows "effect_record j' n = Inr rec"
proof -
  have r: "journal_readable j" using assms(1,2) by (simp add: journal_readable_def)
  note o = readable_open [OF r] readable_open [OF journaled_log.steps_invar [OF assms(3) r]]
  have rec: "0 < unat n" "unat n \<le> length (journal_log (jr_journal j))" "rec = journal_log (jr_journal j) ! (unat n - 1)"
    using assms(4) journal_record_eq_Inr [OF o(1), of n rec]
    by (auto simp: effect_record_def map_err_def split: sum.splits)
  then have "unat n - 1 < length (journal_log (jr_journal j))" by simp
  from journaled_log.steps_nth [OF assms(3) r this] rec have "journal_record (jr_journal j') n = Inr rec"
    unfolding journal_record_eq_Inr [OF o(2)] by auto
  then show ?thesis by (simp add: effect_record_def map_err_def)
qed

theorem journaled_records_immutable_witness:
  "\<exists>j'. journaled_handle_trap 1 example_recorded = (Inr (Outcome_Resume 1), j')
    \<and> effect_record j' 1 = Inr (sequenced 0 (requested_record 2 (the_request 1 42)))"
proof -
  obtain j' where h: "journaled_handle_trap 1 example_recorded = (Inr (Outcome_Resume 1), j')"
    by (rule example_recorded_commit)
  have live: "ej_state (jr_journal example_recorded) \<noteq> Journal_Dead" by (simp add: example_recorded_def committed_def)
  have "effect_record example_recorded 1 = Inr (sequenced 0 (requested_record 2 (the_request 1 42)))"
    using journal_record_eq_Inr [OF readable_open, of example_recorded 1 "sequenced 0 (requested_record 2 (the_request 1 42))"] example_recorded_inv live example_recorded_journal(2)
    by (auto simp: journal_readable_def effect_record_def map_err_def split: sum.splits)
  from journaled_records_immutable [OF example_recorded_inv live
      r_into_rtranclp [of journaled_step, OF journaled_trap [OF h]] this] h show ?thesis by blast
qed

section \<open>The end of the journal\<close>

lemma finish_succeeds:
  assumes inv: "journaled_inv j" and dead: "task_state (jr_runtime j) 1 = TaskState_Dead" "task_state (jr_runtime j) 2 = TaskState_Dead"
    and sealed: "ej_state (jr_journal j) = Journal_Sealed"
  shows "finish_reclamation j = (Inr (), j\<lparr>jr_journal := journal_DEAD\<rparr>)"
proof -
  note i = journaled_invD [OF inv]
  let ?j = "j\<lparr>jr_journal := journal_DEAD\<rparr>"
  have "journaled_inv ?j"
    using dead i journal_ok_dead slot_inv_table_state(2) [OF sup_coreD(1) [OF i(1)]] slot_inv_table_state(2) [OF sup_coreD(2) [OF i(1)]]
    by (simp add: journaled_inv_def journal_follows_def) (simp add: journal_DEAD_def)
  from journaled_inv_validate [OF this] show ?thesis
    using dead sealed i(4) journal_ok_iff [of "jr_journal j"]
    by (simp add: finish_reclamation_def rt_tasks_def journal_clear_dead_def journal_ok_def Let_def)
qed

text \<open>C19: an exit closes the books.  After an exit trap of the running task the first phase of teardown
  succeeds and seals the journal, in which every request now has its terminal record; the journal
  is not written again.  Unless the other task is a workload that was never launched, the second phase
  succeeds as well, and when it leaves every task dead the journal can be reclaimed.\<close>

theorem exit_seals_journal:
  assumes "journaled_kernel j" "journaled_running_task j = Inr t" "root \<noteq> 0"
    and "journaled_capture_trap t frame root g j = (Inr (), j1)" "journaled_handle_trap t j1 = (Inr (Outcome_Exit t), j2)"
  shows "\<exists>j3. journaled_begin_teardown t j2 = (Inr (), j3) \<and> ej_state (jr_journal j3) = Journal_Sealed
    \<and> audit (journal_log (jr_journal j3)) = Some Audit_Idle
    \<and> (\<exists>xs. journal_log (jr_journal j3) = journal_log (jr_journal j2) @ xs)
    \<and> (if journaled_state j (other t) = Inr TaskState_Staged
       then journaled_complete_teardown t j3 = (Inl Err_NoRunnableTask, j3)
       else \<exists>n j4. journaled_complete_teardown t j3 = (Inr n, j4) \<and> jr_journal j4 = jr_journal j3
         \<and> (case n of Some u \<Rightarrow> u = other t \<and> journaled_running_task j4 = Inr u
            | None \<Rightarrow> \<exists>j5. finish_reclamation j4 = (Inr (), j5) \<and> ej_state (jr_journal j5) = Journal_Dead))"
proof -
  have s: "journaled_scheduled t j"
    using journaled_kernel_scheduled [OF assms(1)] assms(2) running_scheduled by blast
  have s1: "journaled_scheduled t j1" by (rule journaled_captured [OF s assms(3,4)])
  have t: "valid_task t" using s scheduledD(2) by (auto simp: journaled_scheduled_def)
  have "task_state (jr_runtime j1) (other t) = task_state (jr_runtime j) (other t)"
    using assms(4) t by (auto simp: journaled_capture_trap_def on_runtime_eq capture_trap_eq valid_task_def split: if_splits)
  note e = journaled_exit_completes [OF s1 assms(5)] and same = this
  let ?j3 = "torn_down t j2"
  have i2: "journaled_inv j2" by (rule journaled_trap_step(1) [OF _ assms(5)]) (use s1 in \<open>simp add: journaled_scheduled_def\<close>)
  have log: "\<exists>xs. journal_log (jr_journal ?j3) = journal_log (jr_journal j2) @ xs"
    using journaled_begin_step(2) [OF i2 e(1)] .
  have idle: "audit (journal_log (jr_journal ?j3)) = Some Audit_Idle"
    using journaled_invD(5) [OF e(2)] e(3) by (simp add: journal_follows_def)
  have st: "journaled_state j (other t) = Inr TaskState_Staged \<longleftrightarrow> task_state (jr_runtime ?j3) (other t) = TaskState_Staged"
    using t e(6) same by (auto simp: journaled_state_def runtime_state_def unblocked_def split: if_splits)
  from e(7) consider "task_state (jr_runtime ?j3) (other t) = TaskState_Ready"
    | "task_state (jr_runtime ?j3) (other t) = TaskState_Dead" | "task_state (jr_runtime ?j3) (other t) = TaskState_Staged" by auto
  then show ?thesis
  proof cases
    case 1
    from journaled_complete_outcome(1) [OF e(2) t e(4,5) 1] obtain j4 where
      c: "journaled_complete_teardown t ?j3 = (Inr (Some (other t)), j4)" "journaled_scheduled (other t) j4" by blast
    have "journaled_running_task j4 = Inr (other t)"
      using c(2) scheduledD(6) by (simp add: journaled_scheduled_def journaled_running_task_def)
    then show ?thesis
      using e(1,3) idle log st 1 c(1) journaled_complete_step(2) [OF e(2) c(1)] by (intro exI [of _ ?j3]) simp
  next
    case 2
    from journaled_complete_outcome(2) [OF e(2) t e(4,5) 2] obtain j4 where
      c: "journaled_complete_teardown t ?j3 = (Inr None, j4)" "journaled_inv j4" "jr_journal j4 = jr_journal ?j3"
        "task_state (jr_runtime j4) 1 = TaskState_Dead" "task_state (jr_runtime j4) 2 = TaskState_Dead" by blast
    have "finish_reclamation j4 = (Inr (), j4\<lparr>jr_journal := journal_DEAD\<rparr>)"
      by (rule finish_succeeds [OF c(2,4,5)]) (simp add: c(3) e(3))
    then show ?thesis
      using e(1,3) idle log st 2 c(1,3) by (intro exI [of _ ?j3]) (simp add: journal_DEAD_def)
  next
    case 3
    then show ?thesis
      using e(1,3) idle log st journaled_complete_outcome(3) [OF e(2) t e(4,5) 3] by (intro exI [of _ ?j3]) simp
  qed
qed

lemma journaled_exit_trap:
  assumes s: "journaled_scheduled t j" and "root \<noteq> 0" "g = ts_generation (task_slot (jr_runtime j) t)"
  shows "\<exists>j1 j2. journaled_capture_trap t (trap_frame Op_Exit 0 0 0) root g j = (Inr (), j1)
    \<and> journaled_handle_trap t j1 = (Inr (Outcome_Exit t), j2)"
proof -
  have r: "scheduled t (jr_runtime j)" using s by (simp add: journaled_scheduled_def)
  obtain r1 r2 where c: "capture_trap t (trap_frame Op_Exit 0 0 0) root g (jr_runtime j) = (Inr (), r1)"
      "handle_trap t r1 = (Inr (Outcome_Exit t), r2)"
    using exit_trap [OF r assms(2,3)] by blast
  let ?j1 = "j\<lparr>jr_runtime := r1\<rparr>"
  have j1: "journaled_capture_trap t (trap_frame Op_Exit 0 0 0) root g j = (Inr (), ?j1)"
    using c(1) by (simp add: journaled_capture_trap_def on_runtime_eq)
  have s1: "journaled_scheduled t ?j1" by (rule journaled_captured [OF s assms(2) j1])
  have d: "scheduled t r1" using s1 by (simp add: journaled_scheduled_def)
  have "trap_code t r1 = Some Op_Exit"
    using captured_trap(1) [OF r assms(2,3)] c(1) scheduledD(2) [OF r]
    by (auto simp: task_slot_upd from_trap_def trap_frame_def TrapOperation_parse_def)
  then have "outcome_quiet t ?j1 (journaled_handle_trap t ?j1)"
    using trap_quiet_cases [of ?j1 t] s1 scheduledD(1) [OF d] c(2) by (simp add: journaled_scheduled_def)
  moreover have "fst (journaled_handle_trap t ?j1) = Inr (Outcome_Exit t)"
    using journaled_handle_trap_eq [of t ?j1] scheduledD(1) [OF d] c(2) \<open>trap_code t r1 = Some Op_Exit\<close> calculation
    by (auto simp: outcome_quiet_def Let_def journal_trap_def split: sum.splits option.splits if_splits)
  ultimately show ?thesis using j1 by (metis prod.collapse)
qed

theorem exit_seals_journal_witness:
  "\<exists>j1 j2 j3. journaled_capture_trap 1 (trap_frame Op_Exit 0 0 0) 4096 4 journaled_running = (Inr (), j1)
    \<and> journaled_handle_trap 1 j1 = (Inr (Outcome_Exit 1), j2)
    \<and> journaled_begin_teardown 1 j2 = (Inr (), j3) \<and> ej_state (jr_journal j3) = Journal_Sealed"
proof -
  have "ts_generation (task_slot (jr_runtime journaled_running) 1) = 4"
    by (simp add: journaled_running_def dispatched_def example_journaled_def published_journaled_def published_sup_def
        example_context_def context_initial_def)
  then obtain j1 j2 where h: "journaled_capture_trap 1 (trap_frame Op_Exit 0 0 0) 4096 4 journaled_running = (Inr (), j1)"
      "journaled_handle_trap 1 j1 = (Inr (Outcome_Exit 1), j2)"
    using journaled_exit_trap [OF journaled_running_kernel(3), of 4096 4] by auto
  from exit_seals_journal [OF journaled_running_kernel(1,2) _ h] h show ?thesis by auto
qed

text \<open>C26: a failed publication of the journaled profile leaves nothing behind, whatever step of it fails:
  both slots are dead and hold no capability, the journal is dead, and the state is valid.\<close>

theorem failed_journaled_publication_rolls_back:
  assumes "journaled_publish_supervisor fail (journaled_unpublished s w) = (Inl e, j)"
  shows "journaled_state j SENDER_TASK_ID = Inr TaskState_Dead \<and> journaled_state j RECEIVER_TASK_ID = Inr TaskState_Dead
    \<and> ts_capabilities (rt_task0 (jr_runtime j)) = table_dead \<and> ts_capabilities (rt_task1 (jr_runtime j)) = table_dead
    \<and> jr_journal j = journal_DEAD \<and> runtime_validate (jr_runtime j) = Inr ()"
proof -
  have "journaled_rolled_back j"
    by (rule journaled_publish_failed [OF assms]) (simp add: journaled_unpublished_def unpublished_frames)
  then have inv: "runtime_inv (jr_runtime j)" and dead: "ts_state (rt_task0 (jr_runtime j)) = TaskState_Dead"
      "ts_state (rt_task1 (jr_runtime j)) = TaskState_Dead" and k: "jr_journal j = journal_DEAD"
    by (simp_all add: journaled_rolled_back_def rolled_back_def)
  have "slot_inv 1 (rt_task0 (jr_runtime j))" "slot_inv 2 (rt_task1 (jr_runtime j))"
    using inv core_slots by (auto simp: runtime_inv_core slots_inv_def)
  then show ?thesis
    using dead k dead_table runtime_inv_validate [OF inv] by (simp add: journaled_state_def runtime_state_def)
qed

theorem failed_journaled_publication_rolls_back_witness:
  "let res = journaled_publish_supervisor (Some 0) (journaled_unpublished (example_context 1 4) (example_context 2 5))
   in is_err (fst res) \<and> jr_journal (snd res) = journal_DEAD"
proof -
  let ?p = "journaled_publish_supervisor (Some 0) (journaled_unpublished (example_context 1 4) (example_context 2 5))"
  have "is_err (fst ?p)" by (simp add: journaled_publish_supervisor_def)
  then obtain e j where eq: "?p = (Inl e, j)" by (cases "fst ?p"; cases ?p) (auto simp: is_err_def)
  show ?thesis using failed_journaled_publication_rolls_back [OF eq] by (simp add: eq Let_def)
qed

end
