(* ===== verification/Boot_Contract.thy ===== *)
theory Boot_Contract
  imports Prelude
begin

text \<open>
  The handoff that the loader gives the kernel: its data and its validation, from
  \<open>crates/boot-contract/src/lib.rs\<close> and \<open>validate.rs\<close>.  The structs are \<open>repr(C)\<close>, so their sizes and
  alignments are constants here.  A slice is its address and its elements.  The lemmas say which byte
  ranges a validated handoff separates.
\<close>


section \<open>Data\<close>

definition HANDOFF_MAGIC :: "u8 list" where
  "HANDOFF_MAGIC = [0x4d, 0x41, 0x4b, 0x4f, 0x50, 0x41, 0, 0]"

definition ABI_MAJOR :: u16 where [simp, const_simps]: "ABI_MAJOR = 1"
definition ABI_MINOR :: u16 where [simp, const_simps]: "ABI_MINOR = 0"
definition FRAMEBUFFER_PRESENT :: u32 where [simp, const_simps]: "FRAMEBUFFER_PRESENT = 1"
definition PAGE_SIZE :: u64 where [simp, const_simps]: "PAGE_SIZE = 4096"
definition MAX_MEMORY_REGIONS :: nat where [simp, const_simps]: "MAX_MEMORY_REGIONS = 1024"

definition MEMORY_RESERVED :: u32 where [simp, const_simps]: "MEMORY_RESERVED = 0"
definition MEMORY_USABLE :: u32 where [simp, const_simps]: "MEMORY_USABLE = 1"
definition MEMORY_LOADER_RECLAIMABLE :: u32 where [simp, const_simps]: "MEMORY_LOADER_RECLAIMABLE = 2"
definition MEMORY_ACPI_RECLAIMABLE :: u32 where [simp, const_simps]: "MEMORY_ACPI_RECLAIMABLE = 3"
definition MEMORY_ACPI_NVS :: u32 where [simp, const_simps]: "MEMORY_ACPI_NVS = 4"
definition MEMORY_MMIO :: u32 where [simp, const_simps]: "MEMORY_MMIO = 5"

definition PIXEL_FORMAT_UNAVAILABLE :: u32 where [simp, const_simps]: "PIXEL_FORMAT_UNAVAILABLE = 0"
definition PIXEL_FORMAT_RGB :: u32 where [simp, const_simps]: "PIXEL_FORMAT_RGB = 1"
definition PIXEL_FORMAT_BGR :: u32 where [simp, const_simps]: "PIXEL_FORMAT_BGR = 2"

text \<open>\<open>size_of\<close> and \<open>align_of\<close> of the \<open>repr(C)\<close> structs below.\<close>

definition HEADER_SIZE :: nat where [simp, const_simps]: "HEADER_SIZE = 32"
definition REGION_SIZE :: nat where [simp, const_simps]: "REGION_SIZE = 24"
definition HANDOFF_SIZE :: nat where [simp, const_simps]: "HANDOFF_SIZE = 88"
definition STRUCT_ALIGN :: u64 where [simp, const_simps]: "STRUCT_ALIGN = 8"

definition is_known_memory_kind :: "u32 \<Rightarrow> bool" where
  "is_known_memory_kind kind = (kind \<le> MEMORY_MMIO)"

record BootHandoffHeaderV1 =
  hh_magic :: "u8 list"
  hh_abi_major :: u16
  hh_abi_minor :: u16
  hh_header_size :: u32
  hh_handoff_size :: u32
  hh_flags :: u32
  hh_reserved :: u64

record MemoryRegionV1 =
  mr_physical_start :: u64
  mr_page_count :: u64
  mr_kind :: u32
  mr_attributes :: u32

record FramebufferV1 =
  fb_physical_start :: u64
  fb_byte_length :: u64
  fb_width :: u32
  fb_height :: u32
  fb_stride_pixels :: u32
  fb_pixel_format :: u32
  fb_reserved :: u64

record BootHandoffV1 =
  bh_header :: BootHandoffHeaderV1
  bh_memory_regions_address :: u64
  bh_memory_region_count :: u32
  bh_memory_region_entry_size :: u32
  bh_framebuffer :: FramebufferV1

definition header_new :: BootHandoffHeaderV1 where
  "header_new =
     \<lparr>hh_magic = HANDOFF_MAGIC, hh_abi_major = ABI_MAJOR, hh_abi_minor = ABI_MINOR,
      hh_header_size = of_nat HEADER_SIZE, hh_handoff_size = of_nat HANDOFF_SIZE, hh_flags = 0, hh_reserved = 0\<rparr>"

definition is_v1 :: "BootHandoffHeaderV1 \<Rightarrow> bool" where
  "is_v1 h \<longleftrightarrow> hh_magic h = HANDOFF_MAGIC \<and> hh_abi_major h = ABI_MAJOR \<and> hh_abi_minor h = ABI_MINOR
     \<and> hh_header_size h = of_nat HEADER_SIZE \<and> hh_handoff_size h = of_nat HANDOFF_SIZE
     \<and> hh_flags h AND NOT FRAMEBUFFER_PRESENT = 0 \<and> hh_reserved h = 0"

definition framebuffer_is_zero :: "FramebufferV1 \<Rightarrow> bool" where
  "framebuffer_is_zero f \<longleftrightarrow> fb_physical_start f = 0 \<and> fb_byte_length f = 0 \<and> fb_width f = 0 \<and> fb_height f = 0
     \<and> fb_stride_pixels f = 0 \<and> fb_pixel_format f = 0 \<and> fb_reserved f = 0"

definition handoff_empty :: BootHandoffV1 where
  "handoff_empty =
     \<lparr>bh_header = header_new, bh_memory_regions_address = 0, bh_memory_region_count = 0,
      bh_memory_region_entry_size = of_nat REGION_SIZE,
      bh_framebuffer = \<lparr>fb_physical_start = 0, fb_byte_length = 0, fb_width = 0, fb_height = 0,
        fb_stride_pixels = 0, fb_pixel_format = PIXEL_FORMAT_UNAVAILABLE, fb_reserved = 0\<rparr>\<rparr>"

definition is_empty_v1 :: "BootHandoffV1 \<Rightarrow> bool" where
  "is_empty_v1 h \<longleftrightarrow> is_v1 (bh_header h) \<and> hh_flags (bh_header h) = 0 \<and> bh_memory_regions_address h = 0
     \<and> bh_memory_region_count h = 0 \<and> bh_memory_region_entry_size h = of_nat REGION_SIZE
     \<and> framebuffer_is_zero (bh_framebuffer h)"


section \<open>Validation\<close>

datatype ValidationError =
    Invalid_Magic | Invalid_AbiMajor | Invalid_AbiMinor | Invalid_HeaderSize | Invalid_HandoffSize
  | Invalid_Flags | Invalid_Reserved | Invalid_HandoffAddress | Invalid_RegionAddress | Invalid_RegionCount
  | Invalid_RegionEntrySize | Invalid_RegionSlice | Invalid_RegionZeroPages | Invalid_RegionAlignment
  | Invalid_RegionOverflow | Invalid_RegionOrder | Invalid_RegionOverlap | Invalid_RegionKind
  | Invalid_RegionAttributes | Invalid_HandoffInUsableMemory | Invalid_RegionArrayInUsableMemory
  | Invalid_FramebufferFlag | Invalid_FramebufferFields | Invalid_FramebufferPixelFormat
  | Invalid_FramebufferStride | Invalid_FramebufferLength | Invalid_FramebufferOverflow
  | Invalid_FramebufferInUsableMemory

definition validate_header :: "BootHandoffHeaderV1 \<Rightarrow> ValidationError + unit" where
  "validate_header h =
     (if hh_magic h \<noteq> HANDOFF_MAGIC then Inl Invalid_Magic
      else if hh_abi_major h \<noteq> ABI_MAJOR then Inl Invalid_AbiMajor
      else if hh_abi_minor h \<noteq> ABI_MINOR then Inl Invalid_AbiMinor
      else if hh_header_size h \<noteq> of_nat HEADER_SIZE then Inl Invalid_HeaderSize
      else if hh_handoff_size h \<noteq> of_nat HANDOFF_SIZE then Inl Invalid_HandoffSize
      else if hh_flags h AND NOT FRAMEBUFFER_PRESENT \<noteq> 0 then Inl Invalid_Flags
      else if hh_reserved h \<noteq> 0 then Inl Invalid_Reserved
      else Inr ())"

definition validate_framebuffer_shape :: "BootHandoffV1 \<Rightarrow> ValidationError + unit" where
  "validate_framebuffer_shape handoff =
     (let present = (hh_flags (bh_header handoff) AND FRAMEBUFFER_PRESENT \<noteq> 0); f = bh_framebuffer handoff
      in if \<not> present
         then (if framebuffer_is_zero f then Inr () else Inl Invalid_FramebufferFlag)
         else if fb_physical_start f = 0 \<or> fb_byte_length f = 0 \<or> fb_width f = 0 \<or> fb_height f = 0
           \<or> fb_stride_pixels f = 0 \<or> fb_reserved f \<noteq> 0
         then Inl Invalid_FramebufferFields
         else if fb_pixel_format f \<noteq> PIXEL_FORMAT_RGB \<and> fb_pixel_format f \<noteq> PIXEL_FORMAT_BGR
         then Inl Invalid_FramebufferPixelFormat
         else if fb_stride_pixels f < fb_width f then Inl Invalid_FramebufferStride
         else
           and_then (ok_or (Option.bind (checked_mul (ucast (fb_stride_pixels f) :: u64) (ucast (fb_height f)))
                       (\<lambda>pixels. checked_mul pixels 4)) Invalid_FramebufferOverflow)
             (\<lambda>minimum_length.
                if minimum_length > fb_byte_length f then Inl Invalid_FramebufferLength
                else
                  and_then (ok_or (checked_add (fb_physical_start f) (fb_byte_length f)) Invalid_FramebufferOverflow)
                    (\<lambda>_. Inr ())))"

definition validate_handoff_header :: "BootHandoffV1 \<Rightarrow> ValidationError + nat" where
  "validate_handoff_header handoff =
     and_then (validate_header (bh_header handoff)) (\<lambda>_.
       if bh_memory_region_count handoff = 0 \<or> unat (bh_memory_region_count handoff) > MAX_MEMORY_REGIONS
       then Inl Invalid_RegionCount
       else if bh_memory_regions_address handoff = 0
         \<or> \<not> is_multiple_of (bh_memory_regions_address handoff) STRUCT_ALIGN
       then Inl Invalid_RegionAddress
       else if bh_memory_region_entry_size handoff \<noteq> of_nat REGION_SIZE then Inl Invalid_RegionEntrySize
       else
         (let region_count = unat (bh_memory_region_count handoff); region_bytes = region_count * REGION_SIZE
          in if region_bytes \<ge> 2 ^ 64 then Inl Invalid_RegionOverflow
             else
               and_then (ok_or (checked_add (bh_memory_regions_address handoff) (of_nat region_bytes))
                   Invalid_RegionOverflow) (\<lambda>_.
                 and_then (validate_framebuffer_shape handoff) (\<lambda>_. Inr region_count))))"

definition validate_region_end :: "MemoryRegionV1 \<Rightarrow> ValidationError + u64" where
  "validate_region_end r =
     and_then (ok_or (checked_mul (mr_page_count r) PAGE_SIZE) Invalid_RegionOverflow)
       (\<lambda>bytes. ok_or (checked_add (mr_physical_start r) bytes) Invalid_RegionOverflow)"

fun overlaps_usable :: "u64 \<Rightarrow> u64 \<Rightarrow> MemoryRegionV1 list \<Rightarrow> ValidationError + bool" where
  "overlaps_usable start end' [] = Inr False"
| "overlaps_usable start end' (r # rs) =
     (if mr_kind r \<noteq> MEMORY_USABLE then overlaps_usable start end' rs
      else
        and_then (validate_region_end r) (\<lambda>region_end.
          if start < region_end \<and> mr_physical_start r < end' then Inr True
          else overlaps_usable start end' rs))"

text \<open>The loop over the regions, with the start and the end of the region before.\<close>

fun validate_regions :: "u64 option \<Rightarrow> u64 option \<Rightarrow> MemoryRegionV1 list \<Rightarrow> ValidationError + unit" where
  "validate_regions previous_start previous_end [] = Inr ()"
| "validate_regions previous_start previous_end (r # rs) =
     (if mr_page_count r = 0 then Inl Invalid_RegionZeroPages
      else if \<not> is_multiple_of (mr_physical_start r) PAGE_SIZE then Inl Invalid_RegionAlignment
      else if \<not> is_known_memory_kind (mr_kind r) then Inl Invalid_RegionKind
      else if mr_attributes r \<noteq> 0 then Inl Invalid_RegionAttributes
      else
        and_then (validate_region_end r) (\<lambda>end'.
          if (case previous_start of None \<Rightarrow> False | Some start \<Rightarrow> mr_physical_start r < start)
          then Inl Invalid_RegionOrder
          else if (case previous_end of None \<Rightarrow> False | Some prior \<Rightarrow> mr_physical_start r < prior)
          then Inl Invalid_RegionOverlap
          else validate_regions (Some (mr_physical_start r)) (Some end') rs))"

text \<open>Fail with the given error if the range overlaps usable memory.\<close>

definition reject_usable :: "ValidationError \<Rightarrow> u64 \<Rightarrow> u64 \<Rightarrow> MemoryRegionV1 list \<Rightarrow> ValidationError + unit" where
  "reject_usable error start end' regions =
     and_then (overlaps_usable start end' regions) (\<lambda>overlap. if overlap then Inl error else Inr ())"

definition validate_handoff ::
  "BootHandoffV1 \<Rightarrow> u64 \<Rightarrow> u64 \<Rightarrow> MemoryRegionV1 list \<Rightarrow> ValidationError + unit" where
  "validate_handoff handoff handoff_address slice_address regions =
     and_then (validate_handoff_header handoff) (\<lambda>region_count.
       if handoff_address = 0 \<or> \<not> is_multiple_of handoff_address STRUCT_ALIGN then Inl Invalid_HandoffAddress
       else
         and_then (ok_or (checked_add handoff_address (of_nat HANDOFF_SIZE)) Invalid_HandoffAddress) (\<lambda>handoff_end.
           if length regions \<noteq> region_count \<or> bh_memory_regions_address handoff \<noteq> slice_address
           then Inl Invalid_RegionSlice
           else
             and_then (validate_regions None None regions) (\<lambda>_.
             and_then (reject_usable Invalid_HandoffInUsableMemory handoff_address handoff_end regions) (\<lambda>_.
             and_then (ok_or (checked_add (bh_memory_regions_address handoff) (of_nat (region_count * REGION_SIZE)))
                 Invalid_RegionOverflow) (\<lambda>region_array_end.
             and_then (reject_usable Invalid_RegionArrayInUsableMemory (bh_memory_regions_address handoff)
                 region_array_end regions) (\<lambda>_.
               if hh_flags (bh_header handoff) AND FRAMEBUFFER_PRESENT \<noteq> 0
               then
                 and_then (ok_or (checked_add (fb_physical_start (bh_framebuffer handoff))
                     (fb_byte_length (bh_framebuffer handoff))) Invalid_FramebufferOverflow) (\<lambda>framebuffer_end.
                   reject_usable Invalid_FramebufferInUsableMemory (fb_physical_start (bh_framebuffer handoff))
                     framebuffer_end regions)
               else Inr ()))))))"

text \<open>A new header and the empty handoff are what the other side accepts as such.\<close>

lemma header_new_v1: "is_v1 header_new" "validate_header header_new = Inr ()"
  by (simp_all add: is_v1_def header_new_def validate_header_def)

lemma validate_header_iff: "validate_header h = Inr () \<longleftrightarrow> is_v1 h"
  by (simp add: validate_header_def is_v1_def)

lemma handoff_empty_v1: "is_empty_v1 handoff_empty"
  using header_new_v1(1) by (simp add: is_empty_v1_def handoff_empty_def framebuffer_is_zero_def)
    (simp add: header_new_def)


section \<open>Byte ranges\<close>

text \<open>The end of a region as a number; the checked arithmetic computes it when it fits in 64 bits.\<close>

definition region_limit :: "MemoryRegionV1 \<Rightarrow> nat" where
  "region_limit r = unat (mr_physical_start r) + 4096 * unat (mr_page_count r)"

definition region_bytes :: "MemoryRegionV1 \<Rightarrow> nat set" where
  "region_bytes r = {unat (mr_physical_start r) ..< region_limit r}"

definition usable_bytes :: "MemoryRegionV1 list \<Rightarrow> nat set" where
  "usable_bytes rs = (\<Union>r \<in> {r \<in> set rs. mr_kind r = MEMORY_USABLE}. region_bytes r)"

lemma unat_of_nat_u64: "n < 2 ^ 64 \<Longrightarrow> unat (of_nat n :: u64) = n"
  by (simp add: unsigned_of_nat take_bit_nat_eq_self)

lemma unat_numeral_4096: "unat (4096 :: u64) = 4096"
  by simp

lemma checked_add_iff: "checked_add (a :: u64) b = Some c \<longleftrightarrow> unat a + unat b < 2 ^ 64 \<and> unat c = unat a + unat b"
proof
  assume "checked_add a b = Some c"
  then show "unat a + unat b < 2 ^ 64 \<and> unat c = unat a + unat b"
    using checked_add_SomeD [of a b c] by (simp add: checked_add_def split: if_splits)
next
  assume h: "unat a + unat b < 2 ^ 64 \<and> unat c = unat a + unat b"
  then have "checked_add a b = Some (a + b)" by (simp add: checked_add_def)
  moreover from this have "unat (a + b) = unat c" using checked_add_SomeD h by auto
  ultimately show "checked_add a b = Some c" by (simp only: word_unat_eq_iff [symmetric])
qed

lemma checked_add_ok:
  "unat (a :: u64) + unat b < 2 ^ 64 \<Longrightarrow> checked_add a b = Some (a + b)"
  "unat (a :: u64) + unat b < 2 ^ 64 \<Longrightarrow> unat (a + b) = unat a + unat b"
proof -
  assume h: "unat a + unat b < 2 ^ 64"
  then show c: "checked_add a b = Some (a + b)" by (simp add: checked_add_def)
  show "unat (a + b) = unat a + unat b" using checked_add_SomeD [OF c] by simp
qed

lemma checked_mul_iff: "checked_mul (a :: u64) b = Some c \<longleftrightarrow> unat a * unat b < 2 ^ 64 \<and> unat c = unat a * unat b"
proof
  assume "checked_mul a b = Some c"
  then show "unat a * unat b < 2 ^ 64 \<and> unat c = unat a * unat b"
    using checked_mul_SomeD [of a b c] by (simp add: checked_mul_def split: if_splits)
next
  assume h: "unat a * unat b < 2 ^ 64 \<and> unat c = unat a * unat b"
  then have "checked_mul a b = Some (a * b)" by (simp add: checked_mul_def)
  moreover from this have "unat (a * b) = unat c" using checked_mul_SomeD h by auto
  ultimately show "checked_mul a b = Some c" by (simp only: word_unat_eq_iff [symmetric])
qed

lemma page_range_end:
  "Option.bind (checked_mul (pages :: u64) 4096) (checked_add start) = Some e \<longleftrightarrow>
     unat start + 4096 * unat pages < 2 ^ 64 \<and> unat e = unat start + 4096 * unat pages" (is "?L \<longleftrightarrow> ?R")
proof -
  have "?L \<longleftrightarrow> (\<exists>m. checked_mul pages 4096 = Some m \<and> checked_add start m = Some e)"
    by (simp add: bind_eq_Some_conv)
  also have "\<dots> \<longleftrightarrow> (\<exists>m :: u64. unat pages * 4096 < 2 ^ 64 \<and> unat m = unat pages * 4096
      \<and> unat start + unat m < 2 ^ 64 \<and> unat e = unat start + unat m)"
    by (simp only: checked_mul_iff checked_add_iff unat_numeral_4096 conj_assoc)
  also have "\<dots> \<longleftrightarrow> ?R"
  proof
    assume ?R
    then have "unat (of_nat (unat pages * 4096) :: u64) = unat pages * 4096"
      by (intro unat_of_nat_u64) simp
    with \<open>?R\<close> show "\<exists>m :: u64. unat pages * 4096 < 2 ^ 64 \<and> unat m = unat pages * 4096
        \<and> unat start + unat m < 2 ^ 64 \<and> unat e = unat start + unat m"
      by (intro exI [of _ "of_nat (unat pages * 4096)"]) simp
  qed auto
  finally show ?thesis .
qed

lemma page_range_None:
  "Option.bind (checked_mul (pages :: u64) 4096) (checked_add start) = None \<longleftrightarrow>
     2 ^ 64 \<le> unat start + 4096 * unat pages"
proof -
  have "(\<exists>e. Option.bind (checked_mul pages 4096) (checked_add start) = Some e) \<longleftrightarrow>
      unat start + 4096 * unat pages < 2 ^ 64"
    unfolding page_range_end using unat_of_nat_u64 [of "unat start + 4096 * unat pages"] by blast
  then show ?thesis by (metis not_le not_None_eq)
qed

lemma validate_region_end_iff:
  "validate_region_end r = Inr e \<longleftrightarrow> region_limit r < 2 ^ 64 \<and> unat e = region_limit r"
proof -
  have "validate_region_end r = Inr e \<longleftrightarrow>
      Option.bind (checked_mul (mr_page_count r) 4096) (checked_add (mr_physical_start r)) = Some e"
    by (auto simp: validate_region_end_def and_then_eq_Inr bind_eq_Some_conv)
  then show ?thesis by (simp only: page_range_end region_limit_def)
qed

definition region_ok :: "MemoryRegionV1 \<Rightarrow> bool" where
  "region_ok r \<longleftrightarrow> mr_page_count r \<noteq> 0 \<and> 4096 dvd unat (mr_physical_start r) \<and> is_known_memory_kind (mr_kind r)
     \<and> mr_attributes r = 0 \<and> region_limit r < 2 ^ 64"

text \<open>Well-formed memory maps: every region is well formed and ends before the next one starts.\<close>

definition map_ok :: "MemoryRegionV1 list \<Rightarrow> bool" where
  "map_ok rs \<longleftrightarrow> list_all region_ok rs
     \<and> sorted_wrt (\<lambda>a b. region_limit a \<le> unat (mr_physical_start b)) rs"

lemma page_aligned: "is_multiple_of (a :: u64) 4096 \<longleftrightarrow> 4096 dvd unat a"
  by (simp add: is_multiple_of_iff_dvd)

lemma limit_start: "region_ok r \<Longrightarrow> unat (mr_physical_start r) < region_limit r"
  by (simp add: region_ok_def region_limit_def unat_gt_0)

lemma validate_regions_step:
  "validate_regions ps pe (r # rs) = Inr () \<longleftrightarrow>
     region_ok r \<and> (\<forall>s. ps = Some s \<longrightarrow> s \<le> mr_physical_start r) \<and> (\<forall>e. pe = Some e \<longrightarrow> e \<le> mr_physical_start r)
     \<and> (\<exists>e. unat e = region_limit r \<and> validate_regions (Some (mr_physical_start r)) (Some e) rs = Inr ())"
proof (cases "\<exists>e. validate_region_end r = Inr e")
  case True
  then obtain e where e: "validate_region_end r = Inr e" by blast
  then have "region_limit r < 2 ^ 64" "unat e = region_limit r" by (simp_all add: validate_region_end_iff)
  then show ?thesis
    using e by (auto simp: region_ok_def page_aligned not_less word_unat_eq_iff split: option.splits)
      (metis word_unat_eq_iff)+
next
  case False
  then obtain x where "validate_region_end r = Inl x" by (cases "validate_region_end r") auto
  moreover have "\<not> region_ok r"
    using False unat_of_nat_u64 [of "region_limit r"]
    by (auto simp: region_ok_def validate_region_end_iff)
  ultimately show ?thesis by simp
qed

lemma validate_regions_iff:
  "validate_regions ps pe rs = Inr () \<longleftrightarrow>
     map_ok rs \<and> (rs \<noteq> [] \<longrightarrow> (\<forall>s. ps = Some s \<longrightarrow> s \<le> mr_physical_start (hd rs))
       \<and> (\<forall>e. pe = Some e \<longrightarrow> e \<le> mr_physical_start (hd rs)))"
proof (induction rs arbitrary: ps pe)
  case Nil
  then show ?case by (simp add: map_ok_def)
next
  case (Cons r rs)
  show ?case
  proof (cases "region_ok r")
    case True
    then have "region_limit r < 2 ^ 64" by (simp add: region_ok_def)
    then obtain e :: u64 where e: "unat e = region_limit r" using unat_of_nat_u64 by blast
    then have u: "unat e' = region_limit r \<longleftrightarrow> e' = e" for e' :: u64 by (metis word_unat_eq_iff)
    have sr: "mr_physical_start r \<le> e" using limit_start [OF True] e by (simp add: word_le_nat_alt)
    have "map_ok rs \<and> (rs \<noteq> [] \<longrightarrow> e \<le> mr_physical_start (hd rs)) \<longleftrightarrow> map_ok (r # rs)"
      using True limit_start e
      by (cases rs) (fastforce simp: map_ok_def word_le_nat_alt list_all_iff)+
    then show ?thesis
      unfolding validate_regions_step Cons.IH u using True sr by (auto simp: map_ok_def intro: order_trans)
  next
    case False
    then show ?thesis unfolding validate_regions_step by (simp add: map_ok_def)
  qed
qed

section \<open>Usable memory\<close>

lemma disjnt_intervals:
  assumes "(a :: nat) < b" "c < d"
  shows "disjnt {a ..< b} {c ..< d} \<longleftrightarrow> b \<le> c \<or> d \<le> a"
proof
  assume "disjnt {a ..< b} {c ..< d}"
  then have "\<not> (max a c \<in> {a ..< b} \<and> max a c \<in> {c ..< d})" unfolding disjnt_iff by blast
  then show "b \<le> c \<or> d \<le> a" using assms by (simp add: max_def split: if_splits)
qed (auto simp: disjnt_iff)

lemma overlaps_usable_iff:
  assumes "list_all region_ok rs" "start < end'"
  shows "overlaps_usable start end' rs = Inr (\<not> disjnt {unat start ..< unat end'} (usable_bytes rs))"
  using assms(1)
proof (induction rs)
  case Nil
  then show ?case by (simp add: usable_bytes_def disjnt_def)
next
  case (Cons r rs)
  have ok: "region_ok r" using Cons.prems by simp
  have split: "usable_bytes (r # rs) = (if mr_kind r = MEMORY_USABLE then region_bytes r else {}) \<union> usable_bytes rs"
    by (auto simp: usable_bytes_def)
  show ?case
  proof (cases "mr_kind r = MEMORY_USABLE")
    case True
    obtain e :: u64 where e: "validate_region_end r = Inr e" "unat e = region_limit r"
      using ok unat_of_nat_u64 [of "region_limit r"] by (force simp: validate_region_end_iff region_ok_def)
    have "start < e \<and> mr_physical_start r < end' \<longleftrightarrow> \<not> disjnt {unat start ..< unat end'} (region_bytes r)"
      unfolding region_bytes_def
      by (subst disjnt_intervals) (use assms(2) limit_start [OF ok] e(2) in \<open>auto simp: word_less_nat_alt\<close>)
    then show ?thesis using Cons split True e(1) by (simp add: disjnt_Un2)
  next
    case False
    then show ?thesis using Cons split by simp
  qed
qed

lemma reject_usable_iff:
  assumes "list_all region_ok rs" "start < end'"
  shows "reject_usable err start end' rs = Inr () \<longleftrightarrow> disjnt {unat start ..< unat end'} (usable_bytes rs)"
  using overlaps_usable_iff [OF assms] by (simp add: reject_usable_def)

lemma framebuffer_shape:
  assumes "validate_framebuffer_shape h = Inr ()" "hh_flags (bh_header h) AND FRAMEBUFFER_PRESENT \<noteq> 0"
  shows "fb_byte_length (bh_framebuffer h) \<noteq> 0"
    "unat (fb_physical_start (bh_framebuffer h)) + unat (fb_byte_length (bh_framebuffer h)) < 2 ^ 64"
    "4 * unat (fb_stride_pixels (bh_framebuffer h)) * unat (fb_height (bh_framebuffer h))
       \<le> unat (fb_byte_length (bh_framebuffer h))"
    "fb_width (bh_framebuffer h) \<le> fb_stride_pixels (bh_framebuffer h)"
proof -
  let ?f = "bh_framebuffer h"
  obtain p m e where p: "checked_mul (ucast (fb_stride_pixels ?f) :: u64) (ucast (fb_height ?f)) = Some p"
      "checked_mul p 4 = Some m" "m \<le> fb_byte_length ?f" "checked_add (fb_physical_start ?f) (fb_byte_length ?f) = Some e"
    and f: "fb_byte_length ?f \<noteq> 0" "fb_width ?f \<le> fb_stride_pixels ?f"
    using assms by (auto simp: validate_framebuffer_shape_def Let_def and_then_eq_Inr bind_eq_Some_conv not_less
        split: if_splits)
  show "fb_byte_length ?f \<noteq> 0" "fb_width ?f \<le> fb_stride_pixels ?f" by fact+
  show "unat (fb_physical_start ?f) + unat (fb_byte_length ?f) < 2 ^ 64" using p(4) unfolding checked_add_iff by blast
  have w: "unat (ucast (x :: u32) :: u64) = unat x" for x
    using unsigned_less [of x, where 'a = nat] by (simp add: unsigned_ucast_eq take_bit_nat_eq_self)
  have "unat p = unat (fb_stride_pixels ?f) * unat (fb_height ?f)" "unat m = unat p * 4"
    using p(1,2) unfolding checked_mul_iff w by simp_all
  then show "4 * unat (fb_stride_pixels ?f) * unat (fb_height ?f) \<le> unat (fb_byte_length ?f)"
    using p(3) by (simp add: word_le_nat_alt)
qed

text \<open>The bytes of the handoff itself, of the memory map and of the framebuffer, when there is one.\<close>

definition handoff_bytes :: "BootHandoffV1 \<Rightarrow> u64 \<Rightarrow> nat set" where
  "handoff_bytes h address =
     {unat address ..< unat address + HANDOFF_SIZE}
     \<union> {unat (bh_memory_regions_address h) ..<
          unat (bh_memory_regions_address h) + REGION_SIZE * unat (bh_memory_region_count h)}
     \<union> (if hh_flags (bh_header h) AND FRAMEBUFFER_PRESENT \<noteq> 0
        then {unat (fb_physical_start (bh_framebuffer h)) ..<
                unat (fb_physical_start (bh_framebuffer h)) + unat (fb_byte_length (bh_framebuffer h))}
        else {})"

lemma validated_handoff:
  assumes "validate_handoff h address slice_address rs = Inr ()"
  shows "map_ok rs" "length rs \<le> MAX_MEMORY_REGIONS" "disjnt (handoff_bytes h address) (usable_bytes rs)"
proof -
  let ?a = "bh_memory_regions_address h" and ?f = "bh_framebuffer h"
  obtain he ae where v: "validate_handoff_header h = Inr (length rs)" "checked_add address (of_nat HANDOFF_SIZE) = Some he"
      "validate_regions None None rs = Inr ()" "reject_usable Invalid_HandoffInUsableMemory address he rs = Inr ()"
      "checked_add ?a (of_nat (length rs * REGION_SIZE)) = Some ae"
      "reject_usable Invalid_RegionArrayInUsableMemory ?a ae rs = Inr ()"
    and f: "hh_flags (bh_header h) AND FRAMEBUFFER_PRESENT \<noteq> 0 \<Longrightarrow>
      \<exists>fe. checked_add (fb_physical_start ?f) (fb_byte_length ?f) = Some fe
        \<and> reject_usable Invalid_FramebufferInUsableMemory (fb_physical_start ?f) fe rs = Inr ()"
    using assms by (auto simp: validate_handoff_def and_then_eq_Inr split: if_splits)
  from v(1) have n: "unat (bh_memory_region_count h) = length rs" "length rs \<le> 1024" "length rs \<noteq> 0"
      "validate_framebuffer_shape h = Inr ()"
    by (auto simp: validate_handoff_header_def Let_def and_then_eq_Inr unat_eq_zero split: if_splits)
  show m: "map_ok rs" using v(3) unfolding validate_regions_iff by blast
  then have ok: "list_all region_ok rs" by (simp add: map_ok_def)
  show "length rs \<le> MAX_MEMORY_REGIONS" using n(2) by simp
  have he: "unat he = unat address + 88" using v(2) unfolding checked_add_iff by simp
  have "unat (of_nat (length rs * REGION_SIZE) :: u64) = length rs * REGION_SIZE" by (rule unat_of_nat_u64) (use n in simp)
  then have ae: "unat ae = unat ?a + 24 * length rs" using v(5) unfolding checked_add_iff by simp
  have "disjnt {unat address ..< unat address + HANDOFF_SIZE} (usable_bytes rs)"
    using v(4) reject_usable_iff [OF ok, of address he] he by (simp add: word_less_nat_alt)
  moreover have "disjnt {unat ?a ..< unat ?a + REGION_SIZE * unat (bh_memory_region_count h)} (usable_bytes rs)"
    using v(6) reject_usable_iff [OF ok, of ?a ae] ae n by (simp add: word_less_nat_alt)
  moreover have "disjnt {unat (fb_physical_start ?f) ..< unat (fb_physical_start ?f) + unat (fb_byte_length ?f)} (usable_bytes rs)"
    if p: "hh_flags (bh_header h) AND FRAMEBUFFER_PRESENT \<noteq> 0"
  proof -
    obtain fe where fe: "unat fe = unat (fb_physical_start ?f) + unat (fb_byte_length ?f)"
        "reject_usable Invalid_FramebufferInUsableMemory (fb_physical_start ?f) fe rs = Inr ()"
      using f [OF p] unfolding checked_add_iff by blast
    moreover have "fb_physical_start ?f < fe"
      using fe(1) framebuffer_shape(1) [OF n(4) p] by (simp add: word_less_nat_alt unat_gt_0)
    ultimately show ?thesis using reject_usable_iff [OF ok] by fastforce
  qed
  ultimately show "disjnt (handoff_bytes h address) (usable_bytes rs)"
    by (simp add: handoff_bytes_def disjnt_Un1)
qed

end
