(* ===== verification/Kernel_Image.thy ===== *)
theory Kernel_Image
  imports Boot_Contract
begin

text \<open>
  The ELF parser of \<open>src/crates/kernel-image/src/lib.rs\<close>: the byte readers, the header checks of
  \<open>ValidatedImage::parse\<close>, the program headers and their validation, and the iterator over the loadable
  segments.  A slice of bytes is a list; an offset into it (\<open>usize\<close>) is a \<open>nat\<close> with the width of 64 bits
  written out where the code checks it.
\<close>


section \<open>Constants and data\<close>

definition ELF_HEADER_SIZE :: nat where [simp, const_simps]: "ELF_HEADER_SIZE = 64"
definition PROGRAM_HEADER_SIZE :: nat where [simp, const_simps]: "PROGRAM_HEADER_SIZE = 56"
definition PROGRAM_HEADER_LOAD :: u32 where [simp, const_simps]: "PROGRAM_HEADER_LOAD = 1"
definition PROGRAM_FLAG_EXECUTE :: u32 where [simp, const_simps]: "PROGRAM_FLAG_EXECUTE = 1"
definition ELF_MACHINE_X86_64 :: u16 where [simp, const_simps]: "ELF_MACHINE_X86_64 = 62"
definition ELF_TYPE_EXECUTABLE :: u16 where [simp, const_simps]: "ELF_TYPE_EXECUTABLE = 2"
definition IMAGE_PAGE_SIZE :: u64 where [simp, const_simps]: "IMAGE_PAGE_SIZE = 4096"
definition MINIMUM_LOAD_ADDRESS :: u64 where [simp, const_simps]: "MINIMUM_LOAD_ADDRESS = 0x100000"
definition MAXIMUM_LOAD_SEGMENTS :: nat where [simp, const_simps]: "MAXIMUM_LOAD_SEGMENTS = 16"

datatype ImageError =
    Image_TooSmall | Image_InvalidMagic | Image_UnsupportedClass | Image_UnsupportedEndianness
  | Image_UnsupportedVersion | Image_UnsupportedType | Image_UnsupportedMachine | Image_InvalidHeaderSize
  | Image_InvalidProgramHeaderSize | Image_MissingProgramHeaders | Image_TooManyLoadSegments
  | Image_ProgramHeaderTableOutOfBounds | Image_SegmentOutOfBounds | Image_SegmentFilesLargerThanMemory
  | Image_SegmentAddressMismatch | Image_SegmentAddressTooLow | Image_SegmentAlignment | Image_SegmentOverlap
  | Image_EntryNotExecutable | Image_ArithmeticOverflow

record Segment =
  sg_file_offset :: nat
  sg_file_size :: nat
  sg_physical_start :: u64
  sg_memory_size :: u64
  sg_flags :: u32

definition is_executable :: "Segment \<Rightarrow> bool" where
  "is_executable segment \<longleftrightarrow> sg_flags segment AND PROGRAM_FLAG_EXECUTE \<noteq> 0"

definition memory_end :: "Segment \<Rightarrow> ImageError + u64" where
  "memory_end segment = ok_or (checked_add (sg_physical_start segment) (sg_memory_size segment)) Image_ArithmeticOverflow"

text \<open>\<open>div_ceil\<close>: the quotient, one more if there is a remainder.\<close>

definition segment_page_count :: "Segment \<Rightarrow> nat" where
  "segment_page_count segment =
     (let size = unat (sg_memory_size segment); page = unat IMAGE_PAGE_SIZE
      in size div page + (if size mod page = 0 then 0 else 1))"

record ValidatedImage =
  vi_bytes :: "u8 list"
  vi_entry :: u64
  vi_program_headers_offset :: nat
  vi_program_header_count :: nat


section \<open>Reading little-endian integers\<close>

fun from_le_bytes :: "u8 list \<Rightarrow> 'a::len word" where
  "from_le_bytes [] = 0"
| "from_le_bytes (b # bs) = ucast b + 256 * from_le_bytes bs"

text \<open>\<open>bytes.get(offset..offset + n)\<close>.\<close>

definition get_bytes :: "u8 list \<Rightarrow> nat \<Rightarrow> nat \<Rightarrow> u8 list option" where
  "get_bytes bytes offset n = (if offset + n \<le> length bytes then Some (take n (drop offset bytes)) else None)"

definition read_u16 :: "u8 list \<Rightarrow> nat \<Rightarrow> ImageError + u16" where
  "read_u16 bytes offset = and_then (ok_or (get_bytes bytes offset 2) Image_TooSmall) (\<lambda>v. Inr (from_le_bytes v))"

definition read_u32 :: "u8 list \<Rightarrow> nat \<Rightarrow> ImageError + u32" where
  "read_u32 bytes offset = and_then (ok_or (get_bytes bytes offset 4) Image_TooSmall) (\<lambda>v. Inr (from_le_bytes v))"

definition read_u64 :: "u8 list \<Rightarrow> nat \<Rightarrow> ImageError + u64" where
  "read_u64 bytes offset = and_then (ok_or (get_bytes bytes offset 8) Image_TooSmall) (\<lambda>v. Inr (from_le_bytes v))"

definition is_power_of_two :: "'a::len word \<Rightarrow> bool" where
  "is_power_of_two a = list_ex (\<lambda>k. a = 2 ^ k) [0 ..< LENGTH('a)]"

definition checked_add_usize :: "nat \<Rightarrow> nat \<Rightarrow> nat option" where
  "checked_add_usize a b = (if a + b < 2 ^ 64 then Some (a + b) else None)"

definition checked_mul_usize :: "nat \<Rightarrow> nat \<Rightarrow> nat option" where
  "checked_mul_usize a b = (if a * b < 2 ^ 64 then Some (a * b) else None)"

definition ranges_overlap :: "u64 \<Rightarrow> u64 \<Rightarrow> u64 \<Rightarrow> u64 \<Rightarrow> bool" where
  "ranges_overlap left_start left_end right_start right_end \<longleftrightarrow> left_start < right_end \<and> right_start < left_end"


section \<open>Program headers\<close>

text \<open>The checks on the fields of a loadable header, and the segment they describe.\<close>

definition checked_segment ::
  "nat \<Rightarrow> u32 \<Rightarrow> u64 \<Rightarrow> u64 \<Rightarrow> u64 \<Rightarrow> u64 \<Rightarrow> u64 \<Rightarrow> u64 \<Rightarrow> ImageError + Segment option" where
  "checked_segment image_length flags file_offset virtual_start physical_start file_size memory_size alignment =
     (if file_size > memory_size \<or> memory_size = 0 then Inl Image_SegmentFilesLargerThanMemory
      else if virtual_start \<noteq> physical_start then Inl Image_SegmentAddressMismatch
      else if physical_start < MINIMUM_LOAD_ADDRESS then Inl Image_SegmentAddressTooLow
      else if physical_start mod IMAGE_PAGE_SIZE \<noteq> 0 \<or> alignment < IMAGE_PAGE_SIZE \<or> \<not> is_power_of_two alignment
        \<or> file_offset mod alignment \<noteq> virtual_start mod alignment
      then Inl Image_SegmentAlignment
      else
        and_then (ok_or (checked_add_usize (unat file_offset) (unat file_size)) Image_ArithmeticOverflow) (\<lambda>file_end.
          if file_end > image_length then Inl Image_SegmentOutOfBounds
          else
            and_then (ok_or (checked_add physical_start memory_size) Image_ArithmeticOverflow) (\<lambda>_.
              Inr (Some \<lparr>sg_file_offset = unat file_offset, sg_file_size = unat file_size,
                sg_physical_start = physical_start, sg_memory_size = memory_size, sg_flags = flags\<rparr>))))"

definition segment_at :: "ValidatedImage \<Rightarrow> nat \<Rightarrow> ImageError + Segment option" where
  "segment_at img index =
     and_then (ok_or (checked_mul_usize PROGRAM_HEADER_SIZE index) Image_ArithmeticOverflow) (\<lambda>skipped.
     and_then (ok_or (checked_add_usize (vi_program_headers_offset img) skipped) Image_ArithmeticOverflow) (\<lambda>offset.
     and_then (read_u32 (vi_bytes img) offset) (\<lambda>kind.
       if kind \<noteq> PROGRAM_HEADER_LOAD then Inr None
       else
         and_then (read_u32 (vi_bytes img) (offset + 4)) (\<lambda>flags.
         and_then (read_u64 (vi_bytes img) (offset + 8)) (\<lambda>file_offset.
         and_then (read_u64 (vi_bytes img) (offset + 16)) (\<lambda>virtual_start.
         and_then (read_u64 (vi_bytes img) (offset + 24)) (\<lambda>physical_start.
         and_then (read_u64 (vi_bytes img) (offset + 32)) (\<lambda>file_size.
         and_then (read_u64 (vi_bytes img) (offset + 40)) (\<lambda>memory_size.
         and_then (read_u64 (vi_bytes img) (offset + 48)) (\<lambda>alignment.
           checked_segment (length (vi_bytes img)) flags file_offset virtual_start physical_start file_size
             memory_size alignment))))))))))"

text \<open>The inner loop of \<open>validate_segments\<close>: no earlier segment overlaps \<open>[start, end')\<close>.\<close>

fun check_prior :: "ValidatedImage \<Rightarrow> u64 \<Rightarrow> u64 \<Rightarrow> nat list \<Rightarrow> ImageError + unit" where
  "check_prior img start end' [] = Inr ()"
| "check_prior img start end' (prior_index # rest) =
     and_then (segment_at img prior_index) (\<lambda>found.
       case found of
         None \<Rightarrow> check_prior img start end' rest
       | Some prior \<Rightarrow>
           and_then (memory_end prior) (\<lambda>prior_end.
             if ranges_overlap start end' (sg_physical_start prior) prior_end then Inl Image_SegmentOverlap
             else check_prior img start end' rest))"

text \<open>The outer loop, with the number of segments seen and whether one of them contains the entry.\<close>

fun validate_headers :: "ValidatedImage \<Rightarrow> nat \<Rightarrow> bool \<Rightarrow> nat list \<Rightarrow> ImageError + nat \<times> bool" where
  "validate_headers img load_segments entry_is_executable [] = Inr (load_segments, entry_is_executable)"
| "validate_headers img load_segments entry_is_executable (index # rest) =
     and_then (segment_at img index) (\<lambda>found.
       case found of
         None \<Rightarrow> validate_headers img load_segments entry_is_executable rest
       | Some segment \<Rightarrow>
           if load_segments + 1 > MAXIMUM_LOAD_SEGMENTS then Inl Image_TooManyLoadSegments
           else
             and_then (memory_end segment) (\<lambda>segment_end.
             and_then (check_prior img (sg_physical_start segment) segment_end [0 ..< index]) (\<lambda>_.
               validate_headers img (load_segments + 1)
                 (entry_is_executable
                   \<or> is_executable segment \<and> vi_entry img \<ge> sg_physical_start segment \<and> vi_entry img < segment_end)
                 rest)))"

definition validate_segments :: "ValidatedImage \<Rightarrow> ImageError + unit" where
  "validate_segments img =
     and_then (validate_headers img 0 False [0 ..< vi_program_header_count img]) (\<lambda>(load_segments, entry_is_executable).
       if load_segments = 0 then Inl Image_MissingProgramHeaders
       else if \<not> entry_is_executable then Inl Image_EntryNotExecutable
       else Inr ())"


section \<open>Parsing\<close>

text \<open>The test \<open>read(...)? != expected\<close> with its error.\<close>

definition expect :: "ImageError + 'a \<Rightarrow> 'a \<Rightarrow> ImageError \<Rightarrow> ImageError + unit" where
  "expect r expected error = and_then r (\<lambda>v. if v \<noteq> expected then Inl error else Inr ())"

text \<open>The checks on the fixed header, up to the size of a program header.\<close>

definition parse_header :: "u8 list \<Rightarrow> ImageError + unit" where
  "parse_header bytes =
     (if length bytes < ELF_HEADER_SIZE then Inl Image_TooSmall
      else if get_bytes bytes 0 4 \<noteq> Some [0x7f, 0x45, 0x4c, 0x46] then Inl Image_InvalidMagic
      else if bytes ! 4 \<noteq> 2 then Inl Image_UnsupportedClass
      else if bytes ! 5 \<noteq> 1 then Inl Image_UnsupportedEndianness
      else if bytes ! 6 \<noteq> 1 then Inl Image_UnsupportedVersion
      else
        and_then (expect (read_u32 bytes 20) 1 Image_UnsupportedVersion) (\<lambda>_.
        and_then (expect (read_u16 bytes 16) ELF_TYPE_EXECUTABLE Image_UnsupportedType) (\<lambda>_.
        and_then (expect (read_u16 bytes 18) ELF_MACHINE_X86_64 Image_UnsupportedMachine) (\<lambda>_.
        and_then (expect (and_then (read_u16 bytes 52) (\<lambda>v. Inr (unat v))) ELF_HEADER_SIZE Image_InvalidHeaderSize) (\<lambda>_.
          expect (and_then (read_u16 bytes 54) (\<lambda>v. Inr (unat v))) PROGRAM_HEADER_SIZE Image_InvalidProgramHeaderSize)))))"

definition image_parse :: "u8 list \<Rightarrow> ImageError + ValidatedImage" where
  "image_parse bytes =
     and_then (parse_header bytes) (\<lambda>_.
     and_then (read_u16 bytes 56) (\<lambda>count.
       if unat count = 0 then Inl Image_MissingProgramHeaders
       else
         and_then (read_u64 bytes 32) (\<lambda>program_headers_offset.
         and_then (ok_or (checked_mul_usize PROGRAM_HEADER_SIZE (unat count)) Image_ArithmeticOverflow) (\<lambda>table_size.
         and_then (ok_or (checked_add_usize (unat program_headers_offset) table_size) Image_ArithmeticOverflow) (\<lambda>table_end.
           if table_end > length bytes then Inl Image_ProgramHeaderTableOutOfBounds
           else
             and_then (read_u64 bytes 24) (\<lambda>entry.
               let img = \<lparr>vi_bytes = bytes, vi_entry = entry,
                     vi_program_headers_offset = unat program_headers_offset, vi_program_header_count = unat count\<rparr>
               in and_then (validate_segments img) (\<lambda>_. Inr img)))))))"

text \<open>\<open>file_bytes\<close> slices the image and panics out of range, which is \<open>None\<close>.\<close>

definition file_bytes :: "ValidatedImage \<Rightarrow> Segment \<Rightarrow> u8 list option" where
  "file_bytes img segment = get_bytes (vi_bytes img) (sg_file_offset segment) (sg_file_size segment)"


section \<open>The iterator over segments\<close>

record Segments =
  it_image :: ValidatedImage
  it_next_index :: nat

definition segments :: "ValidatedImage \<Rightarrow> Segments" where
  "segments img = \<lparr>it_image = img, it_next_index = 0\<rparr>"

text \<open>The panic of \<open>unreachable!\<close> in the iterator.\<close>

datatype Unreachable = Validated_program_header_changed

function segments_next :: "(Segments, Unreachable, Segment option) action" where
  "segments_next it =
     (if it_next_index it < vi_program_header_count (it_image it)
      then
        (let it' = it\<lparr>it_next_index := it_next_index it + 1\<rparr>
         in case segment_at (it_image it) (it_next_index it) of
              Inr (Some segment) \<Rightarrow> (Inr (Some segment), it')
            | Inr None \<Rightarrow> segments_next it'
            | Inl _ \<Rightarrow> (Inl Validated_program_header_changed, it'))
      else (Inr None, it))"
  by pat_completeness auto

termination
  by (relation "measure (\<lambda>it. vi_program_header_count (it_image it) - it_next_index it)") auto

declare segments_next.simps [simp del]

text \<open>A \<open>for\<close> loop over the iterator: at most \<open>fuel\<close> calls of \<open>next\<close>, folding a fallible body over the items.
  \<open>None\<close> is a loop that has not ended.\<close>

fun for_segments :: "nat \<Rightarrow> (Segment \<Rightarrow> 's \<Rightarrow> ('e + unit) \<times> 's) \<Rightarrow> Segments \<Rightarrow> 's \<Rightarrow> ((Unreachable + ('e + unit)) \<times> 's) option" where
  "for_segments 0 body it s = None"
| "for_segments (Suc fuel) body it s =
     (case segments_next it of
        (Inl panic, _) \<Rightarrow> Some (Inl panic, s)
      | (Inr None, _) \<Rightarrow> Some (Inr (Inr ()), s)
      | (Inr (Some segment), it') \<Rightarrow>
          (case body segment s of
             (Inl error, s') \<Rightarrow> Some (Inr (Inl error), s')
           | (Inr _, s') \<Rightarrow> for_segments fuel body it' s'))"

end
