(* ===== verification/Kernel_Image_Segments.thy ===== *)
theory Kernel_Image_Segments
  imports Kernel_Image
begin

text \<open>
  What \<open>ValidatedImage::parse\<close> establishes about the segments of an image, and the behaviour of the iterator over
  them: a loop over the iterator is a fold over the list of loadable segments.
\<close>


lemma and_then_InrE:
  assumes "and_then r f = Inr b"
  obtains a where "r = Inr a" "f a = Inr b"
  using assms by (cases r) simp_all

lemma if_Inl_eq_Inr: "(if A then Inl e else r) = Inr x \<longleftrightarrow> \<not> A \<and> r = Inr x"
  by simp


section \<open>Segments of an image\<close>

text \<open>The loadable segments of the given headers, in their order.\<close>

fun load_list :: "ValidatedImage \<Rightarrow> nat list \<Rightarrow> Segment list" where
  "load_list img [] = []"
| "load_list img (i # is) = (case segment_at img i of Inr (Some s) \<Rightarrow> s # load_list img is | _ \<Rightarrow> load_list img is)"

abbreviation image_segments :: "ValidatedImage \<Rightarrow> Segment list" where
  "image_segments img \<equiv> load_list img [0 ..< vi_program_header_count img]"

definition segment_limit :: "Segment \<Rightarrow> nat" where
  "segment_limit s = unat (sg_physical_start s) + unat (sg_memory_size s)"

definition segment_memory :: "Segment \<Rightarrow> nat set" where
  "segment_memory s = {unat (sg_physical_start s) ..< segment_limit s}"

text \<open>A segment lies within an image of \<open>n\<close> bytes and within memory, page aligned in both.\<close>

definition segment_ok :: "nat \<Rightarrow> Segment \<Rightarrow> bool" where
  "segment_ok n s \<longleftrightarrow> sg_file_offset s + sg_file_size s \<le> n \<and> sg_file_size s \<le> unat (sg_memory_size s)
     \<and> sg_memory_size s \<noteq> 0 \<and> 0x100000 \<le> unat (sg_physical_start s) \<and> 4096 dvd unat (sg_physical_start s)
     \<and> 4096 dvd sg_file_offset s \<and> segment_limit s < 2 ^ 64"

lemma power_of_two_dvd:
  assumes "is_power_of_two (a :: u64)" "4096 \<le> a"
  shows "4096 dvd unat a"
proof -
  obtain k where k: "k < 64" "a = 2 ^ k" using assms(1) unfolding is_power_of_two_def list_ex_iff set_upt by auto
  have "(2 :: nat) ^ k < 2 ^ 64" using k(1) by (rule power_strict_increasing) simp
  from unat_of_nat_u64 [OF this] have u: "unat a = 2 ^ k" by (simp add: k(2))
  have "2 ^ 12 \<le> unat a" using assms(2) by (simp add: word_le_nat_alt)
  then have "12 \<le> k" unfolding u by (subst (asm) power_increasing_iff) simp_all
  then have "(2 :: nat) ^ 12 dvd 2 ^ k" by (rule le_imp_power_dvd)
  then show ?thesis by (simp add: u)
qed

lemma aligned_offset:
  assumes "is_power_of_two (a :: u64)" "4096 \<le> a" "f mod a = p mod a" "p mod 4096 = 0"
  shows "4096 dvd unat f"
proof -
  have a: "4096 dvd unat a" by (rule power_of_two_dvd [OF assms(1,2)])
  have "unat f mod unat a = unat p mod unat a" using arg_cong [OF assms(3), of unat] by (simp add: unat_mod)
  then have "unat f mod unat a mod 4096 = unat p mod unat a mod 4096" by (rule arg_cong)
  then have "unat f mod 4096 = unat p mod 4096" unfolding mod_mod_cancel [OF a] .
  moreover have "unat p mod 4096 = 0" using arg_cong [OF assms(4), of unat] by (simp add: unat_mod)
  ultimately show ?thesis by (simp add: dvd_eq_mod_eq_0)
qed

lemma checked_segment_ok:
  assumes "checked_segment n flags fo vs ps fs ms al = Inr x"
  shows "\<exists>s. x = Some s \<and> segment_ok n s"
proof -
  note c = assms [unfolded checked_segment_def if_Inl_eq_Inr and_then_eq_Inr ok_or_eq_Inr de_Morgan_disj not_not const_simps]
  note c1 = conjunct1 [OF c] and c2 = conjunct2 [OF c]
  note vs = conjunct1 [OF c2] and ps = conjunct1 [OF conjunct2 [OF c2]] and c3 = conjunct2 [OF conjunct2 [OF c2]]
  note al = conjunct1 [OF c3] and c4 = conjunct2 [OF c3]
  note al1 = conjunct1 [OF al] and al2 = conjunct1 [OF conjunct2 [OF al]] and al3 = conjunct2 [OF conjunct2 [OF al]]
  from c4 obtain file_end e where e: "checked_add_usize (unat fo) (unat fs) = Some file_end" "\<not> n < file_end" "checked_add ps ms = Some e"
    and x: "Inr (Some \<lparr>sg_file_offset = unat fo, sg_file_size = unat fs, sg_physical_start = ps, sg_memory_size = ms, sg_flags = flags\<rparr>) =
      (Inr x :: ImageError + Segment option)"
    by (elim conjE exE) (rule that)
  have fe: "unat fo + unat fs \<le> n" using e(1,2) unfolding checked_add_usize_def by (simp split: if_split_asm)
  have f: "4096 dvd unat fo" using aligned_offset [OF conjunct1 [OF al3] _ conjunct2 [OF al3, unfolded vs] al1] al2 by (simp only: not_less)
  have p: "4096 dvd unat ps" using arg_cong [OF al1, of unat] by (simp add: unat_mod dvd_eq_mod_eq_0)
  have "unat e = unat ps + unat ms" by (rule checked_add_SomeD [OF e(3), THEN conjunct2])
  moreover have "unat e < 2 ^ 64" using unsigned_less [of e] by simp
  ultimately have "unat ps + unat ms < 2 ^ 64" by simp
  moreover have "0x100000 \<le> unat ps" using ps by (simp add: word_less_nat_alt)
  moreover have "unat fs \<le> unat ms" using c1 by (simp add: word_less_nat_alt)
  ultimately show ?thesis using fe conjunct2 [OF c1] f p unfolding x [THEN sum.inject(2) [THEN iffD1], symmetric]
    by (simp add: segment_ok_def segment_limit_def)
qed

lemma segment_at_ok:
  assumes "segment_at img i = Inr (Some s)"
  shows "segment_ok (length (vi_bytes img)) s"
  using assms unfolding segment_at_def
  by (elim and_then_InrE) (simp only: sum.inject option.distinct split: if_splits,
      elim and_then_InrE, drule checked_segment_ok, simp)

lemma load_list_ok: "s \<in> set (load_list img is) \<Longrightarrow> segment_ok (length (vi_bytes img)) s"
  by (induction "is") (auto split: sum.splits option.splits dest: segment_at_ok)

lemma load_list_append: "load_list img (is @ js) = load_list img is @ load_list img js"
  by (induction "is") (auto split: sum.splits option.splits)

lemma load_list_member: "s \<in> set (load_list img is) \<longleftrightarrow> (\<exists>i \<in> set is. segment_at img i = Inr (Some s))"
  by (induction "is") (auto split: sum.splits option.splits)

lemma memory_end_ok:
  assumes "segment_ok n s"
  obtains e where "memory_end s = Inr e" "unat e = segment_limit s"
proof -
  have "unat (sg_physical_start s) + unat (sg_memory_size s) < 2 ^ 64" using assms by (simp add: segment_ok_def segment_limit_def)
  from checked_add_ok [OF this] show thesis
    by (intro that [of "sg_physical_start s + sg_memory_size s"]) (simp_all add: memory_end_def segment_limit_def)
qed


section \<open>Validation of the segments\<close>

definition program_header_ok :: "ValidatedImage \<Rightarrow> nat \<Rightarrow> bool" where
  "program_header_ok img i \<longleftrightarrow> is_ok (segment_at img i)"

lemma ranges_disjoint:
  assumes "segment_ok n s" "segment_ok n t" "unat e = segment_limit s" "unat e' = segment_limit t"
    "\<not> ranges_overlap (sg_physical_start s) e (sg_physical_start t) e'"
  shows "disjnt (segment_memory s) (segment_memory t)"
  using assms(3-5) by (auto simp: ranges_overlap_def word_less_nat_alt disjnt_iff segment_memory_def)

lemma check_prior_sound:
  assumes "check_prior img (sg_physical_start s) e is = Inr ()" "segment_ok (length (vi_bytes img)) s" "unat e = segment_limit s"
    "i \<in> set is" "segment_at img i = Inr (Some t)"
  shows "disjnt (segment_memory s) (segment_memory t)"
  using assms(1,4)
proof (induction "is")
  case (Cons j js)
  show ?case
  proof (cases "j = i")
    case True
    obtain e' where e': "memory_end t = Inr e'" "unat e' = segment_limit t" using memory_end_ok [OF segment_at_ok [OF assms(5)]] .
    then have "\<not> ranges_overlap (sg_physical_start s) e (sg_physical_start t) e'"
      using Cons.prems(1) assms(5) True by (simp split: if_split_asm)
    from ranges_disjoint [OF assms(2) segment_at_ok [OF assms(5)] assms(3) e'(2) this] show ?thesis .
  next
    case False
    have "check_prior img (sg_physical_start s) e js = Inr ()"
      using Cons.prems(1) by (auto simp: and_then_eq_Inr split: option.splits if_split_asm)
    then show ?thesis using Cons.IH Cons.prems(2) False by simp
  qed
qed simp

definition holds_entry :: "ValidatedImage \<Rightarrow> Segment \<Rightarrow> bool" where
  "holds_entry img s \<longleftrightarrow> is_executable s \<and> unat (vi_entry img) \<in> segment_memory s"

text \<open>What the loop over the headers has established about those it has seen.\<close>

lemma validate_headers_sound:
  assumes "validate_headers img l x is = Inr (l', x')"
  shows "(\<forall>i \<in> set is. program_header_ok img i) \<and> l' = l + length (load_list img is) \<and> (load_list img is \<noteq> [] \<longrightarrow> l' \<le> 16)
    \<and> (x' \<longleftrightarrow> x \<or> (\<exists>s \<in> set (load_list img is). holds_entry img s))
    \<and> (\<forall>j \<in> set is. \<forall>i < j. \<forall>s t. segment_at img j = Inr (Some s) \<and> segment_at img i = Inr (Some t) \<longrightarrow>
         disjnt (segment_memory s) (segment_memory t))"
  using assms
proof (induction "is" arbitrary: l x)
  case Nil
  then show ?case by simp
next
  case (Cons j js)
  obtain found where found: "segment_at img j = Inr found" using Cons.prems by (auto simp: and_then_eq_Inr)
  show ?case
  proof (cases found)
    case None
    then have "validate_headers img l x js = Inr (l', x')" using Cons.prems found by simp
    from Cons.IH [OF this] None found show ?thesis by (auto simp: program_header_ok_def)
  next
    case (Some s)
    have ok: "segment_ok (length (vi_bytes img)) s" using segment_at_ok found Some by simp
    then obtain e where e: "memory_end s = Inr e" "unat e = segment_limit s" by (rule memory_end_ok)
    let ?x = "x \<or> is_executable s \<and> vi_entry img \<ge> sg_physical_start s \<and> vi_entry img < e"
    have l: "\<not> l + 1 > 16" and p: "check_prior img (sg_physical_start s) e [0 ..< j] = Inr ()"
      and r: "validate_headers img (l + 1) ?x js = Inr (l', x')"
      using Cons.prems found Some e(1) by (auto simp: and_then_eq_Inr split: if_split_asm)
    have h: "?x \<longleftrightarrow> x \<or> holds_entry img s"
      using e(2) by (auto simp: holds_entry_def segment_memory_def word_le_nat_alt word_less_nat_alt)
    have d: "disjnt (segment_memory s) (segment_memory t)" if "i < j" "segment_at img i = Inr (Some t)" for i t
      using check_prior_sound [OF p ok e(2) _ that(2)] that(1) by simp
    from Cons.IH [OF r] h d l found Some show ?thesis by (auto simp: program_header_ok_def)
  qed
qed

lemma load_list_disjoint:
  assumes "sorted_wrt (<) is"
    "\<forall>j \<in> set is. \<forall>i < j. \<forall>s t. segment_at img j = Inr (Some s) \<and> segment_at img i = Inr (Some t) \<longrightarrow>
       disjnt (segment_memory s) (segment_memory t)"
  shows "sorted_wrt (\<lambda>s t. disjnt (segment_memory s) (segment_memory t)) (load_list img is)"
  using assms
proof (induction "is")
  case (Cons i js)
  have "disjnt (segment_memory s) (segment_memory t)" if "segment_at img i = Inr (Some s)" "t \<in> set (load_list img js)" for s t
    using that Cons.prems by (auto simp: load_list_member disjnt_sym)
  then show ?case using Cons by (auto split: sum.splits option.splits)
qed simp

lemma validate_segments_sound:
  assumes "validate_segments img = Inr ()"
  shows "\<forall>i < vi_program_header_count img. program_header_ok img i" "image_segments img \<noteq> []" "length (image_segments img) \<le> 16"
    "\<exists>s \<in> set (image_segments img). holds_entry img s"
    "sorted_wrt (\<lambda>s t. disjnt (segment_memory s) (segment_memory t)) (image_segments img)"
proof -
  obtain l x where v: "validate_headers img 0 False [0 ..< vi_program_header_count img] = Inr (l, x)" "l \<noteq> 0" "x"
    using assms by (auto simp: validate_segments_def and_then_eq_Inr split: if_split_asm)
  note s = validate_headers_sound [OF v(1)]
  show "\<forall>i < vi_program_header_count img. program_header_ok img i" "image_segments img \<noteq> []" "length (image_segments img) \<le> 16"
      "\<exists>s \<in> set (image_segments img). holds_entry img s"
    using s v(2,3) by auto
  show "sorted_wrt (\<lambda>s t. disjnt (segment_memory s) (segment_memory t)) (image_segments img)"
    by (rule load_list_disjoint) (use s in \<open>simp_all add: strict_sorted_iff\<close>)
qed

lemma image_parse_sound:
  assumes "image_parse bytes = Inr img"
  shows "vi_bytes img = bytes" "validate_segments img = Inr ()"
    "vi_program_headers_offset img + 56 * vi_program_header_count img \<le> length bytes"
proof -
  obtain count offset entry where
    "img = \<lparr>vi_bytes = bytes, vi_entry = entry, vi_program_headers_offset = unat offset, vi_program_header_count = unat (count :: u16)\<rparr>"
    "validate_segments img = Inr ()" "unat (offset :: u64) + 56 * unat count \<le> length bytes"
    using assms unfolding image_parse_def
    by (auto simp: and_then_eq_Inr Let_def checked_add_usize_def checked_mul_usize_def split: if_split_asm)
  then show "vi_bytes img = bytes" "validate_segments img = Inr ()"
    "vi_program_headers_offset img + 56 * vi_program_header_count img \<le> length bytes" by simp_all
qed


section \<open>The iterator\<close>

text \<open>A fallible body folded over a list of segments.\<close>

fun run_segments :: "(Segment \<Rightarrow> 's \<Rightarrow> ('e + unit) \<times> 's) \<Rightarrow> Segment list \<Rightarrow> ('s, 'e, unit) action" where
  "run_segments body [] s = (Inr (), s)"
| "run_segments body (x # xs) s =
     (case body x s of (Inl e, s') \<Rightarrow> (Inl e, s') | (Inr _, s') \<Rightarrow> run_segments body xs s')"

lemma segments_next_spec:
  assumes "\<forall>i < vi_program_header_count img. program_header_ok img i"
  shows "\<exists>k'. segments_next \<lparr>it_image = img, it_next_index = k\<rparr> =
      (Inr (case load_list img [k ..< vi_program_header_count img] of [] \<Rightarrow> None | s # _ \<Rightarrow> Some s), \<lparr>it_image = img, it_next_index = k'\<rparr>)
    \<and> load_list img [k' ..< vi_program_header_count img] = tl (load_list img [k ..< vi_program_header_count img])"
proof (induction "vi_program_header_count img - k" arbitrary: k)
  case 0
  then show ?case by (subst segments_next.simps) (auto intro!: exI [of _ k])
next
  case (Suc n)
  then have k: "k < vi_program_header_count img" by simp
  then obtain x where x: "segment_at img k = Inr x" using assms by (auto simp: program_header_ok_def is_ok_iff)
  have u: "[k ..< vi_program_header_count img] = k # [Suc k ..< vi_program_header_count img]" using k by (rule upt_conv_Cons)
  show ?case
  proof (cases x)
    case None
    obtain k' where "segments_next \<lparr>it_image = img, it_next_index = Suc k\<rparr> =
        (Inr (case load_list img [Suc k ..< vi_program_header_count img] of [] \<Rightarrow> None | s # _ \<Rightarrow> Some s), \<lparr>it_image = img, it_next_index = k'\<rparr>)"
      "load_list img [k' ..< vi_program_header_count img] = tl (load_list img [Suc k ..< vi_program_header_count img])"
      using Suc.hyps(1) [of "Suc k"] Suc.hyps(2) by (metis diff_Suc_1 Suc_eq_plus1 diff_diff_left)
    then show ?thesis using x None k u by (subst segments_next.simps) simp
  next
    case (Some s)
    then show ?thesis using x k u by (subst segments_next.simps) (auto intro!: exI [of _ "Suc k"])
  qed
qed

lemma for_segments_run:
  assumes "\<forall>i < vi_program_header_count img. program_header_ok img i" "length (load_list img [k ..< vi_program_header_count img]) < fuel"
  shows "for_segments fuel body \<lparr>it_image = img, it_next_index = k\<rparr> s =
    Some (case run_segments body (load_list img [k ..< vi_program_header_count img]) s of (r, s') \<Rightarrow> (Inr r, s'))"
  using assms(2)
proof (induction fuel arbitrary: k s)
  case (Suc fuel)
  obtain k' where k': "segments_next \<lparr>it_image = img, it_next_index = k\<rparr> =
      (Inr (case load_list img [k ..< vi_program_header_count img] of [] \<Rightarrow> None | s # _ \<Rightarrow> Some s), \<lparr>it_image = img, it_next_index = k'\<rparr>)"
    "load_list img [k' ..< vi_program_header_count img] = tl (load_list img [k ..< vi_program_header_count img])"
    using segments_next_spec [OF assms(1)] by blast
  show ?case
  proof (cases "load_list img [k ..< vi_program_header_count img]")
    case Nil
    then show ?thesis using k' by simp
  next
    case (Cons x xs)
    then have "length (load_list img [k' ..< vi_program_header_count img]) < fuel" using k'(2) Suc.prems by simp
    note ih = Suc.IH [OF this, unfolded k'(2) Cons list.sel]
    show ?thesis using k'(1) ih Cons by (simp split: sum.splits prod.splits)
  qed
qed simp



section \<open>Property\<close>

text \<open>C15: a parsed kernel image is safe to load, and its segments can be enumerated.  Parsing succeeds only for images with
  one to sixteen loadable segments, each of which lies within the file and within memory above one mebibyte,
  page aligned in both and with no wrap-around, no two of which overlap, and one of which is executable and
  contains the entry point.  Any loop over the segment iterator of such an image ends, never reaches the
  iterator's \<open>unreachable!\<close>, and visits exactly these segments in the order of their headers.\<close>

theorem parsed_image_segments:
  assumes "image_parse bytes = Inr img"
  shows "image_segments img \<noteq> [] \<and> length (image_segments img) \<le> MAXIMUM_LOAD_SEGMENTS
    \<and> list_all (segment_ok (length bytes)) (image_segments img)
    \<and> sorted_wrt (\<lambda>s t. disjnt (segment_memory s) (segment_memory t)) (image_segments img)
    \<and> (\<exists>s \<in> set (image_segments img). is_executable s \<and> unat (vi_entry img) \<in> segment_memory s)
    \<and> for_segments (Suc MAXIMUM_LOAD_SEGMENTS) body (segments img) state =
        Some (case run_segments body (image_segments img) state of (r, state') \<Rightarrow> (Inr r, state'))"
proof -
  note p = image_parse_sound [OF assms]
  note v = validate_segments_sound [OF p(2)]
  have "length (image_segments img) < 17" using v(3) by simp
  from for_segments_run [OF v(1) this, of body state] v show ?thesis
    using load_list_ok [of _ img] p(1) by (simp add: segments_def list_all_iff holds_entry_def)
qed

text \<open>An image of one header and no file contents, loaded at one mebibyte.\<close>

definition example_image :: "u8 list" where
  "example_image =
     [0x7f, 0x45, 0x4c, 0x46, 2, 1, 1, 0,  0, 0, 0, 0, 0, 0, 0, 0,  2, 0, 62, 0, 1, 0, 0, 0,  0, 0, 16, 0, 0, 0, 0, 0,
      64, 0, 0, 0, 0, 0, 0, 0,  0, 0, 0, 0, 0, 0, 0, 0,  0, 0, 0, 0, 64, 0, 56, 0,  1, 0, 0, 0, 0, 0, 0, 0,
      1, 0, 0, 0, 5, 0, 0, 0,  0, 0, 0, 0, 0, 0, 0, 0,  0, 0, 16, 0, 0, 0, 0, 0,  0, 0, 16, 0, 0, 0, 0, 0,
      120, 0, 0, 0, 0, 0, 0, 0,  0, 16, 0, 0, 0, 0, 0, 0,  0, 16, 0, 0, 0, 0, 0, 0]"

definition example_parsed :: ValidatedImage where
  "example_parsed = \<lparr>vi_bytes = example_image, vi_entry = 0x100000, vi_program_headers_offset = 64, vi_program_header_count = 1\<rparr>"

lemma example_image_length: "length example_image = 120"
  by (simp add: example_image_def)

lemma example_header: "parse_header example_image = Inr ()"
  by (simp add: parse_header_def expect_def read_u16_def read_u32_def get_bytes_def example_image_def)

lemma example_fields:
  "read_u16 example_image 56 = Inr 1" "read_u64 example_image 32 = Inr 64" "read_u64 example_image 24 = Inr 0x100000"
  by (simp_all add: read_u16_def read_u64_def get_bytes_def example_image_def)

definition example_segment :: Segment where
  "example_segment = \<lparr>sg_file_offset = 0, sg_file_size = 120, sg_physical_start = 0x100000, sg_memory_size = 4096, sg_flags = 5\<rparr>"

lemma is_power_of_two_4096: "is_power_of_two (4096 :: u64)"
  unfolding is_power_of_two_def list_ex_iff by (rule bexI [of _ 12]) simp_all

lemma example_segment_at: "segment_at example_parsed 0 = Inr (Some example_segment)"
  by (simp add: segment_at_def checked_mul_usize_def checked_add_usize_def read_u32_def read_u64_def get_bytes_def
      example_parsed_def example_image_def example_segment_def checked_segment_def is_power_of_two_4096 checked_add_def)

lemma example_image_parsed: "image_parse example_image = Inr example_parsed"
proof -
  have "validate_segments example_parsed = Inr ()"
    using example_segment_at by (simp add: validate_segments_def example_parsed_def example_segment_def memory_end_def
        checked_add_def is_executable_def)
  then show ?thesis
    by (simp add: image_parse_def example_header example_fields checked_mul_usize_def checked_add_usize_def
        example_image_length example_parsed_def)
qed

theorem parsed_image_segments_witness:
  "image_parse example_image = Inr example_parsed
   \<and> for_segments 17 (\<lambda>s seen. (Inr (), seen @ [s])) (segments example_parsed) [] =
       (Some (Inr (Inr () :: unit + unit), [example_segment]))"
proof -
  have "image_segments example_parsed = [example_segment]"
    using example_segment_at by (simp add: example_parsed_def)
  with parsed_image_segments [OF example_image_parsed, of "\<lambda>s seen. (Inr () :: unit + unit, seen @ [s])" "[]"] example_image_parsed
  show ?thesis by simp
qed

end
