(* ===== verification/Normalize.thy ===== *)
theory Normalize
  imports Boot_Contract
begin

text \<open>
  Normalization of the firmware's memory map, as in \<open>src/crates/boot-contract/src/normalize.rs\<close>: the region writer,
  the checks on overrides and the loop over the source regions; then the byte-level reading of regions (the set
  of addresses with their kinds) and what emitting one region does to it.
\<close>


section \<open>Data\<close>

record SourceMemoryRegion =
  sr_physical_start :: u64
  sr_page_count :: u64
  sr_kind :: u32

record MemoryRegionOverride =
  ov_physical_start :: u64
  ov_page_count :: u64
  ov_kind :: u32
  ov_require_full_coverage :: bool

definition MemoryRegionOverride_EMPTY :: MemoryRegionOverride where
  "MemoryRegionOverride_EMPTY =
     \<lparr>ov_physical_start = 0, ov_page_count = 0, ov_kind = 0, ov_require_full_coverage = False\<rparr>"

datatype NormalizeError =
    Normalize_EmptySource | Normalize_ZeroPages | Normalize_UnalignedStart | Normalize_RangeOverflow
  | Normalize_UnknownKind | Normalize_SourceOutOfOrder | Normalize_SourceOverlap | Normalize_OverrideOutOfOrder
  | Normalize_OverrideOverlap | Normalize_OverrideOutsideSource | Normalize_CapacityExceeded

definition region_end :: "u64 \<Rightarrow> u64 \<Rightarrow> NormalizeError + u64" where
  "region_end start pages =
     (if pages = 0 then Inl Normalize_ZeroPages
      else if \<not> is_multiple_of start PAGE_SIZE then Inl Normalize_UnalignedStart
      else
        and_then (ok_or (checked_mul pages PAGE_SIZE) Normalize_RangeOverflow)
          (\<lambda>bytes. ok_or (checked_add start bytes) Normalize_RangeOverflow))"

definition checked_region_end :: "u64 \<Rightarrow> u64 \<Rightarrow> u32 \<Rightarrow> NormalizeError + u64" where
  "checked_region_end start pages kind =
     (if \<not> is_known_memory_kind kind then Inl Normalize_UnknownKind else region_end start pages)"


section \<open>The writer\<close>

record RegionWriter =
  rw_output :: "MemoryRegionV1 list"
  rw_len :: nat

definition writer_new :: "MemoryRegionV1 list \<Rightarrow> RegionWriter" where
  "writer_new output = \<lparr>rw_output = output, rw_len = 0\<rparr>"

definition writer_append :: "MemoryRegionV1 \<Rightarrow> (RegionWriter, NormalizeError, unit) action" where
  "writer_append region w =
     (if rw_len w = length (rw_output w) then (Inl Normalize_CapacityExceeded, w)
      else (Inr (), w\<lparr>rw_output := (rw_output w)[rw_len w := region], rw_len := rw_len w + 1\<rparr>))"

definition emit :: "u64 \<Rightarrow> u64 \<Rightarrow> u32 \<Rightarrow> (RegionWriter, NormalizeError, unit) action" where
  "emit start end' kind w =
     (if start = end' then (Inr (), w)
      else
        (let page_count = (end' - start) div PAGE_SIZE;
             region = \<lparr>mr_physical_start = start, mr_page_count = page_count, mr_kind = kind, mr_attributes = 0\<rparr>
         in if rw_len w > 0
            then
              (let previous = rw_output w ! (rw_len w - 1)
               in case region_end (mr_physical_start previous) (mr_page_count previous) of
                    Inl error \<Rightarrow> (Inl error, w)
                  | Inr previous_end \<Rightarrow>
                      (if mr_kind previous = kind \<and> previous_end = start
                       then
                         (case checked_add (mr_page_count previous) page_count of
                            None \<Rightarrow> (Inl Normalize_RangeOverflow, w)
                          | Some pages \<Rightarrow>
                              (Inr (), w\<lparr>rw_output := (rw_output w)
                                 [rw_len w - 1 := previous\<lparr>mr_page_count := pages\<rparr>]\<rparr>))
                       else writer_append region w))
            else writer_append region w))"


section \<open>Overrides\<close>

fun validate_overrides_from :: "u64 option \<Rightarrow> u64 option \<Rightarrow> MemoryRegionOverride list \<Rightarrow> NormalizeError + unit" where
  "validate_overrides_from previous_start previous_end [] = Inr ()"
| "validate_overrides_from previous_start previous_end (replacement # rest) =
     and_then (checked_region_end (ov_physical_start replacement) (ov_page_count replacement) (ov_kind replacement)) (\<lambda>end'.
       if (case previous_start of None \<Rightarrow> False | Some start \<Rightarrow> ov_physical_start replacement < start)
       then Inl Normalize_OverrideOutOfOrder
       else if (case previous_end of None \<Rightarrow> False | Some prior \<Rightarrow> ov_physical_start replacement < prior)
       then Inl Normalize_OverrideOverlap
       else validate_overrides_from (Some (ov_physical_start replacement)) (Some end') rest)"

definition validate_overrides :: "MemoryRegionOverride list \<Rightarrow> NormalizeError + unit" where
  "validate_overrides overrides = validate_overrides_from None None overrides"

text \<open>How far the regions cover an override, from \<open>cursor\<close> on.\<close>

fun coverage_cursor :: "u32 \<Rightarrow> u64 \<Rightarrow> u64 \<Rightarrow> MemoryRegionV1 list \<Rightarrow> NormalizeError + u64" where
  "coverage_cursor kind replacement_end cursor [] = Inr cursor"
| "coverage_cursor kind replacement_end cursor (region # rest) =
     and_then (region_end (mr_physical_start region) (mr_page_count region)) (\<lambda>output_end.
       if output_end \<le> cursor then coverage_cursor kind replacement_end cursor rest
       else if mr_physical_start region > cursor \<or> mr_kind region \<noteq> kind then Inr cursor
       else
         (let cursor' = min output_end replacement_end
          in if cursor' = replacement_end then Inr cursor'
             else coverage_cursor kind replacement_end cursor' rest))"

fun validate_required_overrides :: "MemoryRegionOverride list \<Rightarrow> MemoryRegionV1 list \<Rightarrow> NormalizeError + unit" where
  "validate_required_overrides [] output = Inr ()"
| "validate_required_overrides (replacement # rest) output =
     (if \<not> ov_require_full_coverage replacement then validate_required_overrides rest output
      else
        and_then (region_end (ov_physical_start replacement) (ov_page_count replacement)) (\<lambda>replacement_end.
        and_then (coverage_cursor (ov_kind replacement) replacement_end (ov_physical_start replacement) output) (\<lambda>cursor.
          if cursor \<noteq> replacement_end then Inl Normalize_OverrideOutsideSource
          else validate_required_overrides rest output)))"


section \<open>Normalization\<close>

text \<open>One override that meets the source region: what is left of the source before it, and its overlap.\<close>

definition emit_override ::
  "MemoryRegionOverride \<Rightarrow> u64 \<Rightarrow> u32 \<Rightarrow> u64 \<Rightarrow> u64 \<Rightarrow> (RegionWriter, NormalizeError, u64) action" where
  "emit_override replacement replacement_end kind source_end cursor =
     (let replacement_start = max (ov_physical_start replacement) cursor;
          overlap_end = min replacement_end source_end
      in act_then (emit cursor replacement_start kind)
         (act_then (emit replacement_start overlap_end (ov_kind replacement))
         (act_return overlap_end)))"

text \<open>The overrides within one source region: the loop over \<open>overrides[override_index..]\<close> from address \<open>cursor\<close>
  on.  It returns the overrides and the address where it stopped.\<close>

fun apply_overrides ::
  "MemoryRegionOverride list \<Rightarrow> u32 \<Rightarrow> u64 \<Rightarrow> u64 \<Rightarrow>
     (RegionWriter, NormalizeError, MemoryRegionOverride list \<times> u64) action" where
  "apply_overrides [] kind source_end cursor w = (Inr ([], cursor), w)"
| "apply_overrides (replacement # rest) kind source_end cursor w =
     (case region_end (ov_physical_start replacement) (ov_page_count replacement) of
        Inl error \<Rightarrow> (Inl error, w)
      | Inr replacement_end \<Rightarrow>
          (if replacement_end \<le> cursor then apply_overrides rest kind source_end cursor w
           else if ov_physical_start replacement \<ge> source_end then (Inr (replacement # rest, cursor), w)
           else
             (case emit_override replacement replacement_end kind source_end cursor w of
                (Inl error, w') \<Rightarrow> (Inl error, w')
              | (Inr overlap_end, w') \<Rightarrow>
                  (if overlap_end = replacement_end then apply_overrides rest kind source_end overlap_end w'
                   else (Inr (replacement # rest, overlap_end), w')))))"

fun normalize_sources ::
  "MemoryRegionOverride list \<Rightarrow> u64 option \<Rightarrow> u64 option \<Rightarrow> SourceMemoryRegion list \<Rightarrow>
     (RegionWriter, NormalizeError, unit) action" where
  "normalize_sources overrides previous_start previous_end [] w = (Inr (), w)"
| "normalize_sources overrides previous_start previous_end (source # rest) w =
     (case checked_region_end (sr_physical_start source) (sr_page_count source) (sr_kind source) of
        Inl error \<Rightarrow> (Inl error, w)
      | Inr source_end \<Rightarrow>
          (if (case previous_start of None \<Rightarrow> False | Some start \<Rightarrow> sr_physical_start source < start)
           then (Inl Normalize_SourceOutOfOrder, w)
           else if (case previous_end of None \<Rightarrow> False | Some prior \<Rightarrow> sr_physical_start source < prior)
           then (Inl Normalize_SourceOverlap, w)
           else
             (case apply_overrides overrides (sr_kind source) source_end (sr_physical_start source) w of
                (Inl error, w') \<Rightarrow> (Inl error, w')
              | (Inr (overrides', cursor), w') \<Rightarrow>
                  (case emit cursor source_end (sr_kind source) w' of
                     (Inl error, w'') \<Rightarrow> (Inl error, w'')
                   | (Inr _, w'') \<Rightarrow>
                       normalize_sources overrides' (Some (sr_physical_start source)) (Some source_end) rest w''))))"

text \<open>The call with the sources, the overrides and the output slice; the slice is the state.\<close>

definition normalize_memory_regions ::
  "SourceMemoryRegion list \<Rightarrow> MemoryRegionOverride list \<Rightarrow> (MemoryRegionV1 list, NormalizeError, nat) action" where
  "normalize_memory_regions sources overrides output =
     (if length output > MAX_MEMORY_REGIONS then (Inl Normalize_CapacityExceeded, output)
      else
        (case validate_overrides overrides of
           Inl error \<Rightarrow> (Inl error, output)
         | Inr _ \<Rightarrow>
             (case normalize_sources overrides None None sources (writer_new output) of
                (Inl error, w) \<Rightarrow> (Inl error, rw_output w)
              | (Inr _, w) \<Rightarrow>
                  (if sources = [] \<or> rw_len w = 0 then (Inl Normalize_EmptySource, rw_output w)
                   else
                     (case validate_required_overrides overrides (take (rw_len w) (rw_output w)) of
                        Inl error \<Rightarrow> (Inl error, rw_output w)
                      | Inr _ \<Rightarrow> (Inr (rw_len w), rw_output w))))))"


section \<open>Pages and kinds\<close>

lemma region_end_iff:
  "region_end s p = Inr e \<longleftrightarrow> p \<noteq> 0 \<and> 4096 dvd unat s \<and> unat s + 4096 * unat p < 2 ^ 64 \<and> unat e = unat s + 4096 * unat p"
proof -
  have "and_then (ok_or (checked_mul p PAGE_SIZE) Normalize_RangeOverflow) (\<lambda>b. ok_or (checked_add s b) Normalize_RangeOverflow) = Inr e
      \<longleftrightarrow> Option.bind (checked_mul p 4096) (checked_add s) = Some e"
    by (auto simp: and_then_eq_Inr bind_eq_Some_conv)
  then show ?thesis
    unfolding region_end_def by (simp only: page_range_end) (simp add: page_aligned)
qed

lemma region_end_ok:
  assumes "region_ok r"
  obtains e where "region_end (mr_physical_start r) (mr_page_count r) = Inr e" "unat e = region_limit r"
proof -
  have "region_limit r < 2 ^ 64" using assms by (simp add: region_ok_def)
  from unat_of_nat_u64 [OF this] assms that [of "of_nat (region_limit r)"] show thesis
    by (simp add: region_end_iff region_ok_def region_limit_def)
qed

text \<open>The kind of every byte that a memory map covers.\<close>

definition kinds :: "MemoryRegionV1 list \<Rightarrow> (nat \<times> u32) set" where
  "kinds rs = (\<Union>r \<in> set rs. region_bytes r \<times> {mr_kind r})"

lemma kinds_simps [simp]:
  "kinds [] = {}" "kinds (r # rs) = region_bytes r \<times> {mr_kind r} \<union> kinds rs" "kinds (rs @ rs') = kinds rs \<union> kinds rs'"
  by (auto simp: kinds_def)

lemma map_ok_append:
  "map_ok (rs @ rs') \<longleftrightarrow> map_ok rs \<and> map_ok rs' \<and> (\<forall>a \<in> set rs. \<forall>b \<in> set rs'. region_limit a \<le> unat (mr_physical_start b))"
  by (auto simp: map_ok_def sorted_wrt_append)

lemma map_ok_Nil [simp]: "map_ok []"
  by (simp add: map_ok_def)

lemma map_ok_single [simp]: "map_ok [r] = region_ok r"
  by (simp add: map_ok_def)


section \<open>The writer\<close>

definition written :: "RegionWriter \<Rightarrow> MemoryRegionV1 list" where
  "written w = take (rw_len w) (rw_output w)"

text \<open>A well-formed memory map has been written up to the address \<open>limit\<close>.\<close>

definition writer_ok :: "RegionWriter \<Rightarrow> nat \<Rightarrow> bool" where
  "writer_ok w limit \<longleftrightarrow> rw_len w \<le> length (rw_output w) \<and> map_ok (written w) \<and> (\<forall>r \<in> set (written w). region_limit r \<le> limit)"

lemma writer_ok_mono: "writer_ok w a \<Longrightarrow> a \<le> b \<Longrightarrow> writer_ok w b"
  by (force simp: writer_ok_def)

definition emitted :: "u64 \<Rightarrow> u64 \<Rightarrow> u32 \<Rightarrow> MemoryRegionV1" where
  "emitted s e k = \<lparr>mr_physical_start = s, mr_page_count = (e - s) div PAGE_SIZE, mr_kind = k, mr_attributes = 0\<rparr>"

lemma emitted_ok:
  assumes "s < e" "4096 dvd unat s" "4096 dvd unat e" "is_known_memory_kind k"
  shows "region_ok (emitted s e k)" "region_limit (emitted s e k) = unat e" "unat ((e - s) div PAGE_SIZE) = (unat e - unat s) div 4096"
proof -
  have le: "unat s < unat e" using assms(1) by (simp add: word_less_nat_alt)
  show u: "unat ((e - s) div PAGE_SIZE) = (unat e - unat s) div 4096"
    using le by (simp add: unat_div unat_sub word_le_nat_alt)
  have d: "4096 dvd unat e - unat s" using assms(2,3) by (rule dvd_diff_nat [OF _ _, rotated])
  then have m: "4096 * ((unat e - unat s) div 4096) = unat e - unat s" by simp
  show l: "region_limit (emitted s e k) = unat e"
    unfolding region_limit_def emitted_def MemoryRegionV1.simps u m using le by simp
  have "0 < (unat e - unat s) div 4096" using m le by (metis diff_is_0_eq mult_0_right neq0_conv not_le)
  then have "(e - s) div PAGE_SIZE \<noteq> 0" using u by (metis less_irrefl unat_0)
  moreover have "unat e < 2 ^ 64" using unsigned_less [of e] by simp
  ultimately show "region_ok (emitted s e k)"
    using assms l by (simp add: region_ok_def) (simp add: emitted_def)
qed

lemma append_emitted:
  assumes w: "writer_ok w (unat s)" and se: "s < e" "4096 dvd unat s" "4096 dvd unat e" "is_known_memory_kind k"
    and room: "rw_len w < length (rw_output w)"
  obtains w' where "writer_append (emitted s e k) w = (Inr (), w')" "writer_ok w' (unat e)"
    "kinds (written w') = kinds (written w) \<union> {unat s ..< unat e} \<times> {k}" "rw_len w' = rw_len w + 1"
    "length (rw_output w') = length (rw_output w)"
proof -
  let ?w = "w\<lparr>rw_output := (rw_output w)[rw_len w := emitted s e k], rw_len := rw_len w + 1\<rparr>"
  note e = emitted_ok [OF se]
  have wr: "written ?w = written w @ [emitted s e k]" using room by (simp add: written_def take_Suc_conv_app_nth)
  have "\<forall>r \<in> set (written w). region_limit r \<le> unat s" "map_ok (written w)" using w by (simp_all add: writer_ok_def)
  moreover from this have "\<forall>r \<in> set (written w). region_limit r \<le> unat e"
    using se(1) by (auto simp: word_less_nat_alt)
  ultimately have ok: "writer_ok ?w (unat e)"
    unfolding writer_ok_def wr using e(1,2) room by (auto simp: map_ok_append) (simp add: emitted_def)
  have "region_bytes (emitted s e k) = {unat s ..< unat e}" using e(2) by (simp add: region_bytes_def) (simp add: emitted_def)
  then have "kinds (written ?w) = kinds (written w) \<union> {unat s ..< unat e} \<times> {k}"
    unfolding wr by (simp add: emitted_def)
  with ok that [of ?w] room show thesis by (simp add: writer_append_def)
qed

lemma page_bound: "(a :: nat) + 4096 * n = e \<Longrightarrow> n \<le> e"
  by simp

lemma merge_emitted:
  assumes w: "writer_ok w (unat s)" and se: "s < e" "4096 dvd unat s" "4096 dvd unat e" "is_known_memory_kind k"
    and prev: "written w = rs @ [r]" "mr_kind r = k" "region_limit r = unat s"
  obtains pages w' where "checked_add (mr_page_count r) ((e - s) div PAGE_SIZE) = Some pages"
    "w' = w\<lparr>rw_output := (rw_output w)[rw_len w - 1 := r\<lparr>mr_page_count := pages\<rparr>]\<rparr>" "writer_ok w' (unat e)"
    "kinds (written w') = kinds (written w) \<union> {unat s ..< unat e} \<times> {k}"
proof -
  let ?n = "(e - s) div PAGE_SIZE"
  note e = emitted_ok [OF se]
  have lt: "unat s < unat e" using se(1) by (simp add: word_less_nat_alt)
  have m: "map_ok (rs @ [r])" "rw_len w \<le> length (rw_output w)" using w prev(1) by (simp_all add: writer_ok_def)
  then have r: "region_ok r" by (simp add: map_ok_append)
  have lim: "unat (mr_physical_start r) + 4096 * (unat (mr_page_count r) + unat ?n) = unat e"
  proof -
    have "unat s + 4096 * unat ?n = unat e" using e(2) unfolding region_limit_def emitted_def MemoryRegionV1.simps .
    then show ?thesis unfolding prev(3) [symmetric] region_limit_def by (simp only: distrib_left add.assoc)
  qed
  have "unat e < 2 ^ 64" using unsigned_less [of e] by simp
  moreover have "unat (mr_page_count r) + unat ?n \<le> unat e" by (rule page_bound [OF lim])
  ultimately have "unat (mr_page_count r) + unat ?n < 2 ^ 64" by (rule le_less_trans [rotated])
  note c = checked_add_ok [OF this]
  define pages where "pages = mr_page_count r + ?n"
  note c = c [folded pages_def]
  let ?r = "r\<lparr>mr_page_count := pages\<rparr>"
  let ?w = "w\<lparr>rw_output := (rw_output w)[rw_len w - 1 := ?r]\<rparr>"
  have l: "region_limit ?r = unat e" using lim c(2) by (simp add: region_limit_def)
  have "unat (mr_page_count r) \<noteq> 0" using r by (simp add: region_ok_def unat_eq_zero)
  then have "pages \<noteq> 0" using c(2) by (metis add_is_0 unat_0)
  then have ok: "region_ok ?r" using r l \<open>unat e < 2 ^ 64\<close> by (simp add: region_ok_def)
  have "length (written w) = rw_len w" using m(2) by (simp add: written_def)
  then have len: "rw_len w = length rs + 1" using prev(1) by simp
  have wr: "written ?w = rs @ [?r]"
    using prev(1) len take_update_swap [of "rw_len w" "rw_output w" "length rs" ?r] by (simp add: written_def)
  have bytes: "region_bytes ?r = region_bytes r \<union> {unat s ..< unat e}"
    unfolding region_bytes_def l prev(3) using prev(3) lt limit_start [OF r] by auto
  have below: "region_limit q \<le> unat e" if "q \<in> set rs" for q
    using w prev(1) lt that unfolding writer_ok_def by fastforce
  have "writer_ok ?w (unat e)"
    using m ok l below unfolding writer_ok_def wr by (simp add: map_ok_append)
  moreover have "kinds (written ?w) = kinds (written w) \<union> {unat s ..< unat e} \<times> {k}"
    unfolding wr prev(1) kinds_simps bytes using prev(2) by (simp add: Sigma_Un_distrib1 Un_ac)
  ultimately show thesis by (rule that [OF c(1) refl])
qed

lemma emit_cases:
  assumes w: "writer_ok w (unat s)" and se: "s \<le> e" "4096 dvd unat s" "4096 dvd unat e" "is_known_memory_kind k"
  obtains (full) "emit s e k w = (Inl Normalize_CapacityExceeded, w)" "rw_len w = length (rw_output w)"
    | (wrote) w' where "emit s e k w = (Inr (), w')" "writer_ok w' (unat e)"
        "kinds (written w') = kinds (written w) \<union> {unat s ..< unat e} \<times> {k}" "rw_len w' \<le> rw_len w + 1"
        "length (rw_output w') = length (rw_output w)"
proof (cases "s = e")
  case True
  then show ?thesis using wrote [of w] w by (simp add: emit_def)
next
  case False
  then have lt: "s < e" using se(1) by simp
  have le: "rw_len w \<le> length (rw_output w)" using w by (simp add: writer_ok_def)
  let ?app = "writer_append (emitted s e k) w"
  have alone: thesis if eq: "emit s e k w = ?app"
  proof (cases "rw_len w < length (rw_output w)")
    case True
    with w lt se(2-4) show ?thesis
      by (cases rule: append_emitted) (use eq wrote in auto)
  next
    case False
    then show ?thesis using full eq le by (simp add: writer_append_def)
  qed
  show ?thesis
  proof (cases "rw_len w = 0")
    case True
    then show ?thesis using alone False by (simp add: emit_def emitted_def Let_def)
  next
    case pos: False
    let ?r = "rw_output w ! (rw_len w - 1)"
    have wr: "written w = take (rw_len w - 1) (rw_output w) @ [?r]"
      using pos le take_Suc_conv_app_nth [of "rw_len w - 1" "rw_output w"] by (simp add: written_def)
    then have "region_ok ?r" using w by (simp add: writer_ok_def map_ok_append)
    then obtain x where x: "region_end (mr_physical_start ?r) (mr_page_count ?r) = Inr x" "unat x = region_limit ?r"
      by (rule region_end_ok)
    show ?thesis
    proof (cases "mr_kind ?r = k \<and> x = s")
      case True
      then obtain pages w' where "checked_add (mr_page_count ?r) ((e - s) div PAGE_SIZE) = Some pages"
        "w' = w\<lparr>rw_output := (rw_output w)[rw_len w - 1 := ?r\<lparr>mr_page_count := pages\<rparr>]\<rparr>" "writer_ok w' (unat e)"
        "kinds (written w') = kinds (written w) \<union> {unat s ..< unat e} \<times> {k}"
        using merge_emitted [OF w lt se(2-4) wr] x(2) by auto
      then show ?thesis using wrote [of w'] False pos x(1) True by (simp add: emit_def Let_def)
    next
      case differs: False
      then have "emit s e k w = ?app" using False pos x(1) by (auto simp: emit_def emitted_def Let_def)
      then show ?thesis by (rule alone)
    qed
  qed
qed


section \<open>Sources and overrides as memory maps\<close>

definition override_region :: "MemoryRegionOverride \<Rightarrow> MemoryRegionV1" where
  "override_region r = \<lparr>mr_physical_start = ov_physical_start r, mr_page_count = ov_page_count r, mr_kind = ov_kind r, mr_attributes = 0\<rparr>"

definition source_region :: "SourceMemoryRegion \<Rightarrow> MemoryRegionV1" where
  "source_region r = \<lparr>mr_physical_start = sr_physical_start r, mr_page_count = sr_page_count r, mr_kind = sr_kind r, mr_attributes = 0\<rparr>"

lemma region_conv_simps [simp]:
  "mr_physical_start (override_region r) = ov_physical_start r" "mr_page_count (override_region r) = ov_page_count r"
  "mr_kind (override_region r) = ov_kind r" "mr_attributes (override_region r) = 0"
  "mr_physical_start (source_region s) = sr_physical_start s" "mr_page_count (source_region s) = sr_page_count s"
  "mr_kind (source_region s) = sr_kind s" "mr_attributes (source_region s) = 0"
  by (simp_all add: override_region_def source_region_def)

lemma checked_region_end_iff:
  "checked_region_end (mr_physical_start r) (mr_page_count r) (mr_kind r) = Inr e \<and> mr_attributes r = 0 \<longleftrightarrow>
     region_ok r \<and> unat e = region_limit r"
  by (auto simp: checked_region_end_def region_end_iff region_ok_def region_limit_def)

lemma override_end_iff:
  "checked_region_end (ov_physical_start r) (ov_page_count r) (ov_kind r) = Inr e \<longleftrightarrow>
     region_ok (override_region r) \<and> unat e = region_limit (override_region r)"
  using checked_region_end_iff [of "override_region r" e] by simp

lemma source_end_iff:
  "checked_region_end (sr_physical_start r) (sr_page_count r) (sr_kind r) = Inr e \<longleftrightarrow>
     region_ok (source_region r) \<and> unat e = region_limit (source_region r)"
  using checked_region_end_iff [of "source_region r" e] by simp

lemma override_end:
  assumes "region_ok (override_region r)"
  obtains e where "region_end (ov_physical_start r) (ov_page_count r) = Inr e" "unat e = region_limit (override_region r)"
  using region_end_ok [OF assms] by auto

lemma validate_overrides_from_iff:
  "validate_overrides_from ps pe os = Inr () \<longleftrightarrow> validate_regions ps pe (map override_region os) = Inr ()"
proof (induction os arbitrary: ps pe)
  case Nil
  then show ?case by simp
next
  case (Cons r os)
  show ?case
    unfolding list.map validate_regions_step region_conv_simps
    by (auto simp: and_then_eq_Inr override_end_iff Cons.IH not_less split: option.splits)
qed

lemma validate_overrides_iff: "validate_overrides os = Inr () \<longleftrightarrow> map_ok (map override_region os)"
  unfolding validate_overrides_def validate_overrides_from_iff validate_regions_iff by simp

text \<open>The kinds of the overrides, and the kind that a byte of a source region of kind \<open>k0\<close> gets.\<close>

abbreviation override_kinds :: "MemoryRegionOverride list \<Rightarrow> (nat \<times> u32) set" where
  "override_kinds os \<equiv> kinds (map override_region os)"

definition replaced :: "MemoryRegionOverride list \<Rightarrow> u32 \<Rightarrow> nat \<Rightarrow> u32 \<Rightarrow> bool" where
  "replaced os k0 x k \<longleftrightarrow> (if \<exists>k'. (x, k') \<in> override_kinds os then (x, k) \<in> override_kinds os else k = k0)"

definition replaced_in :: "MemoryRegionOverride list \<Rightarrow> u32 \<Rightarrow> nat \<Rightarrow> nat \<Rightarrow> (nat \<times> u32) set" where
  "replaced_in os k0 a b = {(x, k). a \<le> x \<and> x < b \<and> replaced os k0 x k}"

lemma replaced_in_split: "a \<le> b \<Longrightarrow> b \<le> c \<Longrightarrow> replaced_in os k0 a c = replaced_in os k0 a b \<union> replaced_in os k0 b c"
  by (auto simp: replaced_in_def)

lemma replaced_in_cong:
  assumes "\<And>x k. a \<le> x \<Longrightarrow> x < b \<Longrightarrow> (x, k) \<in> override_kinds os \<longleftrightarrow> (x, k) \<in> override_kinds os'"
  shows "replaced_in os k0 a b = replaced_in os' k0 a b"
  using assms by (force simp: replaced_in_def replaced_def)

lemma replaced_in_none:
  assumes "\<And>x k. a \<le> x \<Longrightarrow> x < b \<Longrightarrow> (x, k) \<notin> override_kinds os"
  shows "replaced_in os k0 a b = {a ..< b} \<times> {k0}"
  using assms by (auto simp: replaced_in_def replaced_def)

lemma replaced_in_one:
  assumes "\<And>x k. a \<le> x \<Longrightarrow> x < b \<Longrightarrow> (x, k) \<in> override_kinds os \<longleftrightarrow> k = k1"
  shows "replaced_in os k0 a b = {a ..< b} \<times> {k1}"
  using assms by (auto simp: replaced_in_def replaced_def)

lemma replaced_in_empty [simp]: "replaced_in os k0 a a = {}"
  by (auto simp: replaced_in_def)

lemma override_kinds_Cons:
  assumes "map_ok (map override_region (r # os))"
  shows "region_ok (override_region r)" "map_ok (map override_region os)"
    "x < unat (ov_physical_start r) \<Longrightarrow> (x, k) \<notin> override_kinds (r # os)"
    "unat (ov_physical_start r) \<le> x \<Longrightarrow> x < region_limit (override_region r) \<Longrightarrow> (x, k) \<in> override_kinds (r # os) \<longleftrightarrow> k = ov_kind r"
    "region_limit (override_region r) \<le> x \<Longrightarrow> (x, k) \<in> override_kinds (r # os) \<longleftrightarrow> (x, k) \<in> override_kinds os"
proof -
  let ?r = "override_region r"
  show ok: "region_ok ?r" "map_ok (map override_region os)" using assms by (simp_all add: map_ok_def)
  have later: "region_limit ?r \<le> y" if "(y, k) \<in> override_kinds os" for y k
    using that assms by (force simp: kinds_def map_ok_def region_bytes_def)
  have b: "region_bytes ?r = {unat (ov_physical_start r) ..< region_limit ?r}" by (simp add: region_bytes_def)
  note s = limit_start [OF ok(1)]
  show "(x, k) \<notin> override_kinds (r # os)" if "x < unat (ov_physical_start r)"
    using that b s later [of x k] by auto
  show "(x, k) \<in> override_kinds (r # os) \<longleftrightarrow> k = ov_kind r" if "unat (ov_physical_start r) \<le> x" "x < region_limit ?r"
    using that b later [of x k] by auto
  show "(x, k) \<in> override_kinds (r # os) \<longleftrightarrow> (x, k) \<in> override_kinds os" if "region_limit ?r \<le> x"
    using that b by auto
qed

section \<open>Overrides within one source region\<close>

lemma emit_override_cases:
  assumes os: "map_ok (map override_region (r # os))" and w: "writer_ok w (unat c)" and ce: "c \<le> e" "4096 dvd unat c" "4096 dvd unat e"
    and k0: "is_known_memory_kind k0" and rend: "unat rend = region_limit (override_region r)" "c < rend" "ov_physical_start r < e"
  obtains (full) w' where "emit_override r rend k0 e c w = (Inl Normalize_CapacityExceeded, w')" "length (rw_output w) \<le> rw_len w + 1"
    | (emitted) w' where "emit_override r rend k0 e c w = (Inr (min rend e), w')" "writer_ok w' (unat (min rend e))"
        "kinds (written w') = kinds (written w) \<union> replaced_in (r # os) k0 (unat c) (unat (min rend e))"
        "rw_len w' \<le> rw_len w + 2" "length (rw_output w') = length (rw_output w)"
proof -
  let ?s = "max (ov_physical_start r) c" and ?o = "min rend e"
  note o = override_kinds_Cons [OF os]
  have r: "4096 dvd unat (ov_physical_start r)" "is_known_memory_kind (ov_kind r)" "4096 dvd unat rend"
    using o(1) rend(1) by (simp_all add: region_ok_def region_limit_def)
  have "ov_physical_start r < rend" using limit_start [OF o(1)] rend(1) by (simp add: word_less_nat_alt)
  then have s: "c \<le> ?s" "?s \<le> ?o" "4096 dvd unat ?s" "4096 dvd unat ?o" using rend ce r by (auto simp: max_def min_def)
  have u: "unat ?s = max (unat (ov_physical_start r)) (unat c)" "unat ?o = min (unat rend) (unat e)"
    by (auto simp: max_def min_def word_le_nat_alt)
  have first: "replaced_in (r # os) k0 (unat c) (unat ?s) = {unat c ..< unat ?s} \<times> {k0}"
    by (rule replaced_in_none) (use o(3) u(1) in \<open>auto simp: max_def split: if_splits\<close>)
  have second: "replaced_in (r # os) k0 (unat ?s) (unat ?o) = {unat ?s ..< unat ?o} \<times> {ov_kind r}"
    by (rule replaced_in_one) (use o(4) u rend(1) in auto)
  have both: "replaced_in (r # os) k0 (unat c) (unat ?o) = {unat c ..< unat ?s} \<times> {k0} \<union> {unat ?s ..< unat ?o} \<times> {ov_kind r}"
    unfolding first [symmetric] second [symmetric] by (rule replaced_in_split) (use s in \<open>simp_all only: word_le_nat_alt\<close>)
  from w s(1) ce(2) s(3) k0 show thesis
  proof (cases rule: emit_cases)
    case full
    then show ?thesis using that(1) by (simp add: emit_override_def act_then_def act_bind_def Let_def)
  next
    case (wrote w1)
    from wrote(2) s(2-4) r(2) show ?thesis
    proof (cases rule: emit_cases)
      case full
      then show ?thesis using that(1) wrote by (simp add: emit_override_def act_then_def act_bind_def Let_def)
    next
      case w2: (wrote w2)
      have eq: "emit_override r rend k0 e c w = (Inr ?o, w2)"
        using wrote(1) w2(1) by (simp add: emit_override_def act_then_def act_bind_def Let_def)
      show ?thesis
        by (rule that(2) [OF eq w2(2)]) (use wrote w2 both in \<open>auto simp: Un_assoc\<close>)
    qed
  qed
qed

end
