(* ===== verification/Normalize_Properties.thy ===== *)
theory Normalize_Properties
  imports Normalize
begin

text \<open>
  The loops of the normalization over overrides and sources, read as an overlay of kinds on addresses, and the
  two properties: the output is that overlay, and well-formed input is always normalized.
\<close>


text \<open>What the loop over the overrides leaves: a position up to which the map is written, and the overrides
  that still matter from there on, none of which lies in the rest of the source region.\<close>

definition overrides_applied ::
  "MemoryRegionOverride list \<Rightarrow> u32 \<Rightarrow> u64 \<Rightarrow> u64 \<Rightarrow> RegionWriter \<Rightarrow> MemoryRegionOverride list \<Rightarrow> u64 \<Rightarrow> RegionWriter \<Rightarrow> bool" where
  "overrides_applied os k0 e c w os' c' w' \<longleftrightarrow>
     c \<le> c' \<and> c' \<le> e \<and> 4096 dvd unat c' \<and> writer_ok w' (unat c') \<and> map_ok (map override_region os')
     \<and> kinds (written w') = kinds (written w) \<union> replaced_in os k0 (unat c) (unat c')
     \<and> (\<forall>x k. unat c' \<le> x \<longrightarrow> ((x, k) \<in> override_kinds os' \<longleftrightarrow> (x, k) \<in> override_kinds os))
     \<and> (\<forall>x k. unat c' \<le> x \<and> x < unat e \<longrightarrow> (x, k) \<notin> override_kinds os')
     \<and> length (rw_output w') = length (rw_output w) \<and> rw_len w' + 2 * length os' \<le> rw_len w + 2 * length os + 2"

lemma overrides_applied_stop:
  assumes "writer_ok w (unat c)" "c \<le> e" "4096 dvd unat c" "map_ok (map override_region os)"
    and "\<And>x k. unat c \<le> x \<Longrightarrow> x < unat e \<Longrightarrow> (x, k) \<notin> override_kinds os"
  shows "overrides_applied os k0 e c w os c w"
  using assms by (simp add: overrides_applied_def)

lemma overrides_applied_step:
  assumes a: "overrides_applied os k0 e c1 w1 os' c' w'" and c: "c \<le> c1"
    and k: "kinds (written w1) = kinds (written w) \<union> replaced_in (r # os) k0 (unat c) (unat c1)"
    and same: "\<And>x k. unat c1 \<le> x \<Longrightarrow> (x, k) \<in> override_kinds (r # os) \<longleftrightarrow> (x, k) \<in> override_kinds os"
    and len: "length (rw_output w1) = length (rw_output w)" "rw_len w1 \<le> rw_len w + 2"
  shows "overrides_applied (r # os) k0 e c w os' c' w'"
proof -
  have c': "unat c1 \<le> unat c'" "unat c \<le> unat c1" using a c by (simp_all add: overrides_applied_def word_le_nat_alt)
  have "replaced_in (r # os) k0 (unat c1) (unat c') = replaced_in os k0 (unat c1) (unat c')"
    by (rule replaced_in_cong) (rule same)
  with replaced_in_split [OF c'(2,1), of "r # os" k0]
  have "replaced_in (r # os) k0 (unat c) (unat c') = replaced_in (r # os) k0 (unat c) (unat c1) \<union> replaced_in os k0 (unat c1) (unat c')"
    by simp
  then have "kinds (written w') = kinds (written w) \<union> replaced_in (r # os) k0 (unat c) (unat c')"
    using a k by (simp add: overrides_applied_def Un_assoc)
  moreover have "(x, k) \<in> override_kinds os' \<longleftrightarrow> (x, k) \<in> override_kinds (r # os)" if "unat c' \<le> x" for x k
    using a same [of x k] that c'(1) by (simp add: overrides_applied_def)
  ultimately show ?thesis
    using a c len by (simp add: overrides_applied_def) (meson order_trans)
qed

lemma apply_overrides_cases:
  assumes "map_ok (map override_region os)" "writer_ok w (unat c)" "c \<le> e" "4096 dvd unat c" "4096 dvd unat e" "is_known_memory_kind k0"
  obtains (full) w' where "apply_overrides os k0 e c w = (Inl Normalize_CapacityExceeded, w')"
        "length (rw_output w) < rw_len w + 2 * length os"
    | (applied) os' c' w' where "apply_overrides os k0 e c w = (Inr (os', c'), w')" "overrides_applied os k0 e c w os' c' w'"
  using assms
proof (induction os arbitrary: c w thesis)
  case Nil
  then show ?case by (simp add: overrides_applied_stop)
next
  case (Cons r os)
  note os = Cons.prems(3) and w = Cons.prems(4) and c = Cons.prems(5,6) and e = Cons.prems(7) and k0 = Cons.prems(8)
  note o = override_kinds_Cons [OF os]
  obtain rend where rend: "region_end (ov_physical_start r) (ov_page_count r) = Inr rend" "unat rend = region_limit (override_region r)"
    by (rule override_end [OF o(1)])
  consider "rend \<le> c" | "c < rend" "e \<le> ov_physical_start r" | "c < rend" "ov_physical_start r < e" by (meson not_le)
  then show ?case
  proof cases
    case 1
    then have eq: "apply_overrides (r # os) k0 e c w = apply_overrides os k0 e c w" using rend(1) by simp
    have same: "(x, k) \<in> override_kinds (r # os) \<longleftrightarrow> (x, k) \<in> override_kinds os" if "unat c \<le> x" for x k
      using o(5) [of x k] that 1 rend(2) by (simp add: word_le_nat_alt)
    show ?thesis
    proof (rule Cons.IH [OF _ _ o(2) w c e k0])
      fix w' assume "apply_overrides os k0 e c w = (Inl Normalize_CapacityExceeded, w')" "length (rw_output w) < rw_len w + 2 * length os"
      then show thesis using Cons.prems(1) eq by simp
    next
      fix os' c' w' assume h: "apply_overrides os k0 e c w = (Inr (os', c'), w')" "overrides_applied os k0 e c w os' c' w'"
      have "overrides_applied (r # os) k0 e c w os' c' w'"
        by (rule overrides_applied_step [OF h(2) order_refl _ same]) simp_all
      then show thesis using Cons.prems(2) eq h(1) by metis
    qed
  next
    case 2
    have "(x, k) \<notin> override_kinds (r # os)" if "unat c \<le> x" "x < unat e" for x k
      using o(3) [of x k] that 2(2) by (simp add: word_le_nat_alt)
    note stop = overrides_applied_stop [OF w c os this]
    have "apply_overrides (r # os) k0 e c w = (Inr (r # os, c), w)" using rend(1) 2 by auto
    then show ?thesis using Cons.prems(2) stop by blast
  next
    case 3
    let ?o = "min rend e"
    have eq: "apply_overrides (r # os) k0 e c w = (case emit_override r rend k0 e c w of
          (Inl error, w') \<Rightarrow> (Inl error, w')
        | (Inr overlap_end, w') \<Rightarrow> (if overlap_end = rend then apply_overrides os k0 e overlap_end w' else (Inr (r # os, overlap_end), w')))"
      using rend(1) 3 by (simp add: not_le [symmetric])
    have al: "4096 dvd unat ?o" using o(1) rend(2) e by (simp add: min_def region_ok_def region_limit_def)
    from os w c e k0 rend(2) 3 show ?thesis
    proof (cases rule: emit_override_cases)
      case (full w')
      then show ?thesis using Cons.prems(1) eq by simp
    next
      case (emitted w')
      show ?thesis
      proof (cases "?o = rend")
        case True
        have same: "(x, k) \<in> override_kinds (r # os) \<longleftrightarrow> (x, k) \<in> override_kinds os" if "unat ?o \<le> x" for x k
          using o(5) [of x k] that True rend(2) by simp
        have le: "c \<le> ?o" "?o \<le> e" using 3(1) c(1) by simp_all
        have eq': "apply_overrides (r # os) k0 e c w = apply_overrides os k0 e ?o w'" using eq emitted(1) True by simp
        show ?thesis
        proof (rule Cons.IH [OF _ _ o(2) emitted(2) le(2) al e k0])
          fix w'' assume h: "apply_overrides os k0 e ?o w' = (Inl Normalize_CapacityExceeded, w'')"
            "length (rw_output w') < rw_len w' + 2 * length os"
          then show thesis using Cons.prems(1) eq' emitted(4,5) by simp
        next
          fix os' c' w'' assume h: "apply_overrides os k0 e ?o w' = (Inr (os', c'), w'')" "overrides_applied os k0 e ?o w' os' c' w''"
          have "overrides_applied (r # os) k0 e c w os' c' w''"
            by (rule overrides_applied_step [OF h(2) le(1) emitted(3) same emitted(5,4)])
          then show thesis using Cons.prems(2) eq' h(1) by metis
        qed
      next
        case False
        then have o: "?o = e" by (simp add: min_def split: if_splits)
        have "overrides_applied (r # os) k0 e c w (r # os) e w'"
          using emitted(2-5) c e os unfolding o by (auto simp: overrides_applied_def)
        moreover have "apply_overrides (r # os) k0 e c w = (Inr (r # os, e), w')" using eq emitted(1) False o by simp
        ultimately show ?thesis using Cons.prems(2) by blast
      qed
    qed
  qed
qed

section \<open>All source regions\<close>

text \<open>The kinds of a memory map with overrides laid over it.\<close>

definition overlay :: "(nat \<times> u32) set \<Rightarrow> MemoryRegionOverride list \<Rightarrow> (nat \<times> u32) set" where
  "overlay S os = {(x, k). \<exists>k0. (x, k0) \<in> S \<and> replaced os k0 x k}"

lemma overlay_simps:
  "overlay {} os = {}" "overlay (S \<union> T) os = overlay S os \<union> overlay T os"
  "overlay ({a ..< b} \<times> {k0}) os = replaced_in os k0 a b"
  by (auto simp: overlay_def replaced_in_def)

lemma overlay_cong:
  assumes "\<And>x k0 k. (x, k0) \<in> S \<Longrightarrow> (x, k) \<in> override_kinds os \<longleftrightarrow> (x, k) \<in> override_kinds os'"
  shows "overlay S os = overlay S os'"
  using assms by (force simp: overlay_def replaced_def)

lemma normalize_sources_valid:
  "normalize_sources os ps pe ss w = (Inr (), w') \<Longrightarrow> validate_regions ps pe (map source_region ss) = Inr ()"
proof (induction ss arbitrary: os ps pe w)
  case Nil
  then show ?case by simp
next
  case (Cons s ss)
  obtain e where e: "checked_region_end (sr_physical_start s) (sr_page_count s) (sr_kind s) = Inr e"
    using Cons.prems by (cases "checked_region_end (sr_physical_start s) (sr_page_count s) (sr_kind s)") auto
  have order: "\<not> (case ps of None \<Rightarrow> False | Some start \<Rightarrow> sr_physical_start s < start)"
      "\<not> (case pe of None \<Rightarrow> False | Some prior \<Rightarrow> sr_physical_start s < prior)"
    using Cons.prems e by (auto split: if_splits)
  obtain os' w'' where "normalize_sources os' (Some (sr_physical_start s)) (Some e) ss w'' = (Inr (), w')"
    using Cons.prems e order by (auto split: prod.splits sum.splits)
  from Cons.IH [OF this] e order show ?case
    unfolding list.map validate_regions_step region_conv_simps source_end_iff by (auto simp: not_less split: option.splits)
qed

lemma source_written:
  assumes os: "map_ok (map override_region os)" and s: "region_ok (source_region s)" "unat e = region_limit (source_region s)"
    and w: "writer_ok w (unat (sr_physical_start s))"
  obtains (full) w' where "apply_overrides os (sr_kind s) e (sr_physical_start s) w = (Inl Normalize_CapacityExceeded, w')"
        "length (rw_output w) < rw_len w + 2 * length os"
    | (full_rest) os' c' w' w'' where "apply_overrides os (sr_kind s) e (sr_physical_start s) w = (Inr (os', c'), w')"
        "emit c' e (sr_kind s) w' = (Inl Normalize_CapacityExceeded, w'')" "length (rw_output w) < rw_len w + 2 * length os + 3"
    | (source_done) os' c' w' w'' where "apply_overrides os (sr_kind s) e (sr_physical_start s) w = (Inr (os', c'), w')"
        "emit c' e (sr_kind s) w' = (Inr (), w'')" "writer_ok w'' (unat e)" "map_ok (map override_region os')"
        "kinds (written w'') = kinds (written w) \<union> overlay (kinds [source_region s]) os"
        "\<And>x k. unat e \<le> x \<Longrightarrow> (x, k) \<in> override_kinds os' \<longleftrightarrow> (x, k) \<in> override_kinds os"
        "length (rw_output w'') = length (rw_output w)" "rw_len w'' + 2 * length os' \<le> rw_len w + 2 * length os + 3"
proof -
  let ?c = "sr_physical_start s"
  have al: "4096 dvd unat ?c" "4096 dvd unat e" "is_known_memory_kind (sr_kind s)" and ce: "?c \<le> e"
    using s limit_start [OF s(1)] by (simp_all add: region_ok_def region_limit_def word_le_nat_alt)
  from os w ce al show thesis
  proof (cases rule: apply_overrides_cases)
    case full
    then show ?thesis using that(1) by blast
  next
    case (applied os' c' w')
    note a = applied(2) [unfolded overrides_applied_def]
    have c': "writer_ok w' (unat c')" "c' \<le> e" "4096 dvd unat c'" "unat ?c \<le> unat c'" "unat c' \<le> unat e"
      using a by (simp_all add: word_le_nat_alt)
    from c'(1,2,3) al(2,3) show ?thesis
    proof (cases rule: emit_cases)
      case full
      then show ?thesis using that(2) [OF applied(1) full(1)] a by simp
    next
      case (wrote w'')
      have none: "(x, k) \<notin> override_kinds os" if "unat c' \<le> x" "x < unat e" for x k
        using a that by blast
      have bytes: "kinds [source_region s] = {unat ?c ..< unat e} \<times> {sr_kind s}"
        using s(2) by (simp add: region_bytes_def)
      have "overlay (kinds [source_region s]) os = replaced_in os (sr_kind s) (unat ?c) (unat c') \<union> {unat c' ..< unat e} \<times> {sr_kind s}"
        unfolding bytes overlay_simps replaced_in_split [OF c'(4,5)]
        using replaced_in_none [of "unat c'" "unat e" os "sr_kind s"] none by simp
      then have "kinds (written w'') = kinds (written w) \<union> overlay (kinds [source_region s]) os"
        using wrote(3) a by (simp add: Un_assoc)
      moreover have "(x, k) \<in> override_kinds os' \<longleftrightarrow> (x, k) \<in> override_kinds os" if "unat e \<le> x" for x k
        using a that c'(5) order_trans by blast
      ultimately show ?thesis using that(3) [OF applied(1) wrote(1,2)] a wrote(4,5) by simp
    qed
  qed
qed


lemma normalize_sources_cases:
  assumes "validate_regions ps pe (map source_region ss) = Inr ()" "map_ok (map override_region os)"
    and "writer_ok w (case pe of None \<Rightarrow> 0 | Some e \<Rightarrow> unat e)"
  obtains (full) w' where "normalize_sources os ps pe ss w = (Inl Normalize_CapacityExceeded, w')"
        "length (rw_output w) < rw_len w + 2 * length os + 3 * length ss"
    | (normalized) w' where "normalize_sources os ps pe ss w = (Inr (), w')" "rw_len w' \<le> length (rw_output w')"
        "map_ok (written w')" "kinds (written w') = kinds (written w) \<union> overlay (kinds (map source_region ss)) os"
        "length (rw_output w') = length (rw_output w)"
  using assms
proof (induction ss arbitrary: os ps pe w thesis)
  case Nil
  show ?case by (rule Nil.prems(2) [of w]) (use Nil.prems(5) in \<open>simp_all add: writer_ok_def overlay_simps\<close>)
next
  case (Cons s ss)
  from Cons.prems(3) [unfolded list.map validate_regions_step region_conv_simps] obtain e where
    s: "region_ok (source_region s)" "unat e = region_limit (source_region s)"
    and order: "\<forall>x. ps = Some x \<longrightarrow> x \<le> sr_physical_start s" "\<forall>x. pe = Some x \<longrightarrow> x \<le> sr_physical_start s"
    and rest: "validate_regions (Some (sr_physical_start s)) (Some e) (map source_region ss) = Inr ()" by blast
  have w: "writer_ok w (unat (sr_physical_start s))"
    by (rule writer_ok_mono [OF Cons.prems(5)]) (use order(2) in \<open>simp add: word_le_nat_alt split: option.splits\<close>)
  have step: "normalize_sources os ps pe (s # ss) w =
      (case apply_overrides os (sr_kind s) e (sr_physical_start s) w of
         (Inl error, w') \<Rightarrow> (Inl error, w')
       | (Inr (os', cursor), w') \<Rightarrow>
           (case emit cursor e (sr_kind s) w' of
              (Inl error, w'') \<Rightarrow> (Inl error, w'')
            | (Inr _, w'') \<Rightarrow> normalize_sources os' (Some (sr_physical_start s)) (Some e) ss w''))"
    using s order source_end_iff [of s e] by (cases ps; cases pe) (simp_all add: not_less [symmetric])
  from Cons.prems(4) s w show ?case
  proof (cases rule: source_written)
    case full
    then show ?thesis using Cons.prems(1) step by simp
  next
    case full_rest
    then show ?thesis using Cons.prems(1) step by simp
  next
    case (source_done os' c' w' w'')
    have eq: "normalize_sources os ps pe (s # ss) w = normalize_sources os' (Some (sr_physical_start s)) (Some e) ss w''"
      using step source_done(1,2) by simp
    have ok: "writer_ok w'' (case Some e of None \<Rightarrow> 0 | Some e \<Rightarrow> unat e)" using source_done(3) by simp
    have later: "unat e \<le> x" if "(x, k) \<in> kinds (map source_region ss)" for x k
    proof -
      obtain r where r: "r \<in> set (map source_region ss)" "x \<in> region_bytes r" using \<open>(x, k) \<in> _\<close> by (auto simp: kinds_def)
      have "map_ok (source_region s # map source_region ss)"
        using Cons.prems(3) unfolding validate_regions_iff by simp
      then have "region_limit (source_region s) \<le> unat (mr_physical_start r)" using r(1) by (auto simp: map_ok_def)
      then show ?thesis using r(2) s(2) by (simp add: region_bytes_def)
    qed
    have ov: "overlay (kinds (map source_region ss)) os' = overlay (kinds (map source_region ss)) os"
      by (rule overlay_cong) (rule source_done(6), rule later)
    show ?thesis
    proof (rule Cons.IH [OF _ _ rest source_done(4) ok])
      fix v assume "normalize_sources os' (Some (sr_physical_start s)) (Some e) ss w'' = (Inl Normalize_CapacityExceeded, v)"
        "length (rw_output w'') < rw_len w'' + 2 * length os' + 3 * length ss"
      then show thesis using Cons.prems(1) eq source_done(7,8) by simp
    next
      fix v assume h: "normalize_sources os' (Some (sr_physical_start s)) (Some e) ss w'' = (Inr (), v)"
        "rw_len v \<le> length (rw_output v)" "map_ok (written v)"
        "kinds (written v) = kinds (written w'') \<union> overlay (kinds (map source_region ss)) os'" "length (rw_output v) = length (rw_output w'')"
      have "kinds (map source_region (s # ss)) = kinds [source_region s] \<union> kinds (map source_region ss)" by simp
      then have "kinds (written v) = kinds (written w) \<union> overlay (kinds (map source_region (s # ss))) os"
        using h(4) source_done(5) ov by (simp only: overlay_simps Un_assoc)
      with h source_done(7) Cons.prems(2) [of v] eq show thesis by simp
    qed
  qed
qed

section \<open>Required overrides\<close>

lemma coverage_sound:
  assumes "coverage_cursor k rend c rs = Inr c'" "c \<le> rend" "list_all region_ok rs"
  shows "c \<le> c'" "c' \<le> rend" "{unat c ..< unat c'} \<times> {k} \<subseteq> kinds rs"
proof -
  have "c \<le> c' \<and> c' \<le> rend \<and> {unat c ..< unat c'} \<times> {k} \<subseteq> kinds rs"
    using assms
  proof (induction rs arbitrary: c)
    case Nil
    then show ?case by simp
  next
    case (Cons r rs)
    have "region_ok r" using Cons.prems(3) by simp
    then obtain e where e: "region_end (mr_physical_start r) (mr_page_count r) = Inr e" "unat e = region_limit r" by (rule region_end_ok)
    consider "e \<le> c" | "c < e" "mr_physical_start r > c \<or> mr_kind r \<noteq> k" | "c < e" "mr_physical_start r \<le> c" "mr_kind r = k"
      by (meson not_le)
    then show ?case
    proof cases
      case 1
      then have "coverage_cursor k rend c rs = Inr c'" using Cons.prems(1) e(1) by simp
      from Cons.IH [OF this Cons.prems(2)] Cons.prems(3) show ?thesis by auto
    next
      case 2
      then show ?thesis using Cons.prems e(1) by (auto simp: not_le [symmetric])
    next
      case 3
      let ?m = "min e rend"
      have m: "c \<le> ?m" "?m \<le> rend" "?m \<le> e" using 3(1) Cons.prems(2) by simp_all
      have part: "{unat c ..< unat ?m} \<times> {k} \<subseteq> region_bytes r \<times> {mr_kind r}"
        using 3(2,3) m(3) e(2) by (auto simp: region_bytes_def word_le_nat_alt)
      show ?thesis
      proof (cases "?m = rend")
        case True
        then have "c' = rend" using Cons.prems(1) e(1) 3 by (auto simp: not_le [symmetric] Let_def split: if_splits)
        then show ?thesis using True part m Cons.prems(2) by auto
      next
        case False
        then have "coverage_cursor k rend ?m rs = Inr c'"
          using Cons.prems(1) e(1) 3 by (auto simp: not_le [symmetric] Let_def split: if_splits)
        from Cons.IH [OF this m(2)] Cons.prems(3) have ih: "?m \<le> c'" "c' \<le> rend" "{unat ?m ..< unat c'} \<times> {k} \<subseteq> kinds rs" by simp_all
        have "{unat c ..< unat c'} \<subseteq> {unat c ..< unat ?m} \<union> {unat ?m ..< unat c'}" by auto
        then show ?thesis using part ih order_trans [OF m(1) ih(1)] by auto
      qed
    qed
  qed
  then show "c \<le> c'" "c' \<le> rend" "{unat c ..< unat c'} \<times> {k} \<subseteq> kinds rs" by blast+
qed

lemma required_sound:
  assumes "validate_required_overrides os rs = Inr ()" "list_all region_ok rs" "r \<in> set os" "ov_require_full_coverage r"
  shows "kinds [override_region r] \<subseteq> kinds rs"
  using assms
proof (induction os)
  case (Cons q os)
  show ?case
  proof (cases "ov_require_full_coverage q")
    case True
    obtain e c where q: "region_end (ov_physical_start q) (ov_page_count q) = Inr e"
        "coverage_cursor (ov_kind q) e (ov_physical_start q) rs = Inr c" "c = e" "validate_required_overrides os rs = Inr ()"
      using Cons.prems(1) True by (auto simp: and_then_eq_Inr split: if_splits)
    have u: "unat e = unat (ov_physical_start q) + 4096 * unat (ov_page_count q)" using q(1) by (simp add: region_end_iff)
    then have "ov_physical_start q \<le> e" by (simp add: word_le_nat_alt)
    from coverage_sound(3) [OF q(2) this Cons.prems(2)] u q(3) have "kinds [override_region q] \<subseteq> kinds rs"
      by (simp add: region_bytes_def region_limit_def)
    then show ?thesis using Cons q(4) by auto
  next
    case False
    then show ?thesis using Cons by auto
  qed
qed simp

lemma kinds_after:
  assumes "map_ok (r # rs)" "(x, k) \<in> kinds rs"
  shows "region_limit r \<le> x"
  using assms by (force simp: map_ok_def kinds_def region_bytes_def)

lemma coverage_complete:
  assumes "map_ok rs" "c \<le> rend" "{unat c ..< unat rend} \<times> {k} \<subseteq> kinds rs"
  shows "coverage_cursor k rend c rs = Inr rend"
  using assms
proof (induction rs arbitrary: c)
  case Nil
  then have "\<not> unat c < unat rend" by auto
  then show ?case using Nil.prems(2) by (simp add: word_less_nat_alt word_le_nat_alt word_unat_eq_iff)
next
  case (Cons r rs)
  have rs: "map_ok rs" "region_ok r" using Cons.prems(1) by (simp_all add: map_ok_def)
  then obtain e where e: "region_end (mr_physical_start r) (mr_page_count r) = Inr e" "unat e = region_limit r" using region_end_ok by blast
  have tail: "{unat a ..< unat rend} \<times> {k} \<subseteq> kinds rs" if a: "c \<le> a" "e \<le> a" for a
  proof clarify
    fix x assume x: "x \<in> {unat a ..< unat rend}"
    then have "x \<in> {unat c ..< unat rend}" using a(1) by (simp add: word_le_nat_alt)
    then have "(x, k) \<in> kinds (r # rs)" using Cons.prems(3) by blast
    moreover have "x \<notin> region_bytes r" using x a(2) e(2) by (simp add: region_bytes_def word_le_nat_alt)
    ultimately show "(x, k) \<in> kinds rs" by simp
  qed
  consider "e \<le> c" | "c < e" "c = rend" | "c < e" "c < rend" using Cons.prems(2) by fastforce
  then show ?case
  proof cases
    case 1
    then show ?thesis using Cons.IH [OF rs(1) Cons.prems(2) tail] e(1) by simp
  next
    case 2
    then show ?thesis using e(1) by (auto simp: Let_def min_def)
  next
    case 3
    then have "unat c \<in> {unat c ..< unat rend}" by (simp add: word_less_nat_alt)
    then have "(unat c, k) \<in> kinds (r # rs)" using Cons.prems(3) by blast
    moreover have "(unat c, k) \<notin> kinds rs" using kinds_after [OF Cons.prems(1), of "unat c" k] 3(1) e(2) by (auto simp: word_less_nat_alt)
    ultimately have r: "\<not> c < mr_physical_start r" "mr_kind r = k" by (auto simp: region_bytes_def word_less_nat_alt)
    have "coverage_cursor k rend e rs = Inr rend" if "min e rend \<noteq> rend"
      by (rule Cons.IH [OF rs(1) _ tail]) (use that 3(1) in \<open>auto simp: min_def split: if_splits\<close>)
    moreover have "min e rend = e" if "min e rend \<noteq> rend" using that by (simp add: min_def split: if_splits)
    ultimately show ?thesis using e(1) r 3(1) by (auto simp: Let_def)
  qed
qed

lemma required_complete:
  assumes "map_ok rs" "list_all (\<lambda>r. region_ok (override_region r)) os"
    and "\<And>r. r \<in> set os \<Longrightarrow> ov_require_full_coverage r \<Longrightarrow> kinds [override_region r] \<subseteq> kinds rs"
  shows "validate_required_overrides os rs = Inr ()"
  using assms
proof (induction os)
  case (Cons q os)
  have ih: "validate_required_overrides os rs = Inr ()" using Cons by simp
  have "region_ok (override_region q)" using Cons.prems(2) by simp
  then obtain e where e: "region_end (ov_physical_start q) (ov_page_count q) = Inr e" "unat e = region_limit (override_region q)"
    by (rule override_end)
  have "coverage_cursor (ov_kind q) e (ov_physical_start q) rs = Inr e" if "ov_require_full_coverage q"
  proof (rule coverage_complete [OF assms(1)])
    show "ov_physical_start q \<le> e" using e(2) by (simp add: word_le_nat_alt region_limit_def)
    show "{unat (ov_physical_start q) ..< unat e} \<times> {ov_kind q} \<subseteq> kinds rs"
      using Cons.prems(3) [of q] that e(2) by (simp add: region_bytes_def)
  qed
  then show ?case using ih e(1) by simp
qed simp


lemma overlay_addresses: "fst ` overlay S os = fst ` S"
proof (intro equalityI subsetI)
  fix x assume "x \<in> fst ` overlay S os"
  then show "x \<in> fst ` S" by (force simp: overlay_def)
next
  fix x assume "x \<in> fst ` S"
  then obtain k0 where k0: "(x, k0) \<in> S" by force
  obtain k where "replaced os k0 x k" by (cases "\<exists>k'. (x, k') \<in> override_kinds os") (auto simp: replaced_def)
  with k0 have "(x, k) \<in> overlay S os" by (auto simp: overlay_def)
  then show "x \<in> fst ` overlay S os" by force
qed

lemma override_in_overlay:
  assumes "r \<in> set os" "region_bytes (override_region r) \<subseteq> fst ` S"
  shows "kinds [override_region r] \<subseteq> overlay S os"
proof -
  have "(x, ov_kind r) \<in> overlay S os" if x: "x \<in> region_bytes (override_region r)" for x
  proof -
    obtain k0 where k0: "(x, k0) \<in> S" using subsetD [OF assms(2) x] by force
    have "(x, ov_kind r) \<in> override_kinds os" using assms(1) x by (force simp: kinds_def)
    then have "replaced os k0 x (ov_kind r)" unfolding replaced_def by metis
    then show ?thesis using k0 by (auto simp: overlay_def)
  qed
  then show ?thesis by auto
qed


section \<open>Properties\<close>

lemma normalize_sound:
  assumes "normalize_memory_regions sources overrides output = (Inr n, output')"
  shows "0 < n \<and> n \<le> MAX_MEMORY_REGIONS \<and> length output' = length output \<and> map_ok (take n output')
    \<and> kinds (take n output') = overlay (kinds (map source_region sources)) overrides
    \<and> (\<forall>r \<in> set overrides. ov_require_full_coverage r \<longrightarrow> kinds [override_region r] \<subseteq> kinds (take n output'))"
proof -
  obtain w where len: "length output \<le> 1024" and v: "validate_overrides overrides = Inr ()"
    and s: "normalize_sources overrides None None sources (writer_new output) = (Inr (), w)" and n: "rw_len w \<noteq> 0" "n = rw_len w" "output' = rw_output w"
    and r: "validate_required_overrides overrides (take (rw_len w) (rw_output w)) = Inr ()"
    using assms by (auto simp: normalize_memory_regions_def split: if_splits sum.splits prod.splits)
  have os: "map_ok (map override_region overrides)" using v by (simp only: validate_overrides_iff)
  have w0: "writer_ok (writer_new output) (case None of None \<Rightarrow> 0 | Some e \<Rightarrow> unat e)" "written (writer_new output) = []"
    by (simp_all add: writer_ok_def writer_new_def written_def)
  have wr: "written w = take n output'" using n by (simp add: written_def)
  from normalize_sources_valid [OF s] os w0(1) show ?thesis
  proof (cases rule: normalize_sources_cases)
    case (full w')
    then show ?thesis using s by simp
  next
    case (normalized w')
    then have "w' = w" using s by simp
    note d = normalized(2-5) [unfolded this wr w0(2)]
    have l: "length output' = length output" using d(4) n(3) by (simp add: writer_new_def)
    have k: "kinds (take n output') = overlay (kinds (map source_region sources)) overrides" using d(3) by simp
    have "list_all region_ok (take n output')" using d(2) by (simp add: map_ok_def)
    then have "\<forall>r \<in> set overrides. ov_require_full_coverage r \<longrightarrow> kinds [override_region r] \<subseteq> kinds (take n output')"
      using required_sound [OF r [folded written_def, unfolded wr]] by blast
    moreover have "n \<le> 1024" using d(1) len l n by simp
    ultimately show ?thesis using l k d(2) n(1,2) by simp
  qed
qed

text \<open>C14: normalization writes exactly the memory map that its arguments describe.  When it succeeds, the output
  is a well-formed memory map in which every byte of a source region has the kind of the override that
  covers it, or else the kind of its source region, and no other byte is covered; overrides that must be
  covered in full are.\<close>

theorem normalize_correct:
  assumes "normalize_memory_regions sources overrides output = (Inr n, output')"
  shows "0 < n \<and> n \<le> MAX_MEMORY_REGIONS \<and> length output' = length output \<and> map_ok (take n output')
    \<and> kinds (take n output') = overlay (kinds (map source_region sources)) overrides
    \<and> (\<forall>r \<in> set overrides. ov_require_full_coverage r \<longrightarrow> kinds [override_region r] \<subseteq> kinds (take n output'))"
  by (rule normalize_sound [OF assms])

lemma normalize_complete:
  assumes "map_ok (map source_region sources)" "sources \<noteq> []" "map_ok (map override_region overrides)"
    and "\<forall>r \<in> set overrides. ov_require_full_coverage r \<longrightarrow> region_bytes (override_region r) \<subseteq> fst ` kinds (map source_region sources)"
    and "3 * length sources + 2 * length overrides \<le> length output" "length output \<le> MAX_MEMORY_REGIONS"
  shows "\<exists>n output'. normalize_memory_regions sources overrides output = (Inr n, output')"
proof -
  have v: "validate_overrides overrides = Inr ()" using assms(3) by (simp only: validate_overrides_iff)
  have s: "validate_regions None None (map source_region sources) = Inr ()"
    using assms(1) by (simp only: validate_regions_iff option.distinct simp_thms)
  have w0: "writer_ok (writer_new output) (case None of None \<Rightarrow> 0 | Some e \<Rightarrow> unat e)" "written (writer_new output) = []" "rw_len (writer_new output) = 0"
    "rw_output (writer_new output) = output"
    by (simp_all add: writer_ok_def writer_new_def written_def)
  from s assms(3) w0(1) show ?thesis
  proof (cases rule: normalize_sources_cases)
    case (full w')
    then show ?thesis using assms(5) w0 by simp
  next
    case (normalized w)
    have k: "kinds (written w) = overlay (kinds (map source_region sources)) overrides" using normalized(4) w0(2) by simp
    obtain s ss where ss: "sources = s # ss" using assms(2) by (cases sources) simp_all
    have "region_ok (source_region s)" using assms(1) ss by (simp add: map_ok_def)
    from limit_start [OF this] have "unat (sr_physical_start s) \<in> region_bytes (source_region s)" by (simp add: region_bytes_def)
    then have "fst ` overlay (kinds (map source_region sources)) overrides \<noteq> {}" unfolding overlay_addresses ss by auto
    then have "kinds (written w) \<noteq> {}" using k by auto
    then have n: "rw_len w \<noteq> 0" by (auto simp: written_def)
    have "validate_required_overrides overrides (written w) = Inr ()"
    proof (rule required_complete [OF normalized(3)])
      show "list_all (\<lambda>r. region_ok (override_region r)) overrides" using assms(3) by (simp add: map_ok_def list_all_iff)
      fix r assume r: "r \<in> set overrides" "ov_require_full_coverage r"
      show "kinds [override_region r] \<subseteq> kinds (written w)"
        unfolding k using override_in_overlay [OF r(1)] assms(4) r by blast
    qed
    then show ?thesis
      using normalized(1) n v assms(2,6) by (simp add: normalize_memory_regions_def written_def)
  qed
qed


text \<open>A usable source region of three pages, the second of which is reserved by an override.\<close>

definition example_sources :: "SourceMemoryRegion list" where
  "example_sources = [\<lparr>sr_physical_start = 4096, sr_page_count = 3, sr_kind = MEMORY_USABLE\<rparr>]"

definition example_overrides :: "MemoryRegionOverride list" where
  "example_overrides =
     [\<lparr>ov_physical_start = 8192, ov_page_count = 1, ov_kind = MEMORY_RESERVED, ov_require_full_coverage = True\<rparr>]"

definition example_output :: "MemoryRegionV1 list" where
  "example_output = (let r = \<lparr>mr_physical_start = 0, mr_page_count = 0, mr_kind = 0, mr_attributes = 0\<rparr> in [r, r, r, r, r])"

definition example_normalized :: "MemoryRegionV1 list" where
  "example_normalized =
     [\<lparr>mr_physical_start = 4096, mr_page_count = 1, mr_kind = MEMORY_USABLE, mr_attributes = 0\<rparr>,
      \<lparr>mr_physical_start = 8192, mr_page_count = 1, mr_kind = MEMORY_RESERVED, mr_attributes = 0\<rparr>,
      \<lparr>mr_physical_start = 12288, mr_page_count = 1, mr_kind = MEMORY_USABLE, mr_attributes = 0\<rparr>]"

abbreviation "page_region start kind \<equiv> \<lparr>mr_physical_start = start, mr_page_count = 1, mr_kind = kind, mr_attributes = 0\<rparr>"

lemma example_ends [simp]:
  "region_end 4096 1 = Inr 8192" "region_end 8192 1 = Inr 12288" "region_end 12288 1 = Inr 16384" "region_end 4096 3 = Inr 16384"
  by (simp_all add: region_end_def is_multiple_of_def checked_mul_def checked_add_def)

lemma update_third [simp]: "(a # b # c # xs)[2 := y] = a # b # y # xs"
  by (simp add: numeral_2_eq_2)

lemma example_emit_first:
  "emit 4096 8192 MEMORY_USABLE \<lparr>rw_output = [a, b, c, d, e], rw_len = 0\<rparr> =
     (Inr (), \<lparr>rw_output = [page_region 4096 MEMORY_USABLE, b, c, d, e], rw_len = 1\<rparr>)"
  by (simp add: emit_def writer_append_def Let_def)

lemma example_emit_second:
  "emit 8192 12288 MEMORY_RESERVED \<lparr>rw_output = [page_region 4096 MEMORY_USABLE, b, c, d, e], rw_len = 1\<rparr> =
     (Inr (), \<lparr>rw_output = [page_region 4096 MEMORY_USABLE, page_region 8192 MEMORY_RESERVED, c, d, e], rw_len = 2\<rparr>)"
  by (simp add: emit_def writer_append_def Let_def)

lemma example_emit_third:
  "emit 12288 16384 MEMORY_USABLE
     \<lparr>rw_output = [page_region 4096 MEMORY_USABLE, page_region 8192 MEMORY_RESERVED, c, d, e], rw_len = 2\<rparr> =
     (Inr (), \<lparr>rw_output = [page_region 4096 MEMORY_USABLE, page_region 8192 MEMORY_RESERVED, page_region 12288 MEMORY_USABLE, d, e],
        rw_len = 3\<rparr>)"
  by (simp add: emit_def writer_append_def Let_def)

lemma example_override:
  "emit_override \<lparr>ov_physical_start = 8192, ov_page_count = 1, ov_kind = MEMORY_RESERVED, ov_require_full_coverage = True\<rparr>
     12288 MEMORY_USABLE 16384 4096 \<lparr>rw_output = [a, b, c, d, e], rw_len = 0\<rparr> =
     (Inr 12288, \<lparr>rw_output = [page_region 4096 MEMORY_USABLE, page_region 8192 MEMORY_RESERVED, c, d, e], rw_len = 2\<rparr>)"
  using example_emit_first [of a b c d e] example_emit_second [of b c d e]
  by (simp add: emit_override_def act_then_def act_bind_def Let_def min_def max_def)


lemma example_run:
  "normalize_memory_regions example_sources example_overrides example_output = (Inr 3, example_normalized @ drop 3 example_output)"
proof -
  obtain d where out: "example_output = [d, d, d, d, d]" by (simp add: example_output_def Let_def)
  have v: "validate_overrides example_overrides = Inr ()"
    by (simp add: example_overrides_def validate_overrides_def checked_region_end_def is_known_memory_kind_def)
  let ?w = "\<lparr>rw_output = example_normalized @ drop 3 example_output, rw_len = 3\<rparr>"
  have s: "normalize_sources example_overrides None None example_sources (writer_new example_output) = (Inr (), ?w)"
    using example_override [of d d d d d] example_emit_third [of d d d]
    by (simp add: example_sources_def example_overrides_def example_normalized_def writer_new_def out checked_region_end_def
        is_known_memory_kind_def)
  have "take 3 (example_normalized @ drop 3 example_output) = example_normalized" by (simp add: example_normalized_def)
  moreover have "validate_required_overrides example_overrides example_normalized = Inr ()"
    by (simp add: example_overrides_def example_normalized_def Let_def)
  ultimately show ?thesis
    using v s by (simp add: normalize_memory_regions_def out example_sources_def)
qed

theorem normalize_correct_witness:
  "normalize_memory_regions example_sources example_overrides example_output = (Inr 3, example_normalized @ drop 3 example_output)
    \<and> map_ok example_normalized
    \<and> kinds example_normalized = overlay (kinds (map source_region example_sources)) example_overrides"
proof -
  have take3: "take 3 (example_normalized @ drop 3 example_output) = example_normalized" by (simp add: example_normalized_def)
  from normalize_correct [OF example_run, unfolded take3] example_run show ?thesis by (elim conjE) (intro conjI)
qed

lemma example_maps:
  "map_ok (map source_region example_sources)" "map_ok (map override_region example_overrides)"
  by (simp_all add: example_sources_def example_overrides_def map_ok_def region_ok_def region_limit_def is_known_memory_kind_def)

lemma example_covered:
  "\<forall>r \<in> set example_overrides. ov_require_full_coverage r \<longrightarrow>
     region_bytes (override_region r) \<subseteq> fst ` kinds (map source_region example_sources)"
proof -
  have "{8192 ..< 12288} \<subseteq> {4096 ..< 16384 :: nat}" by (rule ivl_subset [THEN iffD2]) simp
  then show ?thesis by (simp only: example_sources_def example_overrides_def region_bytes_def region_limit_def list.set list.map
        kinds_simps region_conv_simps MemoryRegionOverride.simps SourceMemoryRegion.simps ball_simps Un_empty_right fst_image_times insert_not_empty if_False) simp
qed


end
