(* ===== verification/Frame_Allocator.thy ===== *)
theory Frame_Allocator
  imports Boot_Contract
begin

text \<open>
  The physical frame allocator of \<open>crates/frame-allocator/src/lib.rs\<close>: two fixed arrays of extents, one of
  managed memory and one of free memory, with initialization from a memory map, allocation of the lowest
  free frame and deallocation with coalescing.  Array elements beyond the length are kept as they are.
\<close>


section \<open>Data\<close>

definition MAX_FRAME_EXTENTS :: nat where [simp, const_simps]: "MAX_FRAME_EXTENTS = MAX_MEMORY_REGIONS"

record Extent =
  ex_physical_start :: u64
  ex_page_count :: u64

definition Extent_EMPTY :: Extent where
  "Extent_EMPTY = \<lparr>ex_physical_start = 0, ex_page_count = 0\<rparr>"

definition extent_end :: "Extent \<Rightarrow> u64 option" where
  "extent_end e = Option.bind (checked_mul (ex_page_count e) PAGE_SIZE) (checked_add (ex_physical_start e))"

definition contains_frame :: "Extent \<Rightarrow> u64 \<Rightarrow> u64 \<Rightarrow> bool" where
  "contains_frame e physical_start frame_end =
     (case extent_end e of
        None \<Rightarrow> False
      | Some end' \<Rightarrow> ex_physical_start e \<le> physical_start \<and> frame_end \<le> end')"

datatype InitError =
    Init_ZeroPages | Init_Unaligned | Init_RangeOverflow | Init_OutOfOrder | Init_Overlap | Init_UnknownKind
  | Init_Attributes | Init_CapacityExceeded

datatype AllocateError = Allocate_Exhausted | Allocate_InvariantOverflow

datatype FreeError = Free_Unaligned | Free_AddressOverflow | Free_Unmanaged | Free_Duplicate | Free_CapacityExceeded

record FrameAllocator =
  fa_managed :: "Extent list"
  fa_managed_len :: nat
  fa_free :: "Extent list"
  fa_free_len :: nat

definition allocator_new :: FrameAllocator where
  "allocator_new =
     \<lparr>fa_managed = replicate MAX_FRAME_EXTENTS Extent_EMPTY, fa_managed_len = 0,
      fa_free = replicate MAX_FRAME_EXTENTS Extent_EMPTY, fa_free_len = 0\<rparr>"


section \<open>Initialization\<close>

text \<open>The first pass, with the start and the end of the region before, the end of the usable extent that the
  next region may extend, and the number of extents so far.\<close>

fun count_extents ::
  "u64 option \<Rightarrow> u64 option \<Rightarrow> u64 option \<Rightarrow> nat \<Rightarrow> MemoryRegionV1 list \<Rightarrow> InitError + nat" where
  "count_extents previous_start previous_end previous_usable_end extent_count [] = Inr extent_count"
| "count_extents previous_start previous_end previous_usable_end extent_count (region # regions) =
     (if mr_page_count region = 0 then Inl Init_ZeroPages
      else if \<not> is_multiple_of (mr_physical_start region) PAGE_SIZE then Inl Init_Unaligned
      else if \<not> is_known_memory_kind (mr_kind region) then Inl Init_UnknownKind
      else if mr_attributes region \<noteq> 0 then Inl Init_Attributes
      else
        and_then (ok_or (Option.bind (checked_mul (mr_page_count region) PAGE_SIZE)
            (checked_add (mr_physical_start region))) Init_RangeOverflow) (\<lambda>end'.
          if (case previous_start of None \<Rightarrow> False | Some start \<Rightarrow> mr_physical_start region < start)
          then Inl Init_OutOfOrder
          else if (case previous_end of None \<Rightarrow> False | Some prior_end \<Rightarrow> mr_physical_start region < prior_end)
          then Inl Init_Overlap
          else if mr_kind region = MEMORY_USABLE
          then
            (let extent_count' = (if previous_usable_end \<noteq> Some (mr_physical_start region) then extent_count + 1
                                  else extent_count)
             in if previous_usable_end \<noteq> Some (mr_physical_start region)
                   \<and> (extent_count' \<ge> 2 ^ 64 \<or> extent_count' > MAX_FRAME_EXTENTS)
                then Inl Init_CapacityExceeded
                else count_extents (Some (mr_physical_start region)) (Some end') (Some end') extent_count' regions)
          else count_extents (Some (mr_physical_start region)) (Some end') None extent_count regions))"

definition validate_and_count_extents :: "MemoryRegionV1 list \<Rightarrow> InitError + nat" where
  "validate_and_count_extents regions = count_extents None None None 0 regions"

text \<open>The second pass: one region is merged into the last extent or appended.\<close>

definition fill_region :: "MemoryRegionV1 \<Rightarrow> FrameAllocator \<Rightarrow> FrameAllocator" where
  "fill_region region a =
     (if mr_kind region \<noteq> MEMORY_USABLE then a
      else if fa_managed_len a \<noteq> 0
        \<and> extent_end (fa_managed a ! (fa_managed_len a - 1)) = Some (mr_physical_start region)
      then
        (let index = fa_managed_len a - 1; managed = fa_managed a ! index; free = fa_free a ! index
         in a\<lparr>fa_managed := (fa_managed a)
                 [index := managed\<lparr>ex_page_count := ex_page_count managed + mr_page_count region\<rparr>],
              fa_free := (fa_free a)[index := free\<lparr>ex_page_count := ex_page_count free + mr_page_count region\<rparr>]\<rparr>)
      else
        (let extent = \<lparr>ex_physical_start = mr_physical_start region, ex_page_count = mr_page_count region\<rparr>
         in a\<lparr>fa_managed := (fa_managed a)[fa_managed_len a := extent],
              fa_free := (fa_free a)[fa_free_len a := extent],
              fa_managed_len := fa_managed_len a + 1, fa_free_len := fa_free_len a + 1\<rparr>))"

definition allocator_initialize :: "MemoryRegionV1 list \<Rightarrow> (FrameAllocator, InitError, unit) action" where
  "allocator_initialize regions a =
     (case validate_and_count_extents regions of
        Inl error \<Rightarrow> (Inl error, a)
      | Inr extent_count \<Rightarrow> (Inr (), fold fill_region regions (a\<lparr>fa_managed_len := 0, fa_free_len := 0\<rparr>)))"


section \<open>Allocation\<close>

definition remove_free_extent :: "nat \<Rightarrow> FrameAllocator \<Rightarrow> FrameAllocator" where
  "remove_free_extent index a =
     a\<lparr>fa_free := foldl (\<lambda>free n. free[n - 1 := free ! n]) (fa_free a) [index + 1 ..< fa_free_len a],
       fa_free_len := fa_free_len a - 1\<rparr>"

definition allocate_frame :: "(FrameAllocator, AllocateError, u64) action" where
  "allocate_frame a =
     (if fa_free_len a = 0 then (Inl Allocate_Exhausted, a)
      else
        (let first = fa_free a ! 0; frame = ex_physical_start first
         in if ex_page_count first = 1 then (Inr frame, remove_free_extent 0 a)
            else
              (case checked_add frame PAGE_SIZE of
                 None \<Rightarrow> (Inl Allocate_InvariantOverflow, a)
               | Some following \<Rightarrow>
                   (Inr frame, a\<lparr>fa_free := (fa_free a)
                      [0 := first\<lparr>ex_physical_start := following, ex_page_count := ex_page_count first - 1\<rparr>]\<rparr>))))"


section \<open>Deallocation\<close>

text \<open>The search for the insertion point.\<close>

function find_insertion :: "Extent list \<Rightarrow> nat \<Rightarrow> u64 \<Rightarrow> u64 \<Rightarrow> nat \<Rightarrow> FreeError + nat" where
  "find_insertion free free_len physical_start frame_end insertion =
     (if insertion < free_len \<and> ex_physical_start (free ! insertion) < physical_start
      then
        (if contains_frame (free ! insertion) physical_start frame_end then Inl Free_Duplicate
         else find_insertion free free_len physical_start frame_end (insertion + 1))
      else Inr insertion)"
  by pat_completeness auto

termination
  by (relation "measure (\<lambda>(free, free_len, physical_start, frame_end, insertion). free_len - insertion)") auto

declare find_insertion.simps [simp del]

text \<open>Writing the frame into the free list at the insertion point, joined to its neighbours where they touch.\<close>

definition insert_frame :: "u64 \<Rightarrow> nat \<Rightarrow> bool \<Rightarrow> bool \<Rightarrow> (FrameAllocator, FreeError, unit) action" where
  "insert_frame physical_start insertion joins_left joins_right a =
     (let free = fa_free a; left = insertion - 1
      in if joins_left \<and> joins_right
         then
           (case Option.bind (checked_add (ex_page_count (free ! left)) 1)
                   (\<lambda>pages. checked_add pages (ex_page_count (free ! insertion))) of
              None \<Rightarrow> (Inl Free_AddressOverflow, a)
            | Some merged_pages \<Rightarrow>
                (Inr (), remove_free_extent insertion
                   (a\<lparr>fa_free := free[left := (free ! left)\<lparr>ex_page_count := merged_pages\<rparr>]\<rparr>)))
         else if joins_left
         then
           (case checked_add (ex_page_count (free ! left)) 1 of
              None \<Rightarrow> (Inl Free_AddressOverflow, a)
            | Some merged_pages \<Rightarrow>
                (Inr (), a\<lparr>fa_free := free[left := (free ! left)\<lparr>ex_page_count := merged_pages\<rparr>]\<rparr>))
         else if joins_right
         then
           (case checked_add (ex_page_count (free ! insertion)) 1 of
              None \<Rightarrow> (Inl Free_AddressOverflow, a)
            | Some merged_pages \<Rightarrow>
                (Inr (), a\<lparr>fa_free := free[insertion :=
                   (free ! insertion)\<lparr>ex_physical_start := physical_start, ex_page_count := merged_pages\<rparr>]\<rparr>))
         else if fa_free_len a = MAX_FRAME_EXTENTS then (Inl Free_CapacityExceeded, a)
         else
           (let shifted = foldl (\<lambda>free index. free[index + 1 := free ! index]) free (rev [insertion ..< fa_free_len a])
            in (Inr (), a\<lparr>fa_free := shifted[insertion :=
                  \<lparr>ex_physical_start = physical_start, ex_page_count = 1\<rparr>],
                fa_free_len := fa_free_len a + 1\<rparr>)))"

definition free_frame :: "u64 \<Rightarrow> (FrameAllocator, FreeError, unit) action" where
  "free_frame physical_start a =
     (if \<not> is_multiple_of physical_start PAGE_SIZE then (Inl Free_Unaligned, a)
      else
        (case checked_add physical_start PAGE_SIZE of
           None \<Rightarrow> (Inl Free_AddressOverflow, a)
         | Some frame_end \<Rightarrow>
             (if \<not> list_ex (\<lambda>e. contains_frame e physical_start frame_end) (take (fa_managed_len a) (fa_managed a))
              then (Inl Free_Unmanaged, a)
              else
                (case find_insertion (fa_free a) (fa_free_len a) physical_start frame_end 0 of
                   Inl error \<Rightarrow> (Inl error, a)
                 | Inr insertion \<Rightarrow>
                     (if insertion < fa_free_len a \<and> contains_frame (fa_free a ! insertion) physical_start frame_end
                      then (Inl Free_Duplicate, a)
                      else
                        (case if insertion = 0 then Some False
                              else map_option (\<lambda>e. e = physical_start) (extent_end (fa_free a ! (insertion - 1))) of
                           None \<Rightarrow> (Inl Free_AddressOverflow, a)
                         | Some joins_left \<Rightarrow>
                             insert_frame physical_start insertion joins_left
                               (insertion < fa_free_len a \<and> ex_physical_start (fa_free a ! insertion) = frame_end) a))))))"

definition managed_extent_count :: "FrameAllocator \<Rightarrow> nat" where
  "managed_extent_count a = fa_managed_len a"

definition free_extent_count :: "FrameAllocator \<Rightarrow> nat" where
  "free_extent_count a = fa_free_len a"

end
