(* ===== verification/Frame_Extents.thy ===== *)
theory Frame_Extents
  imports Frame_Allocator
begin

text \<open>
  Extents as sets of frames: the loops that shift an array, well-formed lists of extents, splitting and
  joining of extents, and the correctness of allocation.
\<close>


section \<open>Arrays and lists\<close>

text \<open>The two loops that move the elements of an array by one place.\<close>

lemma shift_left_nth:
  fixes xs :: "'a list" and i n :: nat
  assumes "n \<le> length xs"
  defines "ys \<equiv> \<lambda>n. foldl (\<lambda>ys k. ys[k - 1 := ys ! k]) xs [i + 1 ..< n]"
  shows "length (ys n) = length xs \<and>
    (\<forall>k < length xs. ys n ! k = (if i \<le> k \<and> k + 1 < n then xs ! (k + 1) else xs ! k))"
  using assms(1)
proof (induction n)
  case 0
  show ?case by (simp add: ys_def)
next
  case (Suc n)
  show ?case
  proof (cases "i + 1 \<le> n")
    case True
    then have eq: "ys (Suc n) = (ys n)[n - 1 := ys n ! n]" by (simp add: ys_def)
    have ih: "length (ys n) = length xs" "k < length xs \<Longrightarrow> ys n ! k = (if i \<le> k \<and> k + 1 < n then xs ! (k + 1) else xs ! k)" for k
      using Suc by simp_all
    have n: "ys n ! n = xs ! n" using ih(2) [of n] Suc.prems by simp
    have "ys (Suc n) ! k = (if i \<le> k \<and> k + 1 < Suc n then xs ! (k + 1) else xs ! k)" if k: "k < length xs" for k
    proof (cases "k = n - 1")
      case True
      then have "k + 1 = n" "i \<le> k" using \<open>i + 1 \<le> n\<close> by simp_all
      then show ?thesis using eq n ih(1) Suc.prems by auto
    next
      case False
      then have "ys (Suc n) ! k = ys n ! k" using eq by simp
      with ih(2) [OF k] False show ?thesis by (simp only:) (auto)
    qed
    then show ?thesis using eq ih(1) by simp
  next
    case False
    then have "ys (Suc n) = xs" by (simp add: ys_def)
    then show ?thesis using False by auto
  qed
qed

lemma shift_right_nth:
  assumes "n < length xs"
  shows "length (foldl (\<lambda>ys k. ys[k + 1 := ys ! k]) xs (rev [i ..< n])) = length xs \<and>
    (\<forall>k < length xs. foldl (\<lambda>ys k. ys[k + 1 := ys ! k]) xs (rev [i ..< n]) ! k =
       (if i < k \<and> k \<le> n then xs ! (k - 1) else xs ! k))"
  using assms
proof (induction n arbitrary: xs)
  case 0
  show ?case by simp
next
  case (Suc n)
  show ?case
  proof (cases "i \<le> n")
    case True
    let ?zs = "xs[n + 1 := xs ! n]"
    have n: "n < length ?zs" using Suc.prems by simp
    note ih = Suc.IH [OF n]
    have eq: "foldl (\<lambda>ys k. ys[k + 1 := ys ! k]) xs (rev [i ..< Suc n]) = foldl (\<lambda>ys k. ys[k + 1 := ys ! k]) ?zs (rev [i ..< n])"
      using True by simp
    have "(if i < k \<and> k \<le> n then ?zs ! (k - 1) else ?zs ! k) = (if i < k \<and> k \<le> Suc n then xs ! (k - 1) else xs ! k)"
      if "k < length xs" for k
      using that True Suc.prems by (cases "k = n + 1") (auto simp: nth_list_update)
    then show ?thesis using ih unfolding eq by simp
  next
    case False
    then show ?thesis by auto
  qed
qed

lemma shift_left_take:
  assumes "n \<le> length xs" "i < n"
  shows "take (n - 1) (foldl (\<lambda>ys k. ys[k - 1 := ys ! k]) xs [i + 1 ..< n]) = take i xs @ drop (i + 1) (take n xs)"
    (is "take _ ?ys = _")
proof (rule nth_equalityI)
  note s = shift_left_nth [OF assms(1), of i]
  show "length (take (n - 1) ?ys) = length (take i xs @ drop (i + 1) (take n xs))" using s assms by auto
  fix k
  assume "k < length (take (n - 1) ?ys)"
  then have k: "k < n - 1" "k < length xs" using assms by auto
  then have "take (n - 1) ?ys ! k = (if i \<le> k then xs ! (k + 1) else xs ! k)" using s by auto
  then show "take (n - 1) ?ys ! k = (take i xs @ drop (i + 1) (take n xs)) ! k"
    using k assms by (auto simp: nth_append)
qed

lemma shift_right_take:
  assumes "n < length xs" "i \<le> n"
  shows "take (n + 1) ((foldl (\<lambda>ys k. ys[k + 1 := ys ! k]) xs (rev [i ..< n]))[i := e]) = take i xs @ e # drop i (take n xs)"
    (is "take _ (?ys[i := e]) = ?zs")
proof (rule nth_equalityI)
  note s = shift_right_nth [OF assms(1), of i]
  show "length (take (n + 1) (?ys[i := e])) = length ?zs" using s assms by auto
  fix k
  assume "k < length (take (n + 1) (?ys[i := e]))"
  then have k: "k < n + 1" "k < length xs" using s by auto
  then have "take (n + 1) (?ys[i := e]) ! k = (if k = i then e else if i < k then xs ! (k - 1) else xs ! k)"
    using s assms by (auto simp: nth_list_update)
  moreover have "?zs ! k = (if k = i then e else if i < k then xs ! (k - 1) else xs ! k)"
  proof (cases "i < k")
    case True
    then obtain m where "k = i + Suc m" using less_imp_Suc_add by auto
    then show ?thesis using k assms by (simp add: nth_append)
  qed (use k assms in \<open>auto simp: nth_append\<close>)
  ultimately show "take (n + 1) (?ys[i := e]) ! k = ?zs ! k" by simp
qed

definition managed_list :: "FrameAllocator \<Rightarrow> Extent list" where
  "managed_list a = take (fa_managed_len a) (fa_managed a)"

definition free_list :: "FrameAllocator \<Rightarrow> Extent list" where
  "free_list a = take (fa_free_len a) (fa_free a)"

definition arrays_ok :: "FrameAllocator \<Rightarrow> bool" where
  "arrays_ok a \<longleftrightarrow> length (fa_managed a) = MAX_FRAME_EXTENTS \<and> length (fa_free a) = MAX_FRAME_EXTENTS
     \<and> fa_managed_len a \<le> MAX_FRAME_EXTENTS \<and> fa_free_len a \<le> MAX_FRAME_EXTENTS"

lemma length_lists [simp]:
  "arrays_ok a \<Longrightarrow> length (managed_list a) = fa_managed_len a"
  "arrays_ok a \<Longrightarrow> length (free_list a) = fa_free_len a"
  by (simp_all add: arrays_ok_def managed_list_def free_list_def)

lemma free_list_nth: "i < fa_free_len a \<Longrightarrow> fa_free a ! i = free_list a ! i"
  by (simp add: free_list_def)

lemma remove_free_list:
  assumes "arrays_ok a" "i < fa_free_len a"
  shows "free_list (remove_free_extent i a) = take i (free_list a) @ drop (i + 1) (free_list a)"
    "arrays_ok (remove_free_extent i a)" "managed_list (remove_free_extent i a) = managed_list a"
proof -
  have n: "fa_free_len a \<le> length (fa_free a)" using assms(1) by (simp add: arrays_ok_def)
  note s = shift_left_nth [OF n, of i, THEN conjunct1]
  show "free_list (remove_free_extent i a) = take i (free_list a) @ drop (i + 1) (free_list a)"
    using shift_left_take [OF n assms(2)] assms(2) by (simp add: free_list_def remove_free_extent_def min_absorb1)
  show "arrays_ok (remove_free_extent i a)" using assms s by (auto simp: arrays_ok_def remove_free_extent_def)
  show "managed_list (remove_free_extent i a) = managed_list a"
    by (simp add: managed_list_def remove_free_extent_def)
qed

lemma update_free_list:
  assumes "arrays_ok a" "i < fa_free_len a"
  shows "free_list (a\<lparr>fa_free := (fa_free a)[i := e]\<rparr>) = (free_list a)[i := e]"
    "arrays_ok (a\<lparr>fa_free := (fa_free a)[i := e]\<rparr>)" "managed_list (a\<lparr>fa_free := (fa_free a)[i := e]\<rparr>) = managed_list a"
proof -
  show "free_list (a\<lparr>fa_free := (fa_free a)[i := e]\<rparr>) = (free_list a)[i := e]"
    using take_update_swap [of "fa_free_len a" "fa_free a" i e] by (simp add: free_list_def)
qed (use assms in \<open>simp_all add: managed_list_def arrays_ok_def\<close>)

lemma insert_free_list:
  fixes a :: FrameAllocator and i e
  assumes "arrays_ok a" "i \<le> fa_free_len a" "fa_free_len a < MAX_FRAME_EXTENTS"
  defines "b \<equiv> a\<lparr>fa_free := (foldl (\<lambda>free index. free[index + 1 := free ! index]) (fa_free a)
      (rev [i ..< fa_free_len a]))[i := e], fa_free_len := fa_free_len a + 1\<rparr>"
  shows "free_list b = take i (free_list a) @ e # drop i (free_list a)" "arrays_ok b" "managed_list b = managed_list a"
proof -
  have n: "fa_free_len a < length (fa_free a)" using assms(1,3) by (simp add: arrays_ok_def)
  note s = shift_right_nth [OF n, of i, THEN conjunct1]
  show "free_list b = take i (free_list a) @ e # drop i (free_list a)"
    using shift_right_take [OF n assms(2), of e] assms(2) by (simp add: b_def free_list_def min_absorb1)
  show "arrays_ok b" "managed_list b = managed_list a"
    using assms(1,3) s by (simp_all add: b_def arrays_ok_def managed_list_def)
qed

section \<open>Extents as sets of frames\<close>

definition ext_limit :: "Extent \<Rightarrow> nat" where
  "ext_limit e = unat (ex_physical_start e) + 4096 * unat (ex_page_count e)"

definition extent_ok :: "Extent \<Rightarrow> bool" where
  "extent_ok e \<longleftrightarrow> ex_page_count e \<noteq> 0 \<and> 4096 dvd unat (ex_physical_start e) \<and> ext_limit e < 2 ^ 64"

definition extent_frames :: "Extent \<Rightarrow> nat set" where
  "extent_frames e = {f. 4096 dvd f \<and> unat (ex_physical_start e) \<le> f \<and> f < ext_limit e}"

definition frames_of :: "Extent list \<Rightarrow> nat set" where
  "frames_of es = (\<Union>e \<in> set es. extent_frames e)"

text \<open>The extents of a list are well formed, in order, and separated by at least one frame.\<close>

definition extents_ok :: "Extent list \<Rightarrow> bool" where
  "extents_ok es \<longleftrightarrow> list_all extent_ok es \<and> sorted_wrt (\<lambda>a b. ext_limit a < unat (ex_physical_start b)) es"

lemma frames_of_simps [simp]:
  "frames_of [] = {}" "frames_of (e # es) = extent_frames e \<union> frames_of es"
  "frames_of (es @ es') = frames_of es \<union> frames_of es'"
  by (auto simp: frames_of_def)

lemma extents_ok_append:
  "extents_ok (es @ es') \<longleftrightarrow> extents_ok es \<and> extents_ok es'
     \<and> (\<forall>a \<in> set es. \<forall>b \<in> set es'. ext_limit a < unat (ex_physical_start b))"
  by (auto simp: extents_ok_def sorted_wrt_append)

lemma extents_ok_Cons:
  "extents_ok (e # es) \<longleftrightarrow> extent_ok e \<and> extents_ok es \<and> (\<forall>b \<in> set es. ext_limit e < unat (ex_physical_start b))"
  by (auto simp: extents_ok_def)

lemma extents_ok_Nil [simp]: "extents_ok []"
  by (simp add: extents_ok_def)

lemma extent_end_iff: "extent_end e = Some x \<longleftrightarrow> ext_limit e < 2 ^ 64 \<and> unat x = ext_limit e"
  unfolding extent_end_def PAGE_SIZE_def page_range_end ext_limit_def ..

lemma extent_end_ok:
  assumes "extent_ok e"
  obtains x where "extent_end e = Some x" "unat x = ext_limit e"
  using assms unat_of_nat_u64 [of "ext_limit e"] by (force simp: extent_end_iff extent_ok_def)

lemma limit_aligned: "extent_ok e \<Longrightarrow> 4096 dvd ext_limit e"
  by (simp add: extent_ok_def ext_limit_def)

lemma limit_above: "extent_ok e \<Longrightarrow> unat (ex_physical_start e) + 4096 \<le> ext_limit e"
  using unat_gt_0 [of "ex_page_count e"] by (simp add: extent_ok_def ext_limit_def)

lemma aligned_step: "4096 dvd (a :: nat) \<Longrightarrow> 4096 dvd b \<Longrightarrow> a < b \<longleftrightarrow> a + 4096 \<le> b"
  by (auto elim!: dvdE)

lemma contains_frame_iff:
  assumes "extent_ok e" "4096 dvd unat p" "unat q = unat p + 4096"
  shows "contains_frame e p q \<longleftrightarrow> unat p \<in> extent_frames e"
proof -
  obtain x where x: "extent_end e = Some x" "unat x = ext_limit e" by (rule extent_end_ok [OF assms(1)])
  then show ?thesis
    using assms aligned_step [OF assms(2) limit_aligned [OF assms(1)]]
    by (auto simp: contains_frame_def extent_frames_def word_le_nat_alt)
qed

lemma start_frame: "extent_ok e \<Longrightarrow> unat (ex_physical_start e) \<in> extent_frames e"
  using limit_above by (fastforce simp: extent_frames_def extent_ok_def)

lemma frame_cases:
  assumes "extent_ok e" "4096 dvd f" "unat (ex_physical_start e) \<le> f"
  shows "f = unat (ex_physical_start e) \<or> unat (ex_physical_start e) + 4096 \<le> f"
proof (cases "f = unat (ex_physical_start e)")
  case False
  then have "unat (ex_physical_start e) < f" using assms(3) by simp
  then show ?thesis using aligned_step [OF _ assms(2)] assms(1) unfolding extent_ok_def by blast
qed blast

definition after_first :: "Extent \<Rightarrow> Extent" where
  "after_first e = e\<lparr>ex_physical_start := ex_physical_start e + 4096, ex_page_count := ex_page_count e - 1\<rparr>"

lemma split_first_frame:
  assumes "extent_ok e" "ex_page_count e \<noteq> 1"
  shows "checked_add (ex_physical_start e) PAGE_SIZE = Some (ex_physical_start e + 4096)"
    "extent_ok (after_first e)" "ext_limit (after_first e) = ext_limit e"
    "extent_frames e = insert (unat (ex_physical_start e)) (extent_frames (after_first e))"
    "unat (ex_physical_start e) \<notin> extent_frames (after_first e)"
    "unat (ex_physical_start e) < unat (ex_physical_start (after_first e))"
proof -
  let ?e = "after_first e"
  have "unat (ex_page_count e) \<noteq> 0" "unat (ex_page_count e) \<noteq> unat (1 :: u64)"
    using assms by (simp_all only: extent_ok_def unat_eq_zero word_unat_eq_iff [symmetric] simp_thms)
  then have p: "unat (ex_page_count e) \<ge> 2" by simp
  have lim: "unat (ex_physical_start e) + 4096 * unat (ex_page_count e) < 2 ^ 64"
    using assms(1) by (simp add: extent_ok_def ext_limit_def)
  then have s: "unat (ex_physical_start e) + unat (4096 :: u64) < 2 ^ 64" using p by simp
  then show c: "checked_add (ex_physical_start e) PAGE_SIZE = Some (ex_physical_start e + 4096)"
    by (simp add: checked_add_def)
  then have u: "unat (ex_physical_start e + 4096) = unat (ex_physical_start e) + 4096"
    unfolding PAGE_SIZE_def checked_add_iff by simp
  have m: "unat (ex_page_count e - 1) = unat (ex_page_count e) - 1"
    using p by (simp add: unat_sub word_le_nat_alt)
  show l: "ext_limit ?e = ext_limit e" using p u m by (simp add: after_first_def ext_limit_def algebra_simps)
  have "unat (ex_page_count e - 1) \<noteq> 0" using m p by simp
  then have "ex_page_count e - 1 \<noteq> 0" by (metis unat_0)
  then show "extent_ok ?e" using assms(1) l u by (simp add: after_first_def extent_ok_def)
  show "extent_frames e = insert (unat (ex_physical_start e)) (extent_frames ?e)"
  proof (rule set_eqI)
    fix f
    have "unat (ex_physical_start ?e) = unat (ex_physical_start e) + 4096" using u by (simp add: after_first_def)
    then show "f \<in> extent_frames e \<longleftrightarrow> f \<in> insert (unat (ex_physical_start e)) (extent_frames ?e)"
      using start_frame [OF assms(1)] frame_cases [OF assms(1), of f] unfolding extent_frames_def l mem_Collect_eq insert_iff
      by (metis add_leD1)
  qed
  show "unat (ex_physical_start e) \<notin> extent_frames ?e" "unat (ex_physical_start e) < unat (ex_physical_start ?e)"
    using u by (simp_all add: after_first_def extent_frames_def)
qed

lemma single_frame:
  assumes "extent_ok e" "ex_page_count e = 1"
  shows "extent_frames e = {unat (ex_physical_start e)}"
proof -
  have "ext_limit e = unat (ex_physical_start e) + 4096" using assms(2) by (simp add: ext_limit_def)
  then have "f = unat (ex_physical_start e)" if "f \<in> extent_frames e" for f
    using that frame_cases [OF assms(1), of f] unfolding extent_frames_def mem_Collect_eq by linarith
  then show ?thesis using start_frame [OF assms(1)] by blast
qed


section \<open>Joining extents\<close>

lemma frames_merge:
  assumes "extent_ok a" "extent_ok b" "ex_physical_start c = ex_physical_start a" "ext_limit a = unat (ex_physical_start b)"
    "ext_limit c = ext_limit b"
  shows "extent_frames c = extent_frames a \<union> extent_frames b"
proof -
  have "unat (ex_physical_start a) \<le> ext_limit a" "unat (ex_physical_start b) \<le> ext_limit b"
    using limit_above assms(1,2) add_leD1 by blast+
  then show ?thesis
    unfolding extent_frames_def assms(3,5) using assms(4) by (auto simp only: mem_Collect_eq Un_iff)
qed

definition frame_extent :: "u64 \<Rightarrow> Extent" where
  "frame_extent p = \<lparr>ex_physical_start = p, ex_page_count = 1\<rparr>"

lemma frame_extent:
  assumes "4096 dvd unat p" "unat p + 4096 < 2 ^ 64"
  shows "extent_ok (frame_extent p)" "ext_limit (frame_extent p) = unat p + 4096" "extent_frames (frame_extent p) = {unat p}"
    "ex_physical_start (frame_extent p) = p"
proof -
  show l: "ext_limit (frame_extent p) = unat p + 4096" and s: "ex_physical_start (frame_extent p) = p"
    by (simp_all add: frame_extent_def ext_limit_def)
  show ok: "extent_ok (frame_extent p)" using assms l by (simp add: extent_ok_def) (simp add: frame_extent_def)
  show "extent_frames (frame_extent p) = {unat p}" using single_frame [OF ok] by (simp add: frame_extent_def)
qed

text \<open>A free frame between the extents of \<open>L\<close> and those of \<open>R\<close>.\<close>

definition free_gap :: "Extent list \<Rightarrow> Extent list \<Rightarrow> u64 \<Rightarrow> bool" where
  "free_gap L R p \<longleftrightarrow> extents_ok (L @ R) \<and> 4096 dvd unat p \<and> unat p + 4096 < 2 ^ 64
     \<and> (\<forall>l \<in> set L. ext_limit l \<le> unat p) \<and> (\<forall>r \<in> set R. unat p + 4096 \<le> unat (ex_physical_start r))"

lemma free_gapD:
  assumes "free_gap L R p"
  shows "extents_ok (L @ R)" "4096 dvd unat p" "unat p + 4096 < 2 ^ 64" "l \<in> set L \<Longrightarrow> ext_limit l \<le> unat p"
    "r \<in> set R \<Longrightarrow> unat p + 4096 \<le> unat (ex_physical_start r)"
  using assms unfolding free_gap_def by blast+

lemma gap_left:
  assumes g: "free_gap L R p" and last: "L \<noteq> [] \<Longrightarrow> ext_limit (last L) \<noteq> unat p" and a: "a \<in> set L"
  shows "ext_limit a < unat p"
proof -
  obtain L' l where L: "L = L' @ [l]" using a by (metis append_butlast_last_id empty_iff list.set(1))
  have "ext_limit l \<le> unat p" "ext_limit l \<noteq> unat p" using free_gapD(4) [OF g, of l] last L by simp_all
  moreover have "a = l \<or> ext_limit a < unat (ex_physical_start l)" "extent_ok l"
    using free_gapD(1) [OF g] a L by (auto simp: extents_ok_append extents_ok_Cons)
  ultimately show ?thesis using limit_above [of l] by auto
qed

lemma gap_right:
  assumes g: "free_gap L R p" and hd: "R \<noteq> [] \<Longrightarrow> unat (ex_physical_start (hd R)) \<noteq> unat p + 4096" and b: "b \<in> set R"
  shows "unat p + 4096 < unat (ex_physical_start b)"
proof -
  obtain r R' where R: "R = r # R'" using b by (cases R) auto
  have "unat p + 4096 \<le> unat (ex_physical_start r)" "unat (ex_physical_start r) \<noteq> unat p + 4096"
    using free_gapD(5) [OF g, of r] hd R by simp_all
  moreover have "b = r \<or> ext_limit r < unat (ex_physical_start b)" "extent_ok r"
    using free_gapD(1) [OF g] b R by (auto simp: extents_ok_append extents_ok_Cons)
  ultimately show ?thesis using limit_above [of r] by auto
qed

lemma succ_pages: "unat (x :: u64) = Suc n \<Longrightarrow> x \<noteq> 0"
  by (metis nat.distinct(1) unat_0)

lemma grown:
  assumes "extent_ok l"
  shows "checked_add (ex_page_count l) 1 = Some (ex_page_count l + 1)" "unat (ex_page_count l + 1) = Suc (unat (ex_page_count l))"
proof -
  have "unat (ex_page_count l) + unat (1 :: u64) < 2 ^ 64" using assms by (simp add: extent_ok_def ext_limit_def)
  from checked_add_ok [OF this] show "checked_add (ex_page_count l) 1 = Some (ex_page_count l + 1)"
    "unat (ex_page_count l + 1) = Suc (unat (ex_page_count l))" by simp_all
qed

lemma insert_alone:
  assumes g: "free_gap L R p" and l: "L \<noteq> [] \<Longrightarrow> ext_limit (last L) \<noteq> unat p"
    and r: "R \<noteq> [] \<Longrightarrow> unat (ex_physical_start (hd R)) \<noteq> unat p + 4096"
  shows "extents_ok (L @ frame_extent p # R)" "frames_of (L @ frame_extent p # R) = insert (unat p) (frames_of (L @ R))"
  using free_gapD(1) [OF g] frame_extent [OF free_gapD(2,3) [OF g]] gap_left [OF g l] gap_right [OF g r]
  by (auto simp: extents_ok_append extents_ok_Cons)

lemma insert_left:
  assumes g: "free_gap L R p" and L: "L = L' @ [l]" and adj: "ext_limit l = unat p" and R: "R \<noteq> [] \<Longrightarrow> unat (ex_physical_start (hd R)) \<noteq> unat p + 4096"
  defines "l' \<equiv> l\<lparr>ex_page_count := ex_page_count l + 1\<rparr>"
  shows "extents_ok (L' @ l' # R)" "frames_of (L' @ l' # R) = insert (unat p) (frames_of (L @ R))"
proof -
  note ok = free_gapD(1) [OF g] and fits = free_gapD(3) [OF g] and new = frame_extent [OF free_gapD(2,3) [OF g]]
  have l: "extent_ok l" using ok L by (simp add: extents_ok_append extents_ok_Cons)
  note c = grown [OF l]
  have l': "ext_limit l' = unat p + 4096" "ex_physical_start l' = ex_physical_start l"
    using adj c(2) by (simp_all add: l'_def ext_limit_def)
  have ok': "extent_ok l'" using l l' fits c(2) succ_pages [of "ex_page_count l + 1"] by (simp add: extent_ok_def) (simp add: l'_def)
  have r: "ext_limit l' < unat (ex_physical_start b)" if "b \<in> set R" for b
    using gap_right [OF g R that] l'(1) by simp
  show "extents_ok (L' @ l' # R)" using ok L l' ok' r by (auto simp: extents_ok_append extents_ok_Cons)
  have "extent_frames l' = extent_frames l \<union> {unat p}"
    using frames_merge [OF l new(1), of l'] l' adj new by simp
  then show "frames_of (L' @ l' # R) = insert (unat p) (frames_of (L @ R))" using L by auto
qed

lemma insert_right:
  assumes g: "free_gap L R p" and R: "R = r # R'" and adj: "unat (ex_physical_start r) = unat p + 4096" and L: "L \<noteq> [] \<Longrightarrow> ext_limit (last L) \<noteq> unat p"
  defines "r' \<equiv> r\<lparr>ex_physical_start := p, ex_page_count := ex_page_count r + 1\<rparr>"
  shows "checked_add (ex_page_count r) 1 = Some (ex_page_count r + 1)"
    "extents_ok (L @ r' # R')" "frames_of (L @ r' # R') = insert (unat p) (frames_of (L @ R))"
proof -
  note ok = free_gapD(1) [OF g] and aligned = free_gapD(2) [OF g] and new = frame_extent [OF free_gapD(2,3) [OF g]]
  have r: "extent_ok r" using ok R by (simp add: extents_ok_append extents_ok_Cons)
  note c = grown [OF r]
  show "checked_add (ex_page_count r) 1 = Some (ex_page_count r + 1)" by (rule c)
  have r': "ext_limit r' = ext_limit r" "ex_physical_start r' = p" using adj c(2) by (simp_all add: r'_def ext_limit_def)
  have ok': "extent_ok r'" using r r' aligned c(2) succ_pages [of "ex_page_count r + 1"] by (simp add: extent_ok_def) (simp add: r'_def)
  have l: "ext_limit a < unat p" if "a \<in> set L" for a by (rule gap_left [OF g L that])
  show "extents_ok (L @ r' # R')" using ok R r' ok' l by (auto simp: extents_ok_append extents_ok_Cons)
  have "extent_frames r' = {unat p} \<union> extent_frames r"
    using frames_merge [OF new(1) r, of r'] r' adj new by simp
  then show "frames_of (L @ r' # R') = insert (unat p) (frames_of (L @ R))" using R by auto
qed

lemma insert_both:
  assumes g: "free_gap L R p" and L: "L = L' @ [l]" and R: "R = r # R'" and adj: "ext_limit l = unat p" "unat (ex_physical_start r) = unat p + 4096"
  defines "l' \<equiv> l\<lparr>ex_page_count := ex_page_count l + 1 + ex_page_count r\<rparr>"
  shows "checked_add (ex_page_count l + 1) (ex_page_count r) = Some (ex_page_count l + 1 + ex_page_count r)"
    "extents_ok (L' @ l' # R')" "frames_of (L' @ l' # R') = insert (unat p) (frames_of (L @ R))"
proof -
  note ok = free_gapD(1) [OF g] and fits = free_gapD(3) [OF g] and new = frame_extent [OF free_gapD(2,3) [OF g]]
  have l: "extent_ok l" and r: "extent_ok r" using ok L R by (simp_all add: extents_ok_append extents_ok_Cons)
  note c = grown [OF l]
  have "unat (ex_page_count l + 1) + unat (ex_page_count r) < 2 ^ 64"
    using l r c(2) adj by (simp add: extent_ok_def ext_limit_def)
  note h = checked_add_ok [OF this]
  show "checked_add (ex_page_count l + 1) (ex_page_count r) = Some (ex_page_count l + 1 + ex_page_count r)" by (rule h)
  have l': "ext_limit l' = ext_limit r" "ex_physical_start l' = ex_physical_start l"
    using adj c(2) h(2) by (simp_all add: l'_def ext_limit_def)
  have ok': "extent_ok l'"
    using l r l' c(2) h(2) succ_pages [of "ex_page_count l + 1 + ex_page_count r"] by (simp add: extent_ok_def) (simp add: l'_def)
  show "extents_ok (L' @ l' # R')" using ok L R l' ok' by (auto simp: extents_ok_append extents_ok_Cons)
  let ?m = "l\<lparr>ex_page_count := ex_page_count l + 1\<rparr>"
  have m: "ext_limit ?m = unat p + 4096" using adj(1) c(2) by (simp add: ext_limit_def)
  have okm: "extent_ok ?m" using l m fits c(2) succ_pages [of "ex_page_count l + 1"] by (simp add: extent_ok_def)
  have "extent_frames ?m = extent_frames l \<union> {unat p}" using frames_merge [OF l new(1), of ?m] m adj(1) new by simp
  moreover have "extent_frames l' = extent_frames ?m \<union> extent_frames r"
    using frames_merge [OF okm r, of l'] m l' adj(2) by simp
  ultimately show "frames_of (L' @ l' # R') = insert (unat p) (frames_of (L @ R))" using L R by auto
qed

section \<open>The allocator as a set of frames\<close>

definition free_frames :: "FrameAllocator \<Rightarrow> nat set" where
  "free_frames a = frames_of (free_list a)"

definition managed_frames :: "FrameAllocator \<Rightarrow> nat set" where
  "managed_frames a = frames_of (managed_list a)"

definition allocator_inv :: "FrameAllocator \<Rightarrow> bool" where
  "allocator_inv a \<longleftrightarrow> arrays_ok a \<and> extents_ok (managed_list a) \<and> extents_ok (free_list a)
     \<and> free_frames a \<subseteq> managed_frames a"

lemma allocator_invD:
  assumes "allocator_inv a"
  shows "arrays_ok a" "extents_ok (managed_list a)" "extents_ok (free_list a)" "free_frames a \<subseteq> managed_frames a"
  using assms by (simp_all add: allocator_inv_def)

lemma allocator_new_inv: "allocator_inv allocator_new" "free_frames allocator_new = {}"
  by (simp_all add: allocator_inv_def allocator_new_def arrays_ok_def managed_list_def free_list_def free_frames_def
      managed_frames_def)

lemma allocate_empty:
  assumes "allocator_inv a" "free_frames a = {}"
  shows "allocate_frame a = (Inl Allocate_Exhausted, a)"
proof -
  have "free_list a = []"
  proof (cases "free_list a")
    case (Cons e es)
    then have "unat (ex_physical_start e) \<in> free_frames a"
      using allocator_invD(3) [OF assms(1)] start_frame by (auto simp: free_frames_def extents_ok_Cons)
    with assms(2) show ?thesis by simp
  qed
  then have "fa_free_len a = 0" using length_lists(2) [OF allocator_invD(1) [OF assms(1)]] by simp
  then show ?thesis by (simp add: allocate_frame_def)
qed

lemma allocate_lowest:
  assumes inv: "allocator_inv a" and ne: "free_frames a \<noteq> {}"
  obtains f b where "allocate_frame a = (Inr f, b)" "unat f \<in> free_frames a" "\<And>g. g \<in> free_frames a \<Longrightarrow> unat f \<le> g"
    "free_frames b = free_frames a - {unat f}" "managed_frames b = managed_frames a" "allocator_inv b"
proof -
  note i = allocator_invD [OF inv]
  obtain e es where es: "free_list a = e # es" using ne by (cases "free_list a") (auto simp: free_frames_def)
  have ok: "extent_ok e" "extents_ok es" "\<And>b. b \<in> set es \<Longrightarrow> ext_limit e < unat (ex_physical_start b)"
    using i(3) es by (auto simp: extents_ok_Cons)
  have len: "0 < fa_free_len a" using length_lists(2) [OF i(1)] es by simp
  have e0: "fa_free a ! 0 = e" using free_list_nth [OF len] es by simp
  let ?f = "ex_physical_start e"
  have above: "unat ?f < g" if "g \<in> frames_of es" for g
    using that ok(3) limit_above [OF ok(1)] by (fastforce simp: frames_of_def extent_frames_def)
  have mem: "unat ?f \<in> free_frames a" using start_frame [OF ok(1)] es by (simp add: free_frames_def)
  have least: "unat ?f \<le> g" if "g \<in> free_frames a" for g
    using that es less_imp_le [OF above] by (auto simp: free_frames_def extent_frames_def)
  show thesis
  proof (cases "ex_page_count e = 1")
    case True
    let ?b = "remove_free_extent 0 a"
    note r = remove_free_list [OF i(1) len]
    have fr: "free_frames ?b = free_frames a - {unat ?f}"
      using r(1) es single_frame [OF ok(1) True] above by (auto simp: free_frames_def)
    have "allocate_frame a = (Inr ?f, ?b)" using len True by (simp add: allocate_frame_def e0)
    moreover have "allocator_inv ?b"
      using i r ok(2) es fr by (auto simp: allocator_inv_def managed_frames_def)
    ultimately show ?thesis using that [of ?f ?b] mem least fr r(3) by (simp add: managed_frames_def)
  next
    case False
    let ?b = "a\<lparr>fa_free := (fa_free a)[0 := after_first e]\<rparr>"
    note s = split_first_frame [OF ok(1) False] and u = update_free_list [OF i(1) len, of "after_first e"]
    have l: "free_list ?b = after_first e # es" using u(1) es by simp
    have fr: "free_frames ?b = free_frames a - {unat ?f}"
      using l es s(4,5) above by (auto simp: free_frames_def)
    have "allocate_frame a = (Inr ?f, ?b)" using len False s(1) by (simp add: allocate_frame_def e0 after_first_def Let_def)
    moreover have "allocator_inv ?b"
      using i u(2,3) l s(2,3) ok(2,3) fr by (auto simp: allocator_inv_def managed_frames_def extents_ok_Cons)
    ultimately show ?thesis using that [of ?f ?b] mem least fr u(3) by (simp add: managed_frames_def)
  qed
qed

end
