(* ===== verification/Frame_Pool.thy ===== *)
theory Frame_Pool
  imports Frame_Extents
begin

text \<open>
  The allocator as a pool of frames: correctness of deallocation and of initialization, the interface that
  clients rely on, and the properties of the allocator and of its use after a validated boot.
\<close>


section \<open>Deallocation\<close>

lemma find_insertion_cases:
  assumes "i \<le> n" "\<forall>j < i. ex_physical_start (xs ! j) < p \<and> \<not> contains_frame (xs ! j) p q"
  obtains (duplicate) j where "find_insertion xs n p q i = Inl Free_Duplicate" "j < n" "contains_frame (xs ! j) p q"
    | (found) k where "find_insertion xs n p q i = Inr k" "k \<le> n" "k < n \<longrightarrow> p \<le> ex_physical_start (xs ! k)"
        "\<forall>j < k. ex_physical_start (xs ! j) < p \<and> \<not> contains_frame (xs ! j) p q"
  using assms
proof (induction xs n p q i arbitrary: thesis rule: find_insertion.induct)
  case (1 xs n p q i)
  show ?case
  proof (cases "i < n \<and> ex_physical_start (xs ! i) < p")
    case True
    show ?thesis
    proof (cases "contains_frame (xs ! i) p q")
      case dup: True
      then show ?thesis using 1(2) [of i] True by (simp add: find_insertion.simps [of xs n p q i])
    next
      case False
      have eq: "find_insertion xs n p q i = find_insertion xs n p q (i + 1)"
        using True False by (simp add: find_insertion.simps [of xs n p q i])
      have step: "\<forall>j < i + 1. ex_physical_start (xs ! j) < p \<and> \<not> contains_frame (xs ! j) p q"
        using 1(5) True False by (auto simp: less_Suc_eq)
      show ?thesis
        by (rule 1(1) [OF True False]) (use 1(2,3) eq step True in auto)
    qed
  next
    case False
    then have eq: "find_insertion xs n p q i = Inr i" by (auto simp: find_insertion.simps [of xs n p q i])
    show ?thesis by (rule 1(3) [OF eq]) (use False 1(4,5) in \<open>auto simp: not_less\<close>)
  qed
qed

lemma gap_found:
  assumes ok: "extents_ok ys" and p: "4096 dvd unat p" "unat p + 4096 < 2 ^ 64" "unat q = unat p + 4096"
    and k: "k \<le> length ys" "k < length ys \<Longrightarrow> p \<le> ex_physical_start (ys ! k)"
    and before: "\<And>j. j < k \<Longrightarrow> ex_physical_start (ys ! j) < p \<and> \<not> contains_frame (ys ! j) p q"
    and at: "k < length ys \<Longrightarrow> \<not> contains_frame (ys ! k) p q"
  shows "free_gap (take k ys) (drop k ys) p" "unat p \<notin> frames_of ys"
proof -
  have e: "extent_ok (ys ! j)" if "j < length ys" for j
    using ok that by (simp add: extents_ok_def list_all_length)
  have l: "ext_limit (ys ! j) \<le> unat p" if "j < k" for j
  proof -
    have j: "j < length ys" using that k(1) by simp
    have "unat p \<notin> extent_frames (ys ! j)" using before [OF that] contains_frame_iff [OF e [OF j] p(1,3)] by simp
    then show ?thesis using before [OF that] p(1) by (simp add: extent_frames_def word_less_nat_alt)
  qed
  have r: "unat p + 4096 \<le> unat (ex_physical_start (ys ! j))" if j: "k \<le> j" "j < length ys" for j
  proof -
    have kl: "k < length ys" using j by simp
    have "unat p \<notin> extent_frames (ys ! k)" using at [OF kl] contains_frame_iff [OF e [OF kl] p(1,3)] by simp
    then have "unat p \<noteq> unat (ex_physical_start (ys ! k))" using start_frame [OF e [OF kl]] by auto
    then have "unat p < unat (ex_physical_start (ys ! k))" using k(2) [OF kl] by (simp add: word_le_nat_alt)
    then have "unat p + 4096 \<le> unat (ex_physical_start (ys ! k))"
      using aligned_step [OF p(1), of "unat (ex_physical_start (ys ! k))"] e [OF kl] by (simp only: extent_ok_def)
    moreover have "j = k \<or> ext_limit (ys ! k) < unat (ex_physical_start (ys ! j))"
      using ok j by (cases "j = k") (auto simp: extents_ok_def sorted_wrt_iff_nth_less)
    ultimately show ?thesis using limit_above [OF e [OF kl]] by auto
  qed
  show "free_gap (take k ys) (drop k ys) p"
    using ok p(1,2) l r by (auto simp: free_gap_def in_set_conv_nth)
  show "unat p \<notin> frames_of ys"
  proof
    assume "unat p \<in> frames_of ys"
    then obtain j where j: "j < length ys" "unat p \<in> extent_frames (ys ! j)" by (auto simp: frames_of_def in_set_conv_nth)
    then show False using l [of j] r [of j] by (cases "j < k") (auto simp: extent_frames_def)
  qed
qed

lemma managed_iff:
  assumes "extents_ok ys" "4096 dvd unat p" "unat q = unat p + 4096"
  shows "list_ex (\<lambda>e. contains_frame e p q) ys \<longleftrightarrow> unat p \<in> frames_of ys"
  using contains_frame_iff [OF _ assms(2,3)] assms(1) by (auto simp: list_ex_iff frames_of_def extents_ok_def list_all_iff)

text \<open>The four ways a frame enters the free list.\<close>

lemma insert_frame_cases:
  assumes a: "arrays_ok a" and k: "k \<le> fa_free_len a" and g: "free_gap (take k (free_list a)) (drop k (free_list a)) p"
    and jl: "jl \<longleftrightarrow> k \<noteq> 0 \<and> ext_limit (free_list a ! (k - 1)) = unat p"
    and jr: "jr \<longleftrightarrow> k < fa_free_len a \<and> unat (ex_physical_start (free_list a ! k)) = unat p + 4096"
  obtains (full) "insert_frame p k jl jr a = (Inl Free_CapacityExceeded, a)" "fa_free_len a = MAX_FRAME_EXTENTS"
    | (inserted) b where "insert_frame p k jl jr a = (Inr (), b)" "arrays_ok b" "managed_list b = managed_list a"
        "extents_ok (free_list b)" "free_frames b = insert (unat p) (free_frames a)"
proof -
  let ?ys = "free_list a"
  let ?L = "take k ?ys" and ?R = "drop k ?ys"
  have len: "length ?ys = fa_free_len a" by (rule length_lists(2) [OF a])
  have ys: "frames_of (?L @ ?R) = free_frames a" by (simp only: append_take_drop_id free_frames_def)
  have nl: "ext_limit (last ?L) \<noteq> unat p" if "\<not> jl" "?L \<noteq> []"
    using that jl k len by (auto simp: last_conv_nth min_def)
  have nr: "unat (ex_physical_start (hd ?R)) \<noteq> unat p + 4096" if "\<not> jr" "?R \<noteq> []"
    using that jr len by (simp add: hd_drop_conv_nth)
  have L: "?L = take (k - 1) ?ys @ [?ys ! (k - 1)]" "ext_limit (?ys ! (k - 1)) = unat p" "k - 1 < fa_free_len a" "k \<noteq> 0" if jl
    using that jl k len take_Suc_conv_app_nth [of "k - 1" ?ys] by auto
  have R: "?R = ?ys ! k # drop (k + 1) ?ys" "unat (ex_physical_start (?ys ! k)) = unat p + 4096" "k < fa_free_len a" if jr
    using that jr len Cons_nth_drop_Suc [of k ?ys] by auto
  have gl: "checked_add (ex_page_count (?ys ! (k - 1))) 1 = Some (ex_page_count (?ys ! (k - 1)) + 1)" if jl
    by (rule grown(1)) (use free_gapD(1) [OF g] L(1) [OF that] in \<open>metis append_assoc extents_ok_append extents_ok_Cons append_Cons\<close>)
  note nth = free_list_nth [of _ a]
  consider "jl" "jr" | "jl" "\<not> jr" | "\<not> jl" "jr" | "\<not> jl" "\<not> jr" by blast
  then show thesis
  proof cases
    case 1
    note b = insert_both [OF g L(1) [OF 1(1)] R(1) [OF 1(2)] L(2) [OF 1(1)] R(2) [OF 1(2)]]
    let ?l = "(?ys ! (k - 1))\<lparr>ex_page_count := ex_page_count (?ys ! (k - 1)) + 1 + ex_page_count (?ys ! k)\<rparr>"
    let ?a1 = "a\<lparr>fa_free := (fa_free a)[k - 1 := ?l]\<rparr>"
    note u = update_free_list [OF a L(3) [OF 1(1)], of ?l]
    have k1: "k < fa_free_len ?a1" using R(3) [OF 1(2)] by simp
    note r = remove_free_list [OF u(2) k1]
    have fl: "free_list (remove_free_extent k ?a1) = take (k - 1) ?ys @ ?l # drop (k + 1) ?ys"
      using r(1) u(1) L(3,4) [OF 1(1)] len take_Suc_conv_app_nth [of "k - 1" "?ys[k - 1 := ?l]"] by simp
    have eq: "insert_frame p k jl jr a = (Inr (), remove_free_extent k ?a1)"
      using 1 gl [OF 1(1)] b(1) L(3) [OF 1(1)] R(3) [OF 1(2)] by (simp add: insert_frame_def Let_def nth)
    show ?thesis
      by (rule inserted [OF eq r(2)]) (use r(3) u(3) b(2,3) fl ys in \<open>simp_all add: free_frames_def\<close>)
  next
    case 2
    note b = insert_left [OF g L(1,2) [OF 2(1)] nr [OF 2(2)]]
    let ?l = "(?ys ! (k - 1))\<lparr>ex_page_count := ex_page_count (?ys ! (k - 1)) + 1\<rparr>"
    note u = update_free_list [OF a L(3) [OF 2(1)], of ?l]
    have fl: "?ys[k - 1 := ?l] = take (k - 1) ?ys @ ?l # ?R"
      using L(3,4) [OF 2(1)] len by (simp add: upd_conv_take_nth_drop)
    have eq: "insert_frame p k jl jr a = (Inr (), a\<lparr>fa_free := (fa_free a)[k - 1 := ?l]\<rparr>)"
      using 2 gl [OF 2(1)] L(3) [OF 2(1)] by (simp add: insert_frame_def Let_def nth)
    show ?thesis
      by (rule inserted [OF eq u(2)]) (use u(1,3) b fl ys in \<open>simp_all add: free_frames_def\<close>)
  next
    case 3
    note b = insert_right [OF g R(1,2) [OF 3(2)] nl [OF 3(1)]]
    let ?r = "(?ys ! k)\<lparr>ex_physical_start := p, ex_page_count := ex_page_count (?ys ! k) + 1\<rparr>"
    note u = update_free_list [OF a R(3) [OF 3(2)], of ?r]
    have fl: "?ys[k := ?r] = ?L @ ?r # drop (k + 1) ?ys"
      using R(3) [OF 3(2)] len by (simp add: upd_conv_take_nth_drop)
    have eq: "insert_frame p k jl jr a = (Inr (), a\<lparr>fa_free := (fa_free a)[k := ?r]\<rparr>)"
      using 3 b(1) R(3) [OF 3(2)] by (simp add: insert_frame_def Let_def nth)
    show ?thesis
      by (rule inserted [OF eq u(2)]) (use u(1,3) b(2,3) fl ys in \<open>simp_all add: free_frames_def\<close>)
  next
    case 4
    note b = insert_alone [OF g nl [OF 4(1)] nr [OF 4(2)]]
    show ?thesis
    proof (cases "fa_free_len a = MAX_FRAME_EXTENTS")
      case True
      then show ?thesis using full 4 by (simp add: insert_frame_def Let_def)
    next
      case False
      then have lt: "fa_free_len a < MAX_FRAME_EXTENTS" using a by (simp add: arrays_ok_def)
      note n = insert_free_list [OF a k lt, of "frame_extent p"]
      show ?thesis
        by (rule inserted [OF _ n(2,3)])
          (use 4 False n(1) b ys in \<open>simp_all add: insert_frame_def Let_def free_frames_def frame_extent_def\<close>)
    qed
  qed
qed


lemma scan_cases:
  assumes inv: "allocator_inv a" and p: "4096 dvd unat p" "unat p + 4096 < 2 ^ 64" "unat q = unat p + 4096"
  obtains (held) "unat p \<in> free_frames a" "case find_insertion (fa_free a) (fa_free_len a) p q 0 of
        Inl e \<Rightarrow> e = Free_Duplicate | Inr k \<Rightarrow> k < fa_free_len a \<and> contains_frame (fa_free a ! k) p q"
    | (gap) k where "unat p \<notin> free_frames a" "find_insertion (fa_free a) (fa_free_len a) p q 0 = Inr k" "k \<le> fa_free_len a"
        "\<not> (k < fa_free_len a \<and> contains_frame (fa_free a ! k) p q)" "free_gap (take k (free_list a)) (drop k (free_list a)) p"
proof -
  note i = allocator_invD [OF inv]
  let ?ys = "free_list a"
  have len: "length ?ys = fa_free_len a" by (rule length_lists(2) [OF i(1)])
  have dup: "unat p \<in> free_frames a" if "j < fa_free_len a" "contains_frame (fa_free a ! j) p q" for j
  proof -
    have "extent_ok (?ys ! j)" using i(3) that(1) len by (simp add: extents_ok_def list_all_length)
    then have "unat p \<in> extent_frames (?ys ! j)" using contains_frame_iff [OF _ p(1,3)] that by (simp add: free_list_nth)
    then show ?thesis using that(1) len nth_mem [of j ?ys] by (auto simp: free_frames_def frames_of_def)
  qed
  have start: "(0 :: nat) \<le> fa_free_len a"
    "\<forall>j < 0. ex_physical_start (fa_free a ! j) < p \<and> \<not> contains_frame (fa_free a ! j) p q" by simp_all
  from start show thesis
  proof (cases rule: find_insertion_cases)
    case (duplicate j)
    then show ?thesis using held dup by simp
  next
    case (found k)
    show ?thesis
    proof (cases "k < fa_free_len a \<and> contains_frame (fa_free a ! k) p q")
      case True
      then show ?thesis using held dup [of k] found(1) by simp
    next
      case False
      have b: "ex_physical_start (?ys ! j) < p \<and> \<not> contains_frame (?ys ! j) p q" if "j < k" for j
        using found(2,4) that by (simp add: free_list_nth)
      have at: "k < length ?ys \<Longrightarrow> p \<le> ex_physical_start (?ys ! k)" "k < length ?ys \<Longrightarrow> \<not> contains_frame (?ys ! k) p q"
        using found(3) False len by (auto simp: free_list_nth)
      have kl: "k \<le> length ?ys" using found(2) len by simp
      note g = gap_found [OF i(3) p kl at(1) b at(2)]
      show ?thesis using gap [OF _ found(1,2) False g(1)] g(2) by (simp add: free_frames_def)
    qed
  qed
qed

lemma left_neighbour:
  assumes inv: "allocator_inv a" and k: "k \<le> fa_free_len a"
  shows "(if k = 0 then Some False else map_option (\<lambda>e. e = p) (extent_end (fa_free a ! (k - 1)))) =
    Some (k \<noteq> 0 \<and> ext_limit (free_list a ! (k - 1)) = unat p)"
proof (cases "k = 0")
  case False
  then have k1: "k - 1 < fa_free_len a" using k by simp
  then have "extent_ok (free_list a ! (k - 1))"
    using allocator_invD(3) [OF inv] length_lists(2) [OF allocator_invD(1) [OF inv]] by (simp add: extents_ok_def list_all_length)
  then obtain x where "extent_end (free_list a ! (k - 1)) = Some x" "unat x = ext_limit (free_list a ! (k - 1))"
    by (rule extent_end_ok)
  then show ?thesis using False k1 by (simp add: free_list_nth word_unat_eq_iff)
qed simp

lemma free_managed_cases:
  assumes inv: "allocator_inv a" and p: "4096 dvd unat p" "unat p + 4096 < 2 ^ 64" and man: "unat p \<in> managed_frames a"
  obtains (held) "unat p \<in> free_frames a" "free_frame p a = (Inl Free_Duplicate, a)"
    | (full) "unat p \<notin> free_frames a" "fa_free_len a = MAX_FRAME_EXTENTS" "free_frame p a = (Inl Free_CapacityExceeded, a)"
    | (freed) b where "unat p \<notin> free_frames a" "free_frame p a = (Inr (), b)" "allocator_inv b"
        "free_frames b = insert (unat p) (free_frames a)" "managed_frames b = managed_frames a"
proof -
  note i = allocator_invD [OF inv]
  let ?q = "p + 4096"
  have "unat p + unat (4096 :: u64) < 2 ^ 64" using p(2) by simp
  note q = checked_add_ok [OF this]
  have uq: "unat ?q = unat p + 4096" using q(2) by simp
  have pre: "is_multiple_of p PAGE_SIZE" "checked_add p PAGE_SIZE = Some ?q"
    "list_ex (\<lambda>e. contains_frame e p ?q) (take (fa_managed_len a) (fa_managed a))"
    using p(1) q(1) man managed_iff [OF i(2) p(1) uq] by (simp_all add: page_aligned managed_frames_def managed_list_def)
  from inv p uq show thesis
  proof (cases rule: scan_cases)
    case held
    then have "free_frame p a = (Inl Free_Duplicate, a)"
      using pre by (cases "find_insertion (fa_free a) (fa_free_len a) p ?q 0") (simp_all add: free_frame_def)
    then show ?thesis using that(1) held by blast
  next
    case (gap k)
    let ?jl = "k \<noteq> 0 \<and> ext_limit (free_list a ! (k - 1)) = unat p"
    let ?jr = "k < fa_free_len a \<and> unat (ex_physical_start (free_list a ! k)) = unat p + 4096"
    have right: "(k < fa_free_len a \<and> ex_physical_start (fa_free a ! k) = ?q) = ?jr"
      using uq by (auto simp: free_list_nth word_unat_eq_iff)
    have eq: "free_frame p a = insert_frame p k ?jl ?jr a"
      unfolding free_frame_def pre(2) option.case gap(2) sum.case left_neighbour [OF inv gap(3)] right
      using pre(1,3) gap(4) by (simp only: not_True_eq_False if_False)
    from i(1) gap(3,5) refl refl show ?thesis
    proof (cases rule: insert_frame_cases)
      case full
      then show ?thesis using eq gap(1) that(2) by simp
    next
      case (inserted b)
      have "allocator_inv b" using inserted i(2,4) man by (simp add: allocator_inv_def managed_frames_def)
      then show ?thesis using eq gap(1) inserted that(3) [of b] by (simp add: managed_frames_def)
    qed
  qed
qed

lemma managed_bounds:
  assumes "allocator_inv a" "f \<in> managed_frames a"
  shows "4096 dvd f" "f + 4096 < 2 ^ 64"
proof -
  obtain e where e: "e \<in> set (managed_list a)" "f \<in> extent_frames e" using assms(2) by (auto simp: managed_frames_def frames_of_def)
  then have ok: "extent_ok e" using allocator_invD(2) [OF assms(1)] by (simp add: extents_ok_def list_all_iff)
  show d: "4096 dvd f" using e(2) by (simp add: extent_frames_def)
  have "f + 4096 \<le> ext_limit e" using aligned_step [OF d limit_aligned [OF ok]] e(2) by (simp only: extent_frames_def mem_Collect_eq)
  then show "f + 4096 < 2 ^ 64" using ok by (simp add: extent_ok_def)
qed

lemma free_unmanaged:
  assumes inv: "allocator_inv a" and man: "unat p \<notin> managed_frames a"
  shows "free_frame p a = (Inl (if \<not> 4096 dvd unat p then Free_Unaligned
      else if 2 ^ 64 \<le> unat p + 4096 then Free_AddressOverflow else Free_Unmanaged), a)"
proof (cases "4096 dvd unat p \<and> unat p + 4096 < 2 ^ 64")
  case True
  then have "unat p + unat (4096 :: u64) < 2 ^ 64" by simp
  note q = checked_add_ok [OF this]
  then have "unat (p + 4096) = unat p + 4096" by simp
  from managed_iff [OF allocator_invD(2) [OF inv] _ this] True q(1) man show ?thesis
    by (simp add: free_frame_def page_aligned managed_frames_def managed_list_def not_le)
next
  case False
  then show ?thesis by (auto simp: free_frame_def page_aligned checked_add_def)
qed

section \<open>Initialization\<close>

definition usable_frames :: "MemoryRegionV1 list \<Rightarrow> nat set" where
  "usable_frames rs = {f \<in> usable_bytes rs. 4096 dvd f}"

lemma count_step:
  assumes "count_extents ps pe pu n (r # rs) = Inr m"
  obtains e where "region_ok r" "\<And>x. pe = Some x \<Longrightarrow> unat x \<le> unat (mr_physical_start r)" "unat e = region_limit r"
    "if mr_kind r = MEMORY_USABLE
     then (let n' = (if pu = Some (mr_physical_start r) then n else n + 1)
           in (pu = Some (mr_physical_start r) \<or> n' \<le> MAX_FRAME_EXTENTS)
              \<and> count_extents (Some (mr_physical_start r)) (Some e) (Some e) n' rs = Inr m)
     else count_extents (Some (mr_physical_start r)) (Some e) None n rs = Inr m"
proof -
  have z: "mr_page_count r \<noteq> 0" "is_multiple_of (mr_physical_start r) 4096" "is_known_memory_kind (mr_kind r)" "mr_attributes r = 0"
    using assms by (auto split: if_splits)
  then obtain e where e: "Option.bind (checked_mul (mr_page_count r) 4096) (checked_add (mr_physical_start r)) = Some e"
    using assms by (cases "Option.bind (checked_mul (mr_page_count r) 4096) (checked_add (mr_physical_start r))") auto
  then have l: "region_limit r < 2 ^ 64" "unat e = region_limit r" unfolding page_range_end region_limit_def by blast+
  then have ok: "region_ok r" using z by (simp add: region_ok_def page_aligned)
  show thesis
    by (rule that [OF ok _ l(2)]) (use assms z e in \<open>auto simp: Let_def not_less word_le_nat_alt split: if_splits\<close>)
qed

text \<open>The state of both passes between two regions.\<close>

definition fill_inv :: "FrameAllocator \<Rightarrow> u64 option \<Rightarrow> u64 option \<Rightarrow> nat \<Rightarrow> bool" where
  "fill_inv a pe pu n \<longleftrightarrow> arrays_ok a \<and> free_list a = managed_list a \<and> extents_ok (managed_list a)
     \<and> fa_managed_len a = n \<and> fa_free_len a = n
     \<and> (\<forall>y \<in> set (managed_list a). \<exists>e. pe = Some e \<and> ext_limit y \<le> unat e)
     \<and> (case pu of None \<Rightarrow> \<forall>y \<in> set (managed_list a). \<forall>e. pe = Some e \<longrightarrow> ext_limit y < unat e
        | Some u \<Rightarrow> pe = Some u \<and> managed_list a \<noteq> [] \<and> ext_limit (last (managed_list a)) = unat u)"

definition region_extent :: "MemoryRegionV1 \<Rightarrow> Extent" where
  "region_extent r = \<lparr>ex_physical_start = mr_physical_start r, ex_page_count = mr_page_count r\<rparr>"

lemma region_extent:
  assumes "region_ok r"
  shows "extent_ok (region_extent r)" "ext_limit (region_extent r) = region_limit r"
    "ex_physical_start (region_extent r) = mr_physical_start r" "extent_frames (region_extent r) = {f \<in> region_bytes r. 4096 dvd f}"
  using assms by (auto simp: region_extent_def extent_ok_def region_ok_def ext_limit_def region_limit_def extent_frames_def
      region_bytes_def)

lemma fill_append:
  assumes a: "arrays_ok a" "free_list a = managed_list a" "fa_managed_len a = fa_free_len a" "fa_managed_len a < MAX_FRAME_EXTENTS"
    and u: "mr_kind r = MEMORY_USABLE"
    and ne: "managed_list a \<noteq> [] \<Longrightarrow> extent_end (last (managed_list a)) \<noteq> Some (mr_physical_start r)"
  shows "managed_list (fill_region r a) = managed_list a @ [region_extent r]" "free_list (fill_region r a) = managed_list a @ [region_extent r]"
    "arrays_ok (fill_region r a)" "fa_managed_len (fill_region r a) = fa_managed_len a + 1" "fa_free_len (fill_region r a) = fa_free_len a + 1"
proof -
  let ?n = "fa_managed_len a"
  have len: "length (fa_managed a) = 1024" "length (fa_free a) = 1024" "?n < 1024" using a by (simp_all add: arrays_ok_def)
  then have "fa_managed a \<noteq> []" by auto
  then have "\<not> (?n \<noteq> 0 \<and> extent_end (fa_managed a ! (?n - 1)) = Some (mr_physical_start r))"
    using ne len by (auto simp: managed_list_def last_conv_nth min_def)
  then have eq: "fill_region r a = a\<lparr>fa_managed := (fa_managed a)[?n := region_extent r], fa_free := (fa_free a)[?n := region_extent r],
      fa_managed_len := ?n + 1, fa_free_len := ?n + 1\<rparr>"
    using u a(3) by (auto simp: fill_region_def region_extent_def Let_def)
  show "managed_list (fill_region r a) = managed_list a @ [region_extent r]" "free_list (fill_region r a) = managed_list a @ [region_extent r]"
    using eq len a(2,3) by (simp_all add: managed_list_def free_list_def take_Suc_conv_app_nth)
  show "arrays_ok (fill_region r a)" "fa_managed_len (fill_region r a) = ?n + 1" "fa_free_len (fill_region r a) = fa_free_len a + 1"
    using eq len a(3) by (simp_all add: arrays_ok_def)
qed

lemma fill_merge:
  assumes a: "arrays_ok a" "free_list a = managed_list a" "fa_managed_len a = fa_free_len a" and ml: "managed_list a = ys @ [y]"
    and u: "mr_kind r = MEMORY_USABLE" and adj: "extent_end y = Some (mr_physical_start r)"
  defines "y' \<equiv> y\<lparr>ex_page_count := ex_page_count y + mr_page_count r\<rparr>"
  shows "managed_list (fill_region r a) = ys @ [y']" "free_list (fill_region r a) = ys @ [y']" "arrays_ok (fill_region r a)"
    "fa_managed_len (fill_region r a) = fa_managed_len a" "fa_free_len (fill_region r a) = fa_free_len a"
proof -
  let ?n = "fa_managed_len a"
  have n: "?n = length ys + 1" using ml length_lists(1) [OF a(1)] by simp
  have m: "take ?n (fa_managed a) = ys @ [y]" "take ?n (fa_free a) = ys @ [y]"
    using ml a(2,3) by (simp_all add: managed_list_def free_list_def)
  have "fa_managed a ! length ys = take ?n (fa_managed a) ! length ys" "fa_free a ! length ys = take ?n (fa_free a) ! length ys"
    using n by simp_all
  then have y: "fa_managed a ! length ys = y" "fa_free a ! length ys = y" using m by simp_all
  have eq: "fill_region r a = a\<lparr>fa_managed := (fa_managed a)[length ys := y'], fa_free := (fa_free a)[length ys := y']\<rparr>"
    using u adj y n by (simp add: fill_region_def Let_def y'_def)
  have "take ?n ((fa_managed a)[length ys := y']) = ys @ [y']" "take ?n ((fa_free a)[length ys := y']) = ys @ [y']"
    using m by (simp_all add: take_update_swap)
  then show "managed_list (fill_region r a) = ys @ [y']" "free_list (fill_region r a) = ys @ [y']"
    using eq a(3) by (simp_all add: managed_list_def free_list_def)
  show "arrays_ok (fill_region r a)" "fa_managed_len (fill_region r a) = ?n" "fa_free_len (fill_region r a) = fa_free_len a"
    using eq a(1) by (simp_all add: arrays_ok_def)
qed

lemma fill_merge_extent:
  assumes y: "extent_ok y" "ext_limit y = unat (mr_physical_start r)" and r: "region_ok r"
  defines "y' \<equiv> y\<lparr>ex_page_count := ex_page_count y + mr_page_count r\<rparr>"
  shows "extent_ok y'" "ext_limit y' = region_limit r" "extent_frames y' = extent_frames y \<union> {f \<in> region_bytes r. 4096 dvd f}"
    "ex_physical_start y' = ex_physical_start y"
proof -
  have "unat (ex_page_count y) + unat (mr_page_count r) < 2 ^ 64"
    using y r by (simp add: extent_ok_def region_ok_def ext_limit_def region_limit_def)
  note c = checked_add_ok(2) [OF this]
  show l: "ext_limit y' = region_limit r" and s: "ex_physical_start y' = ex_physical_start y"
    using c y(2) by (simp_all add: y'_def ext_limit_def region_limit_def)
  have "unat (ex_page_count y) \<noteq> 0" using y(1) by (simp add: extent_ok_def unat_eq_zero)
  then have "unat (ex_page_count y + mr_page_count r) \<noteq> 0" using c by simp
  then have "ex_page_count y + mr_page_count r \<noteq> 0" by (metis unat_0)
  then show "extent_ok y'" using y r l by (simp add: extent_ok_def region_ok_def) (simp add: y'_def)
  show "extent_frames y' = extent_frames y \<union> {f \<in> region_bytes r. 4096 dvd f}"
    using frames_merge [OF y(1) region_extent(1) [OF r] s] y(2) l region_extent [OF r] by simp
qed

lemma usable_frames_simps [simp]:
  "usable_frames [] = {}"
  "usable_frames (r # rs) = (if mr_kind r = MEMORY_USABLE then {f \<in> region_bytes r. 4096 dvd f} else {}) \<union> usable_frames rs"
  by (auto simp: usable_frames_def usable_bytes_def)

lemma fill_gap:
  assumes f: "fill_inv a pe pu n" and r: "\<And>x. pe = Some x \<Longrightarrow> unat x \<le> unat (mr_physical_start r)"
    and pu: "pu \<noteq> Some (mr_physical_start r)" and y: "y \<in> set (managed_list a)"
  shows "ext_limit y < unat (mr_physical_start r)"
proof (cases pu)
  case None
  then show ?thesis using f y r unfolding fill_inv_def by force
next
  case (Some u)
  have l: "pe = Some u" "managed_list a \<noteq> []" "ext_limit (last (managed_list a)) = unat u" "extents_ok (managed_list a)"
    using f Some by (simp_all add: fill_inv_def)
  obtain ys z where m: "managed_list a = ys @ [z]" using l(2) by (metis append_butlast_last_id)
  have "unat u \<noteq> unat (mr_physical_start r)" using pu Some by (simp add: word_unat_eq_iff)
  then have "ext_limit z < unat (mr_physical_start r)" using r [OF l(1)] l(3) m by simp
  moreover have "y = z \<or> ext_limit y < unat (ex_physical_start z)" "extent_ok z"
    using l(4) y m by (auto simp: extents_ok_append extents_ok_Cons)
  ultimately show ?thesis using limit_above [of z] by auto
qed

text \<open>One region in both passes.\<close>

lemma fill_step:
  assumes f: "fill_inv a pe pu n" and r: "region_ok r" "\<And>x. pe = Some x \<Longrightarrow> unat x \<le> unat (mr_physical_start r)"
    and e: "unat e = region_limit r"
  shows "mr_kind r \<noteq> MEMORY_USABLE \<Longrightarrow> fill_inv (fill_region r a) (Some e) None n \<and> managed_frames (fill_region r a) = managed_frames a"
    and "mr_kind r = MEMORY_USABLE \<Longrightarrow> pu = Some (mr_physical_start r) \<Longrightarrow>
      fill_inv (fill_region r a) (Some e) (Some e) n
      \<and> managed_frames (fill_region r a) = managed_frames a \<union> {f \<in> region_bytes r. 4096 dvd f}"
    and "mr_kind r = MEMORY_USABLE \<Longrightarrow> pu \<noteq> Some (mr_physical_start r) \<Longrightarrow> n < MAX_FRAME_EXTENTS \<Longrightarrow>
      fill_inv (fill_region r a) (Some e) (Some e) (n + 1)
      \<and> managed_frames (fill_region r a) = managed_frames a \<union> {f \<in> region_bytes r. 4096 dvd f}"
proof -
  have a: "arrays_ok a" "free_list a = managed_list a" "fa_managed_len a = fa_free_len a" "fa_managed_len a = n" "extents_ok (managed_list a)"
    using f by (simp_all add: fill_inv_def)
  have below: "ext_limit y \<le> unat (mr_physical_start r)" if "y \<in> set (managed_list a)" for y
    using f r(2) that unfolding fill_inv_def by force
  have lim: "unat (mr_physical_start r) < unat e" using limit_start [OF r(1)] e by simp
  have below': "ext_limit y \<le> region_limit r" if "y \<in> set (managed_list a)" for y
    using below [OF that] limit_start [OF r(1)] by simp
  show "fill_inv (fill_region r a) (Some e) None n \<and> managed_frames (fill_region r a) = managed_frames a"
    if "mr_kind r \<noteq> MEMORY_USABLE"
    using that f below lim by (force simp: fill_inv_def fill_region_def)
  show "fill_inv (fill_region r a) (Some e) (Some e) n
      \<and> managed_frames (fill_region r a) = managed_frames a \<union> {f \<in> region_bytes r. 4096 dvd f}"
    if u: "mr_kind r = MEMORY_USABLE" and pu: "pu = Some (mr_physical_start r)"
  proof -
    have l: "managed_list a \<noteq> []" "ext_limit (last (managed_list a)) = unat (mr_physical_start r)"
      using f pu by (simp_all add: fill_inv_def)
    then obtain ys y where ml: "managed_list a = ys @ [y]" by (metis append_butlast_last_id)
    with l(2) have y: "ext_limit y = unat (mr_physical_start r)" by simp
    have ok: "extent_ok y" using a(5) ml by (simp add: extents_ok_append extents_ok_Cons)
    have adj: "extent_end y = Some (mr_physical_start r)" using ok y by (simp add: extent_end_iff extent_ok_def)
    note m = fill_merge [OF a(1-3) ml u adj] and x = fill_merge_extent [OF ok y r(1)]
    have "extents_ok (managed_list (fill_region r a))" using a(5) ml m(1) x by (auto simp: extents_ok_append extents_ok_Cons)
    then show ?thesis
      using m x a ml e below' by (auto simp: fill_inv_def managed_frames_def)
  qed
  show "fill_inv (fill_region r a) (Some e) (Some e) (n + 1)
      \<and> managed_frames (fill_region r a) = managed_frames a \<union> {f \<in> region_bytes r. 4096 dvd f}"
    if u: "mr_kind r = MEMORY_USABLE" and pu: "pu \<noteq> Some (mr_physical_start r)" and n: "n < MAX_FRAME_EXTENTS"
  proof -
    have strict: "ext_limit y < unat (mr_physical_start r)" if "y \<in> set (managed_list a)" for y
      by (rule fill_gap [OF f r(2) pu that])
    have "extent_end (last (managed_list a)) \<noteq> Some (mr_physical_start r)" if "managed_list a \<noteq> []"
      using strict [of "last (managed_list a)"] that by (auto simp: extent_end_iff)
    note m = fill_append [OF a(1-3) _ u this] and x = region_extent [OF r(1)]
    have "extents_ok (managed_list a @ [region_extent r])"
      using a(5) x strict by (auto simp: extents_ok_append extents_ok_Cons)
    then show ?thesis
      using m x a n e below' by (auto simp: fill_inv_def managed_frames_def)
  qed
qed

lemma fill_loop:
  assumes "count_extents ps pe pu n rs = Inr m" "fill_inv a pe pu n" "n \<le> MAX_FRAME_EXTENTS"
  shows "\<exists>pe' pu'. fill_inv (fold fill_region rs a) pe' pu' m
    \<and> managed_frames (fold fill_region rs a) = managed_frames a \<union> usable_frames rs"
  using assms
proof (induction rs arbitrary: ps pe pu n a)
  case Nil
  then show ?case by auto
next
  case (Cons r rs)
  from Cons.prems(1) obtain e where c: "region_ok r" "\<And>x. pe = Some x \<Longrightarrow> unat x \<le> unat (mr_physical_start r)" "unat e = region_limit r"
    and k: "if mr_kind r = MEMORY_USABLE
     then (let n' = (if pu = Some (mr_physical_start r) then n else n + 1)
           in (pu = Some (mr_physical_start r) \<or> n' \<le> MAX_FRAME_EXTENTS)
              \<and> count_extents (Some (mr_physical_start r)) (Some e) (Some e) n' rs = Inr m)
     else count_extents (Some (mr_physical_start r)) (Some e) None n rs = Inr m"
    by (rule count_step) blast
  note s = fill_step [OF Cons.prems(2) c]
  consider "mr_kind r \<noteq> MEMORY_USABLE" | "mr_kind r = MEMORY_USABLE" "pu = Some (mr_physical_start r)"
    | "mr_kind r = MEMORY_USABLE" "pu \<noteq> Some (mr_physical_start r)" by blast
  then show ?case
  proof cases
    case 1
    then show ?thesis using Cons.IH [of _ "Some e" None n "fill_region r a"] s(1) k Cons.prems(3) by fastforce
  next
    case 2
    then show ?thesis using Cons.IH [of _ "Some e" "Some e" n "fill_region r a"] s(2) k Cons.prems(3) by (fastforce simp: Let_def)
  next
    case 3
    then have n: "n + 1 \<le> MAX_FRAME_EXTENTS" using k by (simp add: Let_def)
    then show ?thesis using Cons.IH [of _ "Some e" "Some e" "n + 1" "fill_region r a"] s(3) 3 k by (fastforce simp: Let_def)
  qed
qed

lemma initialize_cases:
  assumes inv: "allocator_inv a"
  obtains (rejected) err where "validate_and_count_extents rs = Inl err" "allocator_initialize rs a = (Inl err, a)"
    | (filled) n b where "validate_and_count_extents rs = Inr n" "allocator_initialize rs a = (Inr (), b)" "allocator_inv b"
        "managed_frames b = usable_frames rs" "free_frames b = usable_frames rs"
        "managed_extent_count b = n" "free_extent_count b = n"
proof (cases "validate_and_count_extents rs")
  case (Inl err)
  then show ?thesis using rejected by (simp add: allocator_initialize_def)
next
  case (Inr n)
  let ?a = "a\<lparr>fa_managed_len := 0, fa_free_len := 0\<rparr>"
  have "fill_inv ?a None None 0"
    using allocator_invD(1) [OF inv] by (simp add: fill_inv_def arrays_ok_def managed_list_def free_list_def)
  from fill_loop [OF Inr [unfolded validate_and_count_extents_def] this] obtain pe pu where
    f: "fill_inv (fold fill_region rs ?a) pe pu n" "managed_frames (fold fill_region rs ?a) = managed_frames ?a \<union> usable_frames rs"
    by auto
  have "managed_frames ?a = {}" by (simp add: managed_frames_def managed_list_def)
  then show ?thesis
    using filled [OF Inr] f Inr
    by (simp add: allocator_initialize_def fill_inv_def allocator_inv_def managed_frames_def free_frames_def
        managed_extent_count_def free_extent_count_def)
qed


section \<open>The allocator as a pool of frames\<close>

text \<open>What a client of the allocator relies on: a frame it gets was in the pool, a frame it gives back is one
  of those managed, and a call that fails changes nothing.\<close>

locale frame_pool =
  fixes invar :: "'s \<Rightarrow> bool"
    and managed :: "'s \<Rightarrow> nat set"
    and available :: "'s \<Rightarrow> nat set"
    and allocate :: "'s \<Rightarrow> ('e + u64) \<times> 's"
    and release :: "u64 \<Rightarrow> 's \<Rightarrow> ('f + unit) \<times> 's"
  assumes available_managed: "invar s \<Longrightarrow> available s \<subseteq> managed s"
    and allocate_ok: "invar s \<Longrightarrow> allocate s = (Inr f, t) \<Longrightarrow>
      invar t \<and> managed t = managed s \<and> unat f \<in> available s \<and> available t = available s - {unat f}"
    and allocate_failed: "invar s \<Longrightarrow> allocate s = (Inl e, t) \<Longrightarrow> t = s"
    and release_ok: "invar s \<Longrightarrow> release f s = (Inr (), t) \<Longrightarrow>
      invar t \<and> managed t = managed s \<and> unat f \<in> managed s - available s \<and> available t = insert (unat f) (available s)"
    and release_failed: "invar s \<Longrightarrow> release f s = (Inl e', t) \<Longrightarrow> t = s"

text \<open>A client's calls, with the set of frames it holds.\<close>

inductive pool_run :: "('s \<Rightarrow> ('e + u64) \<times> 's) \<Rightarrow> (u64 \<Rightarrow> 's \<Rightarrow> ('f + unit) \<times> 's) \<Rightarrow> 's \<Rightarrow> 's \<Rightarrow> nat set \<Rightarrow> bool"
  for allocate release s where
  run_start: "pool_run allocate release s s {}"
| run_allocate: "pool_run allocate release s t H \<Longrightarrow> allocate t = (Inr f, u) \<Longrightarrow> pool_run allocate release s u (insert (unat f) H)"
| run_allocate_failed: "pool_run allocate release s t H \<Longrightarrow> allocate t = (Inl e, u) \<Longrightarrow> pool_run allocate release s u H"
| run_release: "pool_run allocate release s t H \<Longrightarrow> release f t = (Inr (), u) \<Longrightarrow> pool_run allocate release s u (H - {unat f})"
| run_release_failed: "pool_run allocate release s t H \<Longrightarrow> release f t = (Inl e', u) \<Longrightarrow> pool_run allocate release s u H"

context frame_pool
begin

lemma run_invariant:
  assumes "pool_run allocate release s t H" "invar s" "available s = managed s"
  shows "invar t \<and> managed t = managed s \<and> available t \<inter> H = {} \<and> available t \<union> H = managed s"
  using assms
proof (induction rule: pool_run.induct)
  case run_start
  then show ?case by simp
next
  case (run_allocate t H f u)
  then have t: "invar t" "managed t = managed s" "available t \<inter> H = {}" "available t \<union> H = managed s" by simp_all
  from allocate_ok [OF t(1) run_allocate.hyps(2)] t(2-4) show ?case by auto
next
  case (run_allocate_failed t H e u)
  then show ?case using allocate_failed [of t e u] by simp
next
  case (run_release t H f u)
  then have t: "invar t" "managed t = managed s" "available t \<inter> H = {}" "available t \<union> H = managed s" by simp_all
  from release_ok [OF t(1) run_release.hyps(2)] t(2-4) show ?case by auto
next
  case (run_release_failed t H f e' u)
  then show ?case using release_failed [of t f e' u] by simp
qed

lemma allocated_fresh:
  assumes "pool_run allocate release s t H" "invar s" "available s = managed s" "allocate t = (Inr f, u)"
  shows "unat f \<in> managed s" "unat f \<notin> H"
proof -
  note r = run_invariant [OF assms(1-3)]
  from allocate_ok [OF conjunct1 [OF r] assms(4)] r show "unat f \<in> managed s" "unat f \<notin> H" by auto
qed

end

lemma allocate_result:
  assumes "allocator_inv a" "allocate_frame a = (x, b)"
  shows "allocator_inv b \<and> managed_frames b = managed_frames a
    \<and> (case x of Inl e \<Rightarrow> e = Allocate_Exhausted \<and> b = a \<and> free_frames a = {}
       | Inr f \<Rightarrow> unat f = Min (free_frames a) \<and> unat f \<in> free_frames a \<and> free_frames b = free_frames a - {unat f})"
proof (cases "free_frames a = {}")
  case True
  then show ?thesis using allocate_empty [OF assms(1)] assms by simp
next
  case False
  obtain f b' where f: "allocate_frame a = (Inr f, b')" "unat f \<in> free_frames a" "\<And>g. g \<in> free_frames a \<Longrightarrow> unat f \<le> g"
      "free_frames b' = free_frames a - {unat f}" "managed_frames b' = managed_frames a" "allocator_inv b'"
    using allocate_lowest [OF assms(1) False] by metis
  have "finite (free_frames a)" by (auto simp: free_frames_def frames_of_def extent_frames_def)
  then have "Min (free_frames a) = unat f" using f(2,3) by (intro Min_eqI) auto
  then show ?thesis using f assms(2) by simp
qed

lemma free_result:
  assumes inv: "allocator_inv a" and x: "free_frame p a = (x, b)"
  shows "allocator_inv b \<and> managed_frames b = managed_frames a
    \<and> (case x of Inl e \<Rightarrow> b = a \<and> (e = Free_CapacityExceeded \<longrightarrow> free_extent_count a = MAX_FRAME_EXTENTS
             \<and> unat p \<in> managed_frames a - free_frames a)
           \<and> (e \<noteq> Free_CapacityExceeded \<longrightarrow> unat p \<notin> managed_frames a - free_frames a)
       | Inr _ \<Rightarrow> unat p \<in> managed_frames a - free_frames a \<and> free_frames b = insert (unat p) (free_frames a))"
proof (cases "unat p \<in> managed_frames a")
  case False
  then show ?thesis using free_unmanaged [OF inv False] x inv by (auto split: if_splits)
next
  case True
  from inv managed_bounds [OF inv True] True show ?thesis
    by (cases rule: free_managed_cases) (use x inv True in \<open>auto simp: free_extent_count_def\<close>)
qed

interpretation allocator: frame_pool allocator_inv managed_frames free_frames allocate_frame free_frame
proof
  fix a b f e e'
  assume inv: "allocator_inv a"
  then show "free_frames a \<subseteq> managed_frames a" by (rule allocator_invD(4))
  show "allocate_frame a = (Inr f, b) \<Longrightarrow> allocator_inv b \<and> managed_frames b = managed_frames a \<and> unat f \<in> free_frames a
      \<and> free_frames b = free_frames a - {unat f}" using allocate_result [OF inv] by fastforce
  show "allocate_frame a = (Inl e, b) \<Longrightarrow> b = a" using allocate_result [OF inv] by fastforce
  show "free_frame f a = (Inr (), b) \<Longrightarrow> allocator_inv b \<and> managed_frames b = managed_frames a
      \<and> unat f \<in> managed_frames a - free_frames a \<and> free_frames b = insert (unat f) (free_frames a)"
    using free_result [OF inv] by fastforce
  show "free_frame f a = (Inl e', b) \<Longrightarrow> b = a" using free_result [OF inv] by fastforce
qed

section \<open>Properties\<close>

text \<open>Allocators reached from a new one by any calls.\<close>

inductive allocator_reachable :: "FrameAllocator \<Rightarrow> bool" where
  reached_new: "allocator_reachable allocator_new"
| reached_initialize: "allocator_reachable a \<Longrightarrow> allocator_initialize rs a = (x, b) \<Longrightarrow> allocator_reachable b"
| reached_allocate: "allocator_reachable a \<Longrightarrow> allocate_frame a = (y, b) \<Longrightarrow> allocator_reachable b"
| reached_free: "allocator_reachable a \<Longrightarrow> free_frame p a = (z, b) \<Longrightarrow> allocator_reachable b"

lemma initialize_inv: "allocator_inv a \<Longrightarrow> allocator_initialize rs a = (x, b) \<Longrightarrow> allocator_inv b"
  by (cases rule: initialize_cases [of a rs]) auto

lemma allocator_reachable_inv: "allocator_reachable a \<Longrightarrow> allocator_inv a"
  by (induction rule: allocator_reachable.induct)
    (use allocator_new_inv(1) initialize_inv allocate_result free_result in blast)+

text \<open>The abstract allocator: the set of free frames, of which allocation takes the lowest.\<close>

definition pool_allocate :: "nat set \<Rightarrow> nat option \<times> nat set" where
  "pool_allocate S = (if S = {} then (None, S) else (Some (Min S), S - {Min S}))"

definition pool_release :: "nat set \<Rightarrow> nat \<Rightarrow> nat set \<Rightarrow> bool \<times> nat set" where
  "pool_release M f S = (if f \<in> M - S then (True, insert f S) else (False, S))"

text \<open>C9: the extent lists implement a set of frames.  On every reachable allocator, allocation takes exactly
  the lowest free frame and fails only when there is none, and returning a frame adds exactly that frame
  to the set and succeeds exactly for managed frames that are not free, as long as the table of free
  extents is not full; managed frames never change.\<close>

theorem allocator_refines_pool:
  assumes "allocator_reachable a"
  shows "(\<forall>x b. allocate_frame a = (x, b) \<longrightarrow> managed_frames b = managed_frames a
      \<and> pool_allocate (free_frames a) = ((case x of Inl _ \<Rightarrow> None | Inr f \<Rightarrow> Some (unat f)), free_frames b))
    \<and> (\<forall>p x b. free_frame p a = (x, b) \<longrightarrow> managed_frames b = managed_frames a
      \<and> (x = Inl Free_CapacityExceeded \<and> free_extent_count a = MAX_FRAME_EXTENTS \<and> b = a
         \<or> pool_release (managed_frames a) (unat p) (free_frames a) = (is_ok x, free_frames b)))"
proof -
  note inv = allocator_reachable_inv [OF assms]
  have "managed_frames b = managed_frames a
      \<and> pool_allocate (free_frames a) = ((case x of Inl _ \<Rightarrow> None | Inr f \<Rightarrow> Some (unat f)), free_frames b)"
    if "allocate_frame a = (x, b)" for x b
    using allocate_result [OF inv that] by (auto simp: pool_allocate_def split: sum.splits)
  moreover have "managed_frames b = managed_frames a
      \<and> (x = Inl Free_CapacityExceeded \<and> free_extent_count a = MAX_FRAME_EXTENTS \<and> b = a
         \<or> pool_release (managed_frames a) (unat p) (free_frames a) = (is_ok x, free_frames b))"
    if "free_frame p a = (x, b)" for p x b
    using free_result [OF inv that] by (cases x) (auto simp: pool_release_def)
  ultimately show ?thesis by blast
qed

text \<open>One usable region of two pages.\<close>

definition example_regions :: "MemoryRegionV1 list" where
  "example_regions = [\<lparr>mr_physical_start = 8192, mr_page_count = 2, mr_kind = MEMORY_USABLE, mr_attributes = 0\<rparr>]"

theorem allocator_refines_pool_witness:
  "allocator_reachable allocator_new \<and> pool_allocate (free_frames allocator_new) = (None, free_frames allocator_new)"
proof -
  have "allocate_frame allocator_new = (Inl Allocate_Exhausted, allocator_new)"
    by (rule allocate_empty [OF allocator_new_inv])
  then show ?thesis using allocator_refines_pool [OF reached_new] reached_new by fastforce
qed

text \<open>C10: frames are neither lost nor handed out twice.  From an initialized allocator on, through any
  sequence of calls, the frames a client holds and the free frames are disjoint and together are exactly
  the frames of usable memory; a frame that is handed out is not held by anyone, is page aligned and
  does not wrap around the address space.\<close>

theorem frames_conserved:
  assumes "allocator_initialize rs a = (Inr (), b)" "allocator_reachable a"
    and "pool_run allocate_frame free_frame b c held"
  shows "free_frames c \<inter> held = {} \<and> free_frames c \<union> held = usable_frames rs
    \<and> (\<forall>f d. allocate_frame c = (Inr f, d) \<longrightarrow> unat f \<in> usable_frames rs - held \<and> 4096 dvd unat f \<and> unat f + 4096 < 2 ^ 64)"
proof -
  from allocator_reachable_inv [OF assms(2)] have b: "allocator_inv b" "managed_frames b = usable_frames rs" "free_frames b = usable_frames rs"
    by (cases rule: initialize_cases [of a rs]; use assms(1) in auto)+
  have eq: "free_frames b = managed_frames b" using b by simp
  note r = allocator.run_invariant [OF assms(3) b(1) eq] and f = allocator.allocated_fresh [OF assms(3) b(1) eq]
  have "unat g \<in> usable_frames rs - held \<and> 4096 dvd unat g \<and> unat g + 4096 < 2 ^ 64" if "allocate_frame c = (Inr g, d)" for g d
    using f [OF that] managed_bounds [OF b(1) f(1) [OF that]] b(2) by blast
  then show ?thesis using r b(2) by blast
qed

theorem frames_conserved_witness:
  "\<exists>b c f. allocator_initialize example_regions allocator_new = (Inr (), b) \<and> allocate_frame b = (Inr f, c)
    \<and> free_frames c \<union> {unat f} = usable_frames example_regions \<and> free_frames c \<inter> {unat f} = {}"
proof -
  have "validate_and_count_extents example_regions = Inr 1"
    by (simp add: validate_and_count_extents_def example_regions_def is_multiple_of_def is_known_memory_kind_def
        checked_mul_def checked_add_def)
  with allocator_new_inv(1) obtain b where b: "allocator_initialize example_regions allocator_new = (Inr (), b)" "allocator_inv b"
      "free_frames b = usable_frames example_regions"
    by (cases rule: initialize_cases [of allocator_new example_regions]) auto
  have "8192 \<in> usable_frames example_regions"
    by (simp add: usable_frames_def usable_bytes_def example_regions_def region_bytes_def region_limit_def)
  then obtain f c where f: "allocate_frame b = (Inr f, c)" using b allocate_lowest [OF b(2)] by (metis empty_iff)
  have "pool_run allocate_frame free_frame b c {unat f}" using run_allocate [of allocate_frame free_frame b b "{}", OF run_start f] by simp
  from frames_conserved [OF b(1) reached_new this] b(1) f show ?thesis by blast
qed

text \<open>A memory map that the boot contract accepts has room in the allocator.\<close>

lemma count_validated:
  assumes "validate_regions ps pe rs = Inr ()" "n + length rs \<le> MAX_FRAME_EXTENTS"
  shows "\<exists>m. count_extents ps pe pu n rs = Inr m"
  using assms
proof (induction rs arbitrary: ps pe pu n)
  case Nil
  then show ?case by simp
next
  case (Cons r rs)
  from Cons.prems(1) [unfolded validate_regions_step] obtain e where
    r: "region_ok r" "\<forall>s. ps = Some s \<longrightarrow> s \<le> mr_physical_start r" "\<forall>e. pe = Some e \<longrightarrow> e \<le> mr_physical_start r"
      "unat e = region_limit r" "validate_regions (Some (mr_physical_start r)) (Some e) rs = Inr ()" by blast
  have "region_limit r < 2 ^ 64" using r(1) by (simp add: region_ok_def)
  then have e: "Option.bind (checked_mul (mr_page_count r) 4096) (checked_add (mr_physical_start r)) = Some e"
    using r(4) unfolding page_range_end region_limit_def by blast
  have order: "(case ps of None \<Rightarrow> False | Some s \<Rightarrow> mr_physical_start r < s) = False"
      "(case pe of None \<Rightarrow> False | Some s \<Rightarrow> mr_physical_start r < s) = False"
    using r(2,3) by (auto simp: not_less split: option.splits)
  note ih = Cons.IH [OF r(5)]
  have n: "n + 1 + length rs \<le> MAX_FRAME_EXTENTS" "n + length rs \<le> MAX_FRAME_EXTENTS" using Cons.prems(2) by simp_all
  have z: "mr_page_count r \<noteq> 0" "is_multiple_of (mr_physical_start r) PAGE_SIZE" "is_known_memory_kind (mr_kind r)"
      "mr_attributes r = 0" using r(1) by (simp_all add: region_ok_def page_aligned)
  have room: "n + 1 \<le> MAX_FRAME_EXTENTS" "\<not> (n + 1 \<ge> 2 ^ 64 \<or> n + 1 > MAX_FRAME_EXTENTS)" using n(1) by simp_all
  have step: "count_extents ps pe pu n (r # rs) =
      (if mr_kind r \<noteq> MEMORY_USABLE then count_extents (Some (mr_physical_start r)) (Some e) None n rs
       else if pu = Some (mr_physical_start r) then count_extents (Some (mr_physical_start r)) (Some e) (Some e) n rs
       else count_extents (Some (mr_physical_start r)) (Some e) (Some e) (n + 1) rs)"
    unfolding count_extents.simps order e [folded PAGE_SIZE_def] ok_or_simps and_then_simps Let_def
    using z room(2) by (simp only: simp_thms if_False if_True split: if_split) blast
  obtain m1 m2 m3 where "count_extents (Some (mr_physical_start r)) (Some e) None n rs = Inr m1"
      "count_extents (Some (mr_physical_start r)) (Some e) (Some e) n rs = Inr m2"
      "count_extents (Some (mr_physical_start r)) (Some e) (Some e) (n + 1) rs = Inr m3"
    using ih [OF n(1)] ih [OF n(2)] by metis
  then show ?case unfolding step by (simp only: split: if_split) blast
qed

lemma page_in_usable:
  assumes "list_all region_ok rs" "f \<in> usable_frames rs"
  shows "{f ..< f + 4096} \<subseteq> usable_bytes rs"
proof -
  obtain r where r: "r \<in> set rs" "mr_kind r = MEMORY_USABLE" "f \<in> region_bytes r" "4096 dvd f"
    using assms(2) unfolding usable_frames_def usable_bytes_def by blast
  have "region_ok r" using assms(1) r(1) by (simp add: list_all_iff)
  then have "4096 dvd region_limit r" by (simp add: region_ok_def region_limit_def)
  then have "f + 4096 \<le> region_limit r" using aligned_step [OF r(4)] r(3) by (simp only: region_bytes_def atLeastLessThan_iff)
  then have "{f ..< f + 4096} \<subseteq> region_bytes r" using r(3) by (auto simp: region_bytes_def)
  then show ?thesis using r(1,2) unfolding usable_bytes_def by blast
qed

text \<open>C34: booting hands out only memory that is free to use.  A handoff that passes validation can always be
  given to the frame allocator, and no page that the allocator ever hands out overlaps the handoff
  structure, the memory map it points to, or the framebuffer.\<close>

theorem validated_boot_memory:
  assumes "validate_handoff h address slice_address rs = Inr ()"
  shows "\<exists>b. allocator_initialize rs allocator_new = (Inr (), b)
    \<and> (\<forall>c held f d. pool_run allocate_frame free_frame b c held \<and> allocate_frame c = (Inr f, d) \<longrightarrow>
         {unat f ..< unat f + 4096} \<subseteq> usable_bytes rs \<and> disjnt {unat f ..< unat f + 4096} (handoff_bytes h address))"
proof -
  note v = validated_handoff [OF assms]
  have "validate_regions None None rs = Inr ()" using v(1) by (simp only: validate_regions_iff option.distinct simp_thms)
  then obtain n where n: "validate_and_count_extents rs = Inr n"
    using count_validated [of None None rs 0 None] v(2) unfolding validate_and_count_extents_def by auto
  from allocator_new_inv(1) n obtain b where b: "allocator_initialize rs allocator_new = (Inr (), b)"
    by (cases rule: initialize_cases [of allocator_new rs]) auto
  have "{unat f ..< unat f + 4096} \<subseteq> usable_bytes rs \<and> disjnt {unat f ..< unat f + 4096} (handoff_bytes h address)"
    if r: "pool_run allocate_frame free_frame b c held" and f: "allocate_frame c = (Inr f, d)" for c held f d
  proof -
    from allocator_new_inv(1) have i: "allocator_inv b" "managed_frames b = usable_frames rs" "free_frames b = usable_frames rs"
      by (cases rule: initialize_cases [of allocator_new rs]; use b in auto)+
    then have "unat f \<in> usable_frames rs" using allocator.allocated_fresh(1) [OF r _ _ f] by simp
    then have "{unat f ..< unat f + 4096} \<subseteq> usable_bytes rs" using page_in_usable v(1) by (simp add: map_ok_def)
    then show ?thesis using v(3) unfolding disjnt_iff by blast
  qed
  with b show ?thesis by blast
qed

definition example_handoff :: BootHandoffV1 where
  "example_handoff = handoff_empty\<lparr>bh_memory_regions_address := 4200, bh_memory_region_count := 1\<rparr>"

theorem validated_boot_memory_witness:
  "validate_handoff example_handoff 4096 4200 example_regions = Inr ()
   \<and> (\<exists>b. allocator_initialize example_regions allocator_new = (Inr (), b))"
proof -
  have "validate_handoff example_handoff 4096 4200 example_regions = Inr ()"
    by (simp add: validate_handoff_def validate_handoff_header_def example_handoff_def handoff_empty_def header_new_def
        validate_header_def validate_framebuffer_shape_def framebuffer_is_zero_def example_regions_def is_multiple_of_def
        is_known_memory_kind_def checked_mul_def checked_add_def reject_usable_def validate_region_end_def Let_def)
  with validated_boot_memory [OF this] show ?thesis by blast
qed

end
