(* ===== verification/Loader.thy ===== *)
theory Loader
  imports Kernel_Image_Segments Normalize_Properties Frame_Pool
begin

text \<open>
  The UEFI loader of \<open>src/loader/src/main.rs\<close>: reading the kernel, collecting the overrides for its segments and
  the framebuffer, copying the segments to their addresses, leaving boot services, normalizing the memory map
  and building the handoff.  The firmware is third-party code: a record of functions on a state of any type
  stands for the calls of the \<open>uefi\<close> crate that the loader makes.  Physical memory is a function from addresses to
  bytes.  The handoff and its region array are values, not bytes in that memory.
\<close>


section \<open>The firmware interface\<close>

text \<open>The statuses that the loader names; every other status of the firmware is passed through.\<close>

datatype Status = LOAD_ERROR | OUT_OF_RESOURCES | Firmware_Status u64

datatype MemoryType =
    CONVENTIONAL | LOADER_CODE | LOADER_DATA | BOOT_SERVICES_CODE | BOOT_SERVICES_DATA | ACPI_RECLAIM
  | ACPI_NON_VOLATILE | MMIO | MMIO_PORT_SPACE | Other_Memory u32

record MemoryDescriptor =
  md_ty :: MemoryType
  md_phys_start :: u64
  md_page_count :: u64

datatype PixelFormat = Format_Rgb | Format_Bgr | Format_Bitmask | Format_BltOnly

record GraphicsMode =
  gm_pixel_format :: PixelFormat
  gm_width :: nat
  gm_height :: nat
  gm_stride :: nat
  gm_frame_buffer :: u64
  gm_frame_buffer_size :: nat

datatype AllocateType = AnyPages | Address u64

text \<open>An error of the file system: an I/O error with its status, or any other.\<close>

datatype FileSystemError = Io_Error Status | Other_Error

text \<open>The calls: initialization, the file system with the size and the contents of the kernel file, allocation of
  pages as loader data, the graphics output (if there is one and it can be opened), and the memory map that
  leaving boot services returns, sorted.\<close>

record 'fw Firmware =
  fw_init :: "('fw, unit, unit) action"
  fw_file_system :: "('fw, Status, unit) action"
  fw_metadata :: "('fw, FileSystemError, u64) action"
  fw_read :: "('fw, FileSystemError, u8 list) action"
  fw_allocate_pages :: "AllocateType \<Rightarrow> nat \<Rightarrow> ('fw, Status, u64) action"
  fw_graphics :: "'fw \<Rightarrow> GraphicsMode option"
  fw_final_map :: "'fw \<Rightarrow> MemoryDescriptor list"

record 'fw Machine =
  mc_firmware :: 'fw
  mc_memory :: "nat \<Rightarrow> u8"

text \<open>How the loader stops without entering the kernel: it returns a status, panics, or halts after boot services
  are gone.  \<open>Running\<close> is a loop that has used up its fuel; no run of the loader ends in it.\<close>

datatype Stop = Failed Status | Panicked | Halted | Running

text \<open>A firmware call on the machine.\<close>

definition firmware_call :: "('fw, 'e, 'a) action \<Rightarrow> ('e \<Rightarrow> Stop) \<Rightarrow> ('fw Machine, Stop, 'a) action" where
  "firmware_call call stop m =
     (case call (mc_firmware m) of
        (Inl e, fw) \<Rightarrow> (Inl (stop e), m\<lparr>mc_firmware := fw\<rparr>)
      | (Inr a, fw) \<Rightarrow> (Inr a, m\<lparr>mc_firmware := fw\<rparr>))"


section \<open>Constants\<close>

definition UEFI_PAGE_SIZE :: nat where [simp, const_simps]: "UEFI_PAGE_SIZE = 4096"
definition MAX_KERNEL_IMAGE_SIZE :: u64 where [simp, const_simps]: "MAX_KERNEL_IMAGE_SIZE = 16 * 1024 * 1024"
definition MAX_REGION_OVERRIDES :: nat where [simp, const_simps]: "MAX_REGION_OVERRIDES = MAXIMUM_LOAD_SEGMENTS + 1"
definition REGION_STORAGE_BYTES :: nat where [simp, const_simps]: "REGION_STORAGE_BYTES = MAX_MEMORY_REGIONS * REGION_SIZE"
definition REGION_STORAGE_PAGES :: nat where [simp, const_simps]: "REGION_STORAGE_PAGES = 6"


section \<open>Reading the kernel\<close>

definition file_system_status :: "FileSystemError \<Rightarrow> Status" where
  "file_system_status error = (case error of Io_Error status \<Rightarrow> status | Other_Error \<Rightarrow> LOAD_ERROR)"

definition read_kernel :: "'fw Firmware \<Rightarrow> ('fw Machine, Stop, u8 list) action" where
  "read_kernel F =
     act_then (firmware_call (fw_file_system F) Failed)
     (act_bind (firmware_call (fw_metadata F) (\<lambda>e. Failed (file_system_status e))) (\<lambda>file_size.
        if file_size = 0 \<or> file_size > MAX_KERNEL_IMAGE_SIZE then act_fail (Failed LOAD_ERROR)
        else firmware_call (fw_read F) (\<lambda>e. Failed (file_system_status e))))"


section \<open>Loops over segments\<close>

text \<open>\<open>for segment in image.segments()\<close>: the iterator is called at most once more than there can be segments.\<close>

definition each_segment :: "(Segment \<Rightarrow> ('s, Stop, unit) action) \<Rightarrow> ValidatedImage \<Rightarrow> ('s, Stop, unit) action" where
  "each_segment body img s =
     (case for_segments (Suc MAXIMUM_LOAD_SEGMENTS) body (segments img) s of
        None \<Rightarrow> (Inl Running, s)
      | Some (Inl _, s') \<Rightarrow> (Inl Panicked, s')
      | Some (Inr r, s') \<Rightarrow> (r, s'))"

text \<open>The array of overrides with the number that are in use.\<close>

type_synonym override_table = "MemoryRegionOverride list \<times> nat"

definition collect_override :: "Segment \<Rightarrow> (override_table, Stop, unit) action" where
  "collect_override segment table =
     (case table of (overrides, count) \<Rightarrow>
        if count = MAXIMUM_LOAD_SEGMENTS then (Inl (Failed LOAD_ERROR), table)
        else
          (Inr (), (overrides[count :=
             \<lparr>ov_physical_start = sg_physical_start segment, ov_page_count = of_nat (segment_page_count segment),
              ov_kind = MEMORY_RESERVED, ov_require_full_coverage = True\<rparr>], count + 1)))"

definition collect_kernel_overrides :: "ValidatedImage \<Rightarrow> MemoryRegionOverride list \<Rightarrow> Stop + override_table" where
  "collect_kernel_overrides img overrides =
     (case each_segment collect_override img (overrides, 0) of
        (Inl stop, _) \<Rightarrow> Inl stop
      | (Inr _, table) \<Rightarrow> Inr table)"

text \<open>\<open>ptr::write_bytes\<close> and \<open>ptr::copy_nonoverlapping\<close>.\<close>

definition write_bytes :: "nat \<Rightarrow> u8 \<Rightarrow> nat \<Rightarrow> (nat \<Rightarrow> u8) \<Rightarrow> nat \<Rightarrow> u8" where
  "write_bytes start value n memory x = (if start \<le> x \<and> x < start + n then value else memory x)"

definition copy_bytes :: "u8 list \<Rightarrow> nat \<Rightarrow> (nat \<Rightarrow> u8) \<Rightarrow> nat \<Rightarrow> u8" where
  "copy_bytes source start memory x =
     (if start \<le> x \<and> x < start + length source then source ! (x - start) else memory x)"

definition load_segment :: "'fw Firmware \<Rightarrow> ValidatedImage \<Rightarrow> Segment \<Rightarrow> ('fw Machine, Stop, unit) action" where
  "load_segment F img segment =
     (let page_count = segment_page_count segment; destination = unat (sg_physical_start segment)
      in if page_count = 0 \<or> unat (sg_memory_size segment) \<ge> 2 ^ 64 then act_fail (Failed LOAD_ERROR)
         else
           act_then (firmware_call (fw_allocate_pages F (Address (sg_physical_start segment)) page_count) Failed)
           (act_then (act_modify (\<lambda>m. m\<lparr>mc_memory := write_bytes destination 0 (page_count * UEFI_PAGE_SIZE) (mc_memory m)\<rparr>))
             (case file_bytes img segment of
                None \<Rightarrow> act_fail Panicked
              | Some source \<Rightarrow> act_modify (\<lambda>m. m\<lparr>mc_memory := copy_bytes source destination (mc_memory m)\<rparr>))))"

definition load_segments :: "'fw Firmware \<Rightarrow> ValidatedImage \<Rightarrow> ('fw Machine, Stop, unit) action" where
  "load_segments F img = each_segment (load_segment F img) img"


section \<open>The framebuffer\<close>

definition framebuffer_default :: FramebufferV1 where
  "framebuffer_default =
     \<lparr>fb_physical_start = 0, fb_byte_length = 0, fb_width = 0, fb_height = 0, fb_stride_pixels = 0, fb_pixel_format = 0,
      fb_reserved = 0\<rparr>"

definition captured_framebuffer :: "GraphicsMode \<Rightarrow> u32 \<Rightarrow> Stop + FramebufferV1" where
  "captured_framebuffer mode pixel_format =
     (let width = gm_width mode; height = gm_height mode; stride = gm_stride mode
      in if width = 0 \<or> height = 0 \<or> stride < width then Inl (Failed LOAD_ERROR)
         else
           (let physical_start = gm_frame_buffer mode; byte_length = (of_nat (gm_frame_buffer_size mode) :: u64)
            in and_then (ok_or (Option.bind (checked_mul (of_nat stride) (of_nat height)) (\<lambda>pixels. checked_mul pixels 4))
                 (Failed LOAD_ERROR)) (\<lambda>minimum_length.
               if physical_start = 0 \<or> byte_length < minimum_length \<or> checked_add physical_start byte_length = None
               then Inl (Failed LOAD_ERROR)
               else if width \<ge> 2 ^ 32 \<or> height \<ge> 2 ^ 32 \<or> stride \<ge> 2 ^ 32 then Inl (Failed LOAD_ERROR)
               else
                 Inr \<lparr>fb_physical_start = physical_start, fb_byte_length = byte_length, fb_width = of_nat width,
                   fb_height = of_nat height, fb_stride_pixels = of_nat stride, fb_pixel_format = pixel_format,
                   fb_reserved = 0\<rparr>)))"

definition capture_framebuffer :: "'fw Firmware \<Rightarrow> 'fw \<Rightarrow> Stop + FramebufferV1" where
  "capture_framebuffer F fw =
     (case fw_graphics F fw of
        None \<Rightarrow> Inr framebuffer_default
      | Some mode \<Rightarrow>
          (case gm_pixel_format mode of
             Format_Rgb \<Rightarrow> captured_framebuffer mode PIXEL_FORMAT_RGB
           | Format_Bgr \<Rightarrow> captured_framebuffer mode PIXEL_FORMAT_BGR
           | Format_Bitmask \<Rightarrow> Inr framebuffer_default
           | Format_BltOnly \<Rightarrow> Inr framebuffer_default))"

definition add_framebuffer_override :: "FramebufferV1 \<Rightarrow> override_table \<Rightarrow> Stop + override_table" where
  "add_framebuffer_override framebuffer table =
     (case table of (overrides, count) \<Rightarrow>
        if framebuffer_is_zero framebuffer then Inr table
        else if count = length overrides then Inl (Failed OUT_OF_RESOURCES)
        else
          (let start = fb_physical_start framebuffer AND NOT (PAGE_SIZE - 1)
           in and_then (ok_or (map_option (\<lambda>value. value AND NOT (PAGE_SIZE - 1))
                  (Option.bind (checked_add (fb_physical_start framebuffer) (fb_byte_length framebuffer))
                    (\<lambda>value. checked_add value (PAGE_SIZE - 1)))) (Failed LOAD_ERROR)) (\<lambda>end'.
                Inr (overrides[count :=
                  \<lparr>ov_physical_start = start, ov_page_count = (end' - start) div PAGE_SIZE, ov_kind = MEMORY_MMIO,
                   ov_require_full_coverage = False\<rparr>], count + 1))))"


section \<open>The memory map\<close>

definition memory_kind :: "MemoryType \<Rightarrow> u32" where
  "memory_kind memory_type =
     (case memory_type of
        CONVENTIONAL \<Rightarrow> MEMORY_USABLE
      | LOADER_CODE \<Rightarrow> MEMORY_LOADER_RECLAIMABLE
      | LOADER_DATA \<Rightarrow> MEMORY_LOADER_RECLAIMABLE
      | BOOT_SERVICES_CODE \<Rightarrow> MEMORY_LOADER_RECLAIMABLE
      | BOOT_SERVICES_DATA \<Rightarrow> MEMORY_LOADER_RECLAIMABLE
      | ACPI_RECLAIM \<Rightarrow> MEMORY_ACPI_RECLAIMABLE
      | ACPI_NON_VOLATILE \<Rightarrow> MEMORY_ACPI_NVS
      | MMIO \<Rightarrow> MEMORY_MMIO
      | MMIO_PORT_SPACE \<Rightarrow> MEMORY_MMIO
      | Other_Memory _ \<Rightarrow> MEMORY_RESERVED)"

definition descriptor_source :: "MemoryDescriptor \<Rightarrow> SourceMemoryRegion" where
  "descriptor_source d = \<lparr>sr_physical_start = md_phys_start d, sr_page_count = md_page_count d, sr_kind = memory_kind (md_ty d)\<rparr>"

definition allocate_loader_pages :: "'fw Firmware \<Rightarrow> nat \<Rightarrow> ('fw Machine, Stop, u64) action" where
  "allocate_loader_pages F page_count = firmware_call (fw_allocate_pages F AnyPages page_count) Failed"


section \<open>Entering the kernel\<close>

text \<open>What the kernel finds when it is entered: the entry address, the address and the contents of the handoff, and the
  storage of the regions.\<close>

record KernelEntry =
  ke_entry :: u64
  ke_handoff_address :: u64
  ke_handoff :: BootHandoffV1
  ke_region_address :: u64
  ke_regions :: "MemoryRegionV1 list"

definition region_zero :: MemoryRegionV1 where
  "region_zero = \<lparr>mr_physical_start = 0, mr_page_count = 0, mr_kind = 0, mr_attributes = 0\<rparr>"

definition build_handoff :: "FramebufferV1 \<Rightarrow> u64 \<Rightarrow> nat \<Rightarrow> BootHandoffV1" where
  "build_handoff framebuffer region_storage_address region_count =
     \<lparr>bh_header = (if framebuffer_is_zero framebuffer then header_new else header_new\<lparr>hh_flags := FRAMEBUFFER_PRESENT\<rparr>),
      bh_memory_regions_address = region_storage_address, bh_memory_region_count = of_nat region_count,
      bh_memory_region_entry_size = of_nat REGION_SIZE, bh_framebuffer = framebuffer\<rparr>"

text \<open>After boot services: the final map is normalized into the zeroed region storage.  An error halts.\<close>

definition enter_kernel ::
  "'fw Firmware \<Rightarrow> u64 \<Rightarrow> FramebufferV1 \<Rightarrow> MemoryRegionOverride list \<Rightarrow> u64 \<Rightarrow> u64 \<Rightarrow> ('fw Machine, Stop, KernelEntry) action" where
  "enter_kernel F entry_address framebuffer overrides handoff_address region_storage_address m =
     (case normalize_memory_regions (map descriptor_source (fw_final_map F (mc_firmware m))) overrides
             (replicate MAX_MEMORY_REGIONS region_zero) of
        (Inl _, _) \<Rightarrow> (Inl Halted, m)
      | (Inr region_count, regions) \<Rightarrow>
          (Inr \<lparr>ke_entry = entry_address, ke_handoff_address = handoff_address,
             ke_handoff = build_handoff framebuffer region_storage_address region_count,
             ke_region_address = region_storage_address, ke_regions = regions\<rparr>, m))"

text \<open>The sort is by start address.  Overrides with the same start are rejected whatever their order, so the order that an
  unstable sort gives them does not matter.\<close>

definition load_and_enter_kernel :: "'fw Firmware \<Rightarrow> ('fw Machine, Stop, KernelEntry) action" where
  "load_and_enter_kernel F =
     act_bind (read_kernel F) (\<lambda>kernel_bytes.
     act_bind (act_read (\<lambda>_. map_err (\<lambda>_. Failed LOAD_ERROR) (image_parse kernel_bytes))) (\<lambda>img.
     act_bind (act_read (\<lambda>_. collect_kernel_overrides img (replicate MAX_REGION_OVERRIDES MemoryRegionOverride_EMPTY))) (\<lambda>table.
     act_then (load_segments F img)
     (act_bind (act_read (\<lambda>m. capture_framebuffer F (mc_firmware m))) (\<lambda>framebuffer.
     act_bind (act_read (\<lambda>_. add_framebuffer_override framebuffer table)) (\<lambda>(overrides, count).
     act_bind (allocate_loader_pages F 1) (\<lambda>handoff_address.
     act_bind (allocate_loader_pages F REGION_STORAGE_PAGES) (\<lambda>region_storage_address.
       enter_kernel F (vi_entry img) framebuffer (sort_key ov_physical_start (take count overrides))
         handoff_address region_storage_address))))))))"

definition loader_main :: "'fw Firmware \<Rightarrow> ('fw Machine, Stop, KernelEntry) action" where
  "loader_main F = act_then (firmware_call (fw_init F) (\<lambda>_. Failed LOAD_ERROR)) (load_and_enter_kernel F)"

end
