(* ===== verification/Loader_Properties.thy ===== *)
theory Loader_Properties
  imports Loader
begin

text \<open>
  What the loader does: the segments of a parsed image are copied to the pages they are linked at, the overrides are
  those of the segments and the framebuffer, and the map that the kernel gets calls usable exactly the
  conventional memory outside them; the handoff that is built passes the kernel's validation.
\<close>


section \<open>Segments and their pages\<close>

definition segment_pages :: "Segment \<Rightarrow> nat set" where
  "segment_pages s = {unat (sg_physical_start s) ..< unat (sg_physical_start s) + 4096 * segment_page_count s}"

lemma page_count_bounds:
  "unat (sg_memory_size s) \<le> 4096 * segment_page_count s"
  "4096 dvd n \<Longrightarrow> unat (sg_memory_size s) \<le> n \<Longrightarrow> 4096 * segment_page_count s \<le> n"
proof -
  define q r where "q = unat (sg_memory_size s) div 4096" and "r = unat (sg_memory_size s) mod 4096"
  have size: "unat (sg_memory_size s) = 4096 * q + r" and r: "r < 4096" unfolding q_def r_def by simp_all
  have eq: "segment_page_count s = q + (if r = 0 then 0 else 1)" by (simp add: segment_page_count_def Let_def q_def r_def)
  show "unat (sg_memory_size s) \<le> 4096 * segment_page_count s" unfolding size eq using r by simp
  assume n: "4096 dvd n" "unat (sg_memory_size s) \<le> n"
  obtain k where k: "n = 4096 * k" using n(1) by (rule dvdE)
  have le: "4096 * q + r \<le> 4096 * k" using n(2) unfolding size k .
  show "4096 * segment_page_count s \<le> n"
  proof (cases "r = 0")
    case True
    then show ?thesis using le unfolding eq k by simp
  next
    case False
    then have "4096 * q < 4096 * k" using le by linarith
    then have "q + 1 \<le> k" by simp
    then show ?thesis using False unfolding eq k by simp
  qed
qed

lemma page_count_pos: "segment_ok n s \<Longrightarrow> 0 < segment_page_count s"
  using page_count_bounds(1) [of s] unat_gt_0 [of "sg_memory_size s"] by (simp add: segment_ok_def)

lemma segment_pages_memory: "segment_memory s \<subseteq> segment_pages s"
  using page_count_bounds(1) [of s] by (auto simp: segment_memory_def segment_pages_def segment_limit_def)

lemma pages_before:
  assumes "segment_ok n s" "segment_ok n t" "segment_limit s \<le> unat (sg_physical_start t)"
  shows "unat (sg_physical_start s) + 4096 * segment_page_count s \<le> unat (sg_physical_start t)"
proof -
  have d: "4096 dvd unat (sg_physical_start t) - unat (sg_physical_start s)" using assms(1,2) by (simp add: segment_ok_def)
  have le: "unat (sg_memory_size s) \<le> unat (sg_physical_start t) - unat (sg_physical_start s)"
    using assms(3) by (simp add: segment_limit_def)
  have "unat (sg_physical_start s) \<le> unat (sg_physical_start t)" using assms(3) by (simp add: segment_limit_def)
  with page_count_bounds(2) [OF d le] show ?thesis by linarith
qed

lemma segment_pages_disjoint:
  assumes "segment_ok n s" "segment_ok n t" "disjnt (segment_memory s) (segment_memory t)"
  shows "disjnt (segment_pages s) (segment_pages t)"
proof -
  have "unat (sg_physical_start s) < segment_limit s" "unat (sg_physical_start t) < segment_limit t"
    using assms(1,2) unat_gt_0 [of "sg_memory_size s"] unat_gt_0 [of "sg_memory_size t"] by (simp_all add: segment_ok_def segment_limit_def)
  from disjnt_intervals [OF this] assms(3)
  consider "segment_limit s \<le> unat (sg_physical_start t)" | "segment_limit t \<le> unat (sg_physical_start s)"
    by (auto simp: segment_memory_def)
  then show ?thesis
    using pages_before [OF assms(1,2)] pages_before [OF assms(2,1)] by cases (auto simp: segment_pages_def disjnt_iff)
qed

text \<open>The segments of a parsed image.\<close>

lemma parsed_segments:
  assumes "image_parse bytes = Inr img"
  shows "s \<in> set (image_segments img) \<Longrightarrow> segment_ok (length bytes) s" "length (image_segments img) \<le> 16" "image_segments img \<noteq> []"
    "sorted_wrt (\<lambda>s t. disjnt (segment_pages s) (segment_pages t)) (image_segments img)" "vi_bytes img = bytes"
    "each_segment body img state = run_segments body (image_segments img) state"
proof -
  note p = image_parse_sound [OF assms]
  note v = validate_segments_sound [OF p(2)]
  show ok: "segment_ok (length bytes) s" if "s \<in> set (image_segments img)" for s using load_list_ok [OF that] p(1) by simp
  show "length (image_segments img) \<le> 16" "image_segments img \<noteq> []" "vi_bytes img = bytes" using v(2,3) p(1) by simp_all
  show "sorted_wrt (\<lambda>s t. disjnt (segment_pages s) (segment_pages t)) (image_segments img)"
    by (rule sorted_wrt_mono_rel [OF _ v(5)]) (use segment_pages_disjoint [OF ok ok] in blast)
  have "length (image_segments img) < Suc MAXIMUM_LOAD_SEGMENTS" using v(3) by simp
  from for_segments_run [OF v(1) this, of body state] show "each_segment body img state = run_segments body (image_segments img) state"
    by (simp add: each_segment_def segments_def split: prod.splits)
qed


section \<open>Loading\<close>

text \<open>What a loaded segment holds: the bytes of the file, then zeros up to the end of its last page.\<close>

definition segment_contents :: "u8 list \<Rightarrow> Segment \<Rightarrow> nat \<Rightarrow> u8" where
  "segment_contents bytes s i = (if i < sg_file_size s then bytes ! (sg_file_offset s + i) else 0)"

definition segment_loaded :: "u8 list \<Rightarrow> (nat \<Rightarrow> u8) \<Rightarrow> Segment \<Rightarrow> bool" where
  "segment_loaded bytes memory s \<longleftrightarrow>
     (\<forall>i < 4096 * segment_page_count s. memory (unat (sg_physical_start s) + i) = segment_contents bytes s i)"

lemma load_segment_memory:
  assumes "load_segment F img s m = (Inr (), m')" "segment_ok (length (vi_bytes img)) s"
  shows "segment_loaded (vi_bytes img) (mc_memory m') s" "x \<notin> segment_pages s \<Longrightarrow> mc_memory m' x = mc_memory m x"
proof -
  let ?source = "take (sg_file_size s) (drop (sg_file_offset s) (vi_bytes img))" and ?d = "unat (sg_physical_start s)"
  have fit: "sg_file_offset s + sg_file_size s \<le> length (vi_bytes img)" "sg_file_size s \<le> 4096 * segment_page_count s"
    using assms(2) page_count_bounds(1) [of s] by (simp_all add: segment_ok_def)
  then have src: "file_bytes img s = Some ?source" and len: "length ?source = sg_file_size s"
    by (simp_all add: file_bytes_def get_bytes_def)
  have mem: "mc_memory m' = copy_bytes ?source ?d (write_bytes ?d 0 (segment_page_count s * 4096) (mc_memory m))"
    using assms(1) src
    by (auto simp: load_segment_def Let_def act_then_eq_Inr firmware_call_def split: if_split_asm sum.splits prod.splits)
  show "segment_loaded (vi_bytes img) (mc_memory m') s"
    unfolding segment_loaded_def mem segment_contents_def copy_bytes_def write_bytes_def len using fit by (auto simp: mult.commute)
  show "mc_memory m' x = mc_memory m x" if "x \<notin> segment_pages s"
    using that fit(2) unfolding mem copy_bytes_def write_bytes_def len segment_pages_def by (auto simp: mult.commute)
qed

lemma run_segments_loaded:
  assumes "run_segments (load_segment F img) ss m = (Inr (), m')" "\<And>s. s \<in> set ss \<Longrightarrow> segment_ok (length (vi_bytes img)) s"
    "sorted_wrt (\<lambda>s t. disjnt (segment_pages s) (segment_pages t)) ss"
  shows "(\<forall>s \<in> set ss. segment_loaded (vi_bytes img) (mc_memory m') s)
    \<and> (\<forall>x. (\<forall>s \<in> set ss. x \<notin> segment_pages s) \<longrightarrow> mc_memory m' x = mc_memory m x)"
  using assms
proof (induction ss arbitrary: m)
  case (Cons s ss)
  obtain m1 where m1: "load_segment F img s m = (Inr (), m1)" "run_segments (load_segment F img) ss m1 = (Inr (), m')"
    using Cons.prems(1) by (auto split: prod.splits sum.splits)
  note l = load_segment_memory [OF m1(1) Cons.prems(2) [of s, simplified]]
  note ih = Cons.IH [OF m1(2) Cons.prems(2)]
  have rest: "(\<forall>s \<in> set ss. segment_loaded (vi_bytes img) (mc_memory m') s)
    \<and> (\<forall>x. (\<forall>s \<in> set ss. x \<notin> segment_pages s) \<longrightarrow> mc_memory m' x = mc_memory m1 x)"
    by (rule ih) (use Cons.prems(3) in simp_all)
  have keep: "mc_memory m' (unat (sg_physical_start s) + i) = mc_memory m1 (unat (sg_physical_start s) + i)"
    if i: "i < 4096 * segment_page_count s" for i
  proof -
    have "unat (sg_physical_start s) + i \<in> segment_pages s" using i by (simp add: segment_pages_def)
    then have "\<forall>t \<in> set ss. unat (sg_physical_start s) + i \<notin> segment_pages t"
      using Cons.prems(3) by (auto simp: disjnt_iff)
    then show ?thesis using rest by blast
  qed
  have "segment_loaded (vi_bytes img) (mc_memory m') s" using l(1) keep by (simp add: segment_loaded_def)
  then show ?case using rest l(2) by auto
qed simp

text \<open>C35: the loader puts the kernel where it is linked.  When loading the segments of a parsed image succeeds, every
  segment's pages hold its bytes from the file followed by zeros up to the end of the last page, no segment
  has overwritten another, and all other memory is unchanged.\<close>

theorem segments_loaded:
  assumes "image_parse bytes = Inr img" "load_segments F img m = (Inr (), m')"
  shows "(\<forall>s \<in> set (image_segments img). \<forall>i < 4096 * segment_page_count s.
      mc_memory m' (unat (sg_physical_start s) + i) = (if i < sg_file_size s then bytes ! (sg_file_offset s + i) else 0))
    \<and> (\<forall>x. (\<forall>s \<in> set (image_segments img). x \<notin> segment_pages s) \<longrightarrow> mc_memory m' x = mc_memory m x)"
proof -
  note p = parsed_segments [OF assms(1)]
  have "run_segments (load_segment F img) (image_segments img) m = (Inr (), m')" using assms(2) by (simp add: load_segments_def p(6))
  from run_segments_loaded [OF this _ p(4)] p(1,5) show ?thesis by (simp add: segment_loaded_def segment_contents_def)
qed


section \<open>The overrides\<close>

definition segment_override :: "Segment \<Rightarrow> MemoryRegionOverride" where
  "segment_override s =
     \<lparr>ov_physical_start = sg_physical_start s, ov_page_count = of_nat (segment_page_count s), ov_kind = MEMORY_RESERVED,
      ov_require_full_coverage = True\<rparr>"

lemma collect_run:
  assumes "length os = n" "n + length ss \<le> 16"
  shows "run_segments collect_override ss (os @ replicate (17 - n) MemoryRegionOverride_EMPTY, n) =
    (Inr (), (os @ map segment_override ss @ replicate (17 - n - length ss) MemoryRegionOverride_EMPTY, n + length ss))"
  using assms
proof (induction ss arbitrary: os n)
  case (Cons s ss)
  have n: "n \<noteq> 16" "17 - n = Suc (16 - n)" using Cons.prems(2) by simp_all
  have "(os @ replicate (17 - n) MemoryRegionOverride_EMPTY)[n := segment_override s] =
      (os @ [segment_override s]) @ replicate (17 - Suc n) MemoryRegionOverride_EMPTY"
    using Cons.prems(1) n(2) by (simp add: list_update_append)
  then have "collect_override s (os @ replicate (17 - n) MemoryRegionOverride_EMPTY, n) =
      (Inr (), ((os @ [segment_override s]) @ replicate (17 - Suc n) MemoryRegionOverride_EMPTY, Suc n))"
    using n(1) by (simp add: collect_override_def segment_override_def)
  then show ?case using Cons.IH [of "os @ [segment_override s]" "Suc n"] Cons.prems by simp
qed simp

lemma collected:
  assumes "image_parse bytes = Inr img"
  shows "collect_kernel_overrides img (replicate MAX_REGION_OVERRIDES MemoryRegionOverride_EMPTY) =
    Inr (map segment_override (image_segments img) @ replicate (17 - length (image_segments img)) MemoryRegionOverride_EMPTY,
      length (image_segments img))"
  unfolding collect_kernel_overrides_def parsed_segments(6) [OF assms]
  using collect_run [of "[]" 0 "image_segments img"] parsed_segments(2) [OF assms] by simp

definition framebuffer_override :: "FramebufferV1 \<Rightarrow> MemoryRegionOverride list" where
  "framebuffer_override f =
     (if framebuffer_is_zero f then []
      else
        (let start = fb_physical_start f AND NOT (PAGE_SIZE - 1);
             end' = (fb_physical_start f + fb_byte_length f + (PAGE_SIZE - 1)) AND NOT (PAGE_SIZE - 1)
         in [\<lparr>ov_physical_start = start, ov_page_count = (end' - start) div PAGE_SIZE, ov_kind = MEMORY_MMIO,
              ov_require_full_coverage = False\<rparr>]))"

lemma framebuffer_added:
  assumes "add_framebuffer_override f (os @ replicate k MemoryRegionOverride_EMPTY, length os) = Inr (overrides, count)"
  shows "take count overrides = os @ framebuffer_override f"
    "framebuffer_is_zero f \<or> unat (fb_physical_start f) + unat (fb_byte_length f) + 4095 < 2 ^ 64"
proof -
  have "take count overrides = os @ framebuffer_override f
      \<and> (framebuffer_is_zero f \<or> unat (fb_physical_start f) + unat (fb_byte_length f) + 4095 < 2 ^ 64)"
  proof (cases "framebuffer_is_zero f")
    case True
    then show ?thesis using assms by (auto simp: add_framebuffer_override_def framebuffer_override_def)
  next
    case False
    then obtain e e' where e: "checked_add (fb_physical_start f) (fb_byte_length f) = Some e" "checked_add e (PAGE_SIZE - 1) = Some e'"
      and k: "k \<noteq> 0" and o: "overrides = (os @ replicate k MemoryRegionOverride_EMPTY)[length os :=
        \<lparr>ov_physical_start = fb_physical_start f AND NOT (PAGE_SIZE - 1),
         ov_page_count = ((e' AND NOT (PAGE_SIZE - 1)) - (fb_physical_start f AND NOT (PAGE_SIZE - 1))) div PAGE_SIZE, ov_kind = MEMORY_MMIO,
         ov_require_full_coverage = False\<rparr>]" and c: "count = length os + 1"
      using assms unfolding add_framebuffer_override_def
      by (auto simp: and_then_eq_Inr bind_eq_Some_conv Let_def simp del: PAGE_SIZE_def split: if_split_asm)
    have e': "e = fb_physical_start f + fb_byte_length f" "e' = e + (PAGE_SIZE - 1)" using e by (auto dest: checked_add_SomeD)
    obtain k' where k': "k = Suc k'" using k by (cases k) simp_all
    have "take count overrides = os @ framebuffer_override f"
      unfolding o c k' framebuffer_override_def using False e' by (simp add: list_update_append Let_def)
    moreover have "unat (fb_physical_start f) + unat (fb_byte_length f) + 4095 < 2 ^ 64"
      using e unfolding checked_add_iff by simp
    ultimately show ?thesis by blast
  qed
  then show "take count overrides = os @ framebuffer_override f"
    "framebuffer_is_zero f \<or> unat (fb_physical_start f) + unat (fb_byte_length f) + 4095 < 2 ^ 64" by blast+
qed

lemma segment_override_bytes:
  assumes "segment_ok n s"
  shows "region_bytes (override_region (segment_override s)) = segment_pages s"
proof -
  have "4096 * segment_page_count s \<le> 2 ^ 64"
    by (rule page_count_bounds(2)) (use unsigned_less [of "sg_memory_size s", where 'a = nat] in simp_all)
  then have "unat (of_nat (segment_page_count s) :: u64) = segment_page_count s" by (intro unat_of_nat_u64) simp
  then show ?thesis by (simp add: region_bytes_def region_limit_def segment_pages_def segment_override_def override_region_def)
qed

lemma align_down: "unat ((x :: u64) AND NOT 4095) = unat x - unat x mod 4096"
proof -
  have m: "(4095 :: u64) = mask 12" by (simp add: mask_eq_exp_minus_1)
  have "x AND NOT 4095 = push_bit 12 (drop_bit 12 x)" unfolding m by (rule bit_eqI) (auto simp: bit_simps)
  then have "x AND NOT 4095 = x - take_bit 12 x" using bits_ident [of 12 x] by (simp add: eq_diff_eq)
  moreover have "take_bit 12 x = x mod 4096" by (simp add: take_bit_eq_mod)
  moreover have "x mod 4096 \<le> x" by (simp add: word_le_nat_alt unat_mod)
  ultimately show ?thesis by (simp add: unat_sub unat_mod)
qed

text \<open>The pages that the framebuffer touches.\<close>

definition framebuffer_pages :: "FramebufferV1 \<Rightarrow> nat set" where
  "framebuffer_pages f =
     (let start = unat (fb_physical_start f); limit = start + unat (fb_byte_length f) + 4095
      in if framebuffer_is_zero f then {} else {start - start mod 4096 ..< limit - limit mod 4096})"

lemma framebuffer_in_pages:
  assumes "\<not> framebuffer_is_zero f"
  shows "{unat (fb_physical_start f) ..< unat (fb_physical_start f) + unat (fb_byte_length f)} \<subseteq> framebuffer_pages f"
proof -
  let ?a = "unat (fb_physical_start f)" and ?e = "unat (fb_physical_start f) + unat (fb_byte_length f) + 4095"
  have "?e mod 4096 < 4096" by simp
  then have "?a - ?a mod 4096 \<le> ?a" "?a + unat (fb_byte_length f) \<le> ?e - ?e mod 4096" by linarith+
  then show ?thesis using assms by (auto simp: framebuffer_pages_def Let_def)
qed

lemma framebuffer_override_bytes:
  assumes "\<not> framebuffer_is_zero f" "unat (fb_physical_start f) + unat (fb_byte_length f) + 4095 < 2 ^ 64" "r \<in> set (framebuffer_override f)"
  shows "region_bytes (override_region r) = framebuffer_pages f"
proof -
  let ?a = "unat (fb_physical_start f)" and ?e = "unat (fb_physical_start f) + unat (fb_byte_length f) + 4095"
  define S T where ST: "S = ?a - ?a mod 4096" "T = ?e - ?e mod 4096"
  have s1: "unat (fb_physical_start f + fb_byte_length f) = ?a + unat (fb_byte_length f)" by (rule checked_add_ok(2)) (use assms(2) in simp)
  have "unat (fb_physical_start f + fb_byte_length f + 4095) = unat (fb_physical_start f + fb_byte_length f) + unat (4095 :: u64)"
    by (rule checked_add_ok(2)) (use assms(2) s1 in simp)
  then have e: "unat ((fb_physical_start f + fb_byte_length f + 4095) AND NOT 4095) = T" and s: "unat (fb_physical_start f AND NOT 4095) = S"
    unfolding align_down s1 ST by simp_all
  have "?e mod 4096 < 4096" "?a mod 4096 < 4096" by simp_all
  then have le: "S \<le> T" unfolding ST by linarith
  have "4096 dvd S" "4096 dvd T" unfolding ST by (simp_all only: dvd_minus_mod)
  then have d: "4096 dvd T - S" by (rule dvd_diff_nat [rotated])
  let ?s = "fb_physical_start f AND NOT 4095" and ?t = "(fb_physical_start f + fb_byte_length f + 4095) AND NOT 4095"
  have r: "r = \<lparr>ov_physical_start = ?s, ov_page_count = (?t - ?s) div 4096, ov_kind = MEMORY_MMIO, ov_require_full_coverage = False\<rparr>"
    using assms(1,3) by (simp add: framebuffer_override_def Let_def)
  have "unat (?t - ?s) = T - S" using e s le by (simp add: unat_sub word_le_nat_alt)
  then have "4096 * unat ((?t - ?s) div 4096) = T - S" using d by (simp add: unat_div)
  then have "region_bytes (override_region r) = {S ..< T}"
    using s le unfolding r region_bytes_def region_limit_def override_region_def by simp
  then show ?thesis using assms(1) by (simp add: framebuffer_pages_def Let_def ST)
qed

lemma framebuffer_override_pages:
  assumes "framebuffer_is_zero f \<or> unat (fb_physical_start f) + unat (fb_byte_length f) + 4095 < 2 ^ 64"
  shows "(\<Union>r \<in> set (framebuffer_override f). region_bytes (override_region r)) = framebuffer_pages f"
proof (cases "framebuffer_is_zero f")
  case True
  then show ?thesis by (simp add: framebuffer_override_def framebuffer_pages_def)
next
  case False
  then have "set (framebuffer_override f) \<noteq> {}" by (simp add: framebuffer_override_def Let_def)
  then show ?thesis using framebuffer_override_bytes [OF False] assms False by simp
qed


section \<open>Usable memory after normalization\<close>

lemma usable_iff_kind: "usable_bytes rs = {x. (x, MEMORY_USABLE) \<in> kinds rs}"
  by (auto simp: usable_bytes_def kinds_def)

definition descriptor_bytes :: "MemoryDescriptor \<Rightarrow> nat set" where
  "descriptor_bytes d = {unat (md_phys_start d) ..< unat (md_phys_start d) + 4096 * unat (md_page_count d)}"

definition conventional_bytes :: "MemoryDescriptor list \<Rightarrow> nat set" where
  "conventional_bytes ds = (\<Union>d \<in> {d \<in> set ds. md_ty d = CONVENTIONAL}. descriptor_bytes d)"

lemma memory_kind_usable: "memory_kind ty = MEMORY_USABLE \<longleftrightarrow> ty = CONVENTIONAL"
  by (simp add: memory_kind_def split: MemoryType.splits)

lemma source_kinds_usable:
  "(x, MEMORY_USABLE) \<in> kinds (map source_region (map descriptor_source ds)) \<longleftrightarrow> x \<in> conventional_bytes ds"
proof -
  have "region_bytes (source_region (descriptor_source d)) = descriptor_bytes d" for d
    by (simp add: region_bytes_def region_limit_def descriptor_bytes_def descriptor_source_def)
  moreover have "mr_kind (source_region (descriptor_source d)) = MEMORY_USABLE \<longleftrightarrow> md_ty d = CONVENTIONAL" for d
    using memory_kind_usable by (simp add: descriptor_source_def)
  ultimately show ?thesis unfolding kinds_def conventional_bytes_def by auto
qed

lemma normalized_usable:
  assumes "normalize_memory_regions (map descriptor_source ds) os out = (Inr n, regions)"
    "\<forall>r \<in> set os. ov_kind r \<noteq> MEMORY_USABLE"
  shows "usable_bytes (take n regions) = conventional_bytes ds - (\<Union>r \<in> set os. region_bytes (override_region r))"
proof -
  have k: "kinds (take n regions) = overlay (kinds (map source_region (map descriptor_source ds))) os"
    using normalize_sound [OF assms(1)] by blast
  have no: "(x, MEMORY_USABLE) \<notin> override_kinds os" for x using assms(2) by (auto simp: kinds_def)
  have over: "(\<exists>k'. (x, k') \<in> override_kinds os) \<longleftrightarrow> x \<in> (\<Union>r \<in> set os. region_bytes (override_region r))" for x
    by (auto simp: kinds_def)
  have "x \<in> usable_bytes (take n regions) \<longleftrightarrow>
      x \<in> conventional_bytes ds - (\<Union>r \<in> set os. region_bytes (override_region r))" for x
  proof (cases "\<exists>k'. (x, k') \<in> override_kinds os")
    case True
    then have "(x, MEMORY_USABLE) \<notin> kinds (take n regions)" unfolding k overlay_def replaced_def using no by simp
    then show ?thesis using True over unfolding usable_iff_kind by blast
  next
    case False
    then have "(x, MEMORY_USABLE) \<in> kinds (take n regions) \<longleftrightarrow>
        (x, MEMORY_USABLE) \<in> kinds (map source_region (map descriptor_source ds))"
      unfolding k overlay_def replaced_def by simp
    then show ?thesis using False over source_kinds_usable [of x ds] unfolding usable_iff_kind by blast
  qed
  then show ?thesis by blast
qed


section \<open>A run of the loader that enters the kernel\<close>

definition loader_overrides :: "ValidatedImage \<Rightarrow> FramebufferV1 \<Rightarrow> MemoryRegionOverride list" where
  "loader_overrides img f = sort_key ov_physical_start (map segment_override (image_segments img) @ framebuffer_override f)"

text \<open>The steps of a run that ends in the kernel, from reading the file to the final memory map.\<close>

definition entered :: "'fw Firmware \<Rightarrow> ValidatedImage \<Rightarrow> FramebufferV1 \<Rightarrow> KernelEntry \<Rightarrow> 'fw Machine \<Rightarrow> bool" where
  "entered F img f ke m \<longleftrightarrow>
     (\<exists>bytes m1 m2 m3 n. image_parse bytes = Inr img \<and> load_segments F img m1 = (Inr (), m2)
        \<and> capture_framebuffer F (mc_firmware m2) = Inr f
        \<and> (framebuffer_is_zero f \<or> unat (fb_physical_start f) + unat (fb_byte_length f) + 4095 < 2 ^ 64)
        \<and> allocate_loader_pages F 1 m2 = (Inr (ke_handoff_address ke), m3)
        \<and> allocate_loader_pages F 6 m3 = (Inr (ke_region_address ke), m)
        \<and> normalize_memory_regions (map descriptor_source (fw_final_map F (mc_firmware m))) (loader_overrides img f)
             (replicate MAX_MEMORY_REGIONS region_zero) = (Inr n, ke_regions ke)
        \<and> ke_entry ke = vi_entry img \<and> ke_handoff ke = build_handoff f (ke_region_address ke) n)"

lemma load_entered:
  assumes "load_and_enter_kernel F m = (Inr ke, m')"
  obtains img f where "entered F img f ke m'"
proof -
  obtain bytes img table m1 m2 m3 m4 f overrides count ha ra where
    read: "read_kernel F m = (Inr bytes, m1)" and img: "image_parse bytes = Inr img"
    and table: "collect_kernel_overrides img (replicate MAX_REGION_OVERRIDES MemoryRegionOverride_EMPTY) = Inr table"
    and load: "load_segments F img m1 = (Inr (), m2)" and f: "capture_framebuffer F (mc_firmware m2) = Inr f"
    and added: "add_framebuffer_override f table = Inr (overrides, count)"
    and a: "allocate_loader_pages F 1 m2 = (Inr ha, m3)" "allocate_loader_pages F 6 m3 = (Inr ra, m4)"
    and e: "enter_kernel F (vi_entry img) f (sort_key ov_physical_start (take count overrides)) ha ra m4 = (Inr ke, m')"
    using assms unfolding load_and_enter_kernel_def by (auto simp: act_bind_eq_Inr act_then_eq_Inr)
  have m4: "m4 = m'" using e by (auto simp: enter_kernel_def split: prod.splits sum.splits)
  let ?os = "map segment_override (image_segments img)"
  have "table = (?os @ replicate (17 - length ?os) MemoryRegionOverride_EMPTY, length ?os)" using table collected [OF img] by simp
  note fb = framebuffer_added [OF added [unfolded this]]
  have os: "sort_key ov_physical_start (take count overrides) = loader_overrides img f" by (simp add: fb(1) loader_overrides_def)
  obtain n where n: "normalize_memory_regions (map descriptor_source (fw_final_map F (mc_firmware m'))) (loader_overrides img f)
      (replicate MAX_MEMORY_REGIONS region_zero) = (Inr n, ke_regions ke)"
    "ke_handoff_address ke = ha" "ke_region_address ke = ra" "ke_entry ke = vi_entry img" "ke_handoff ke = build_handoff f ra n"
    using e unfolding os enter_kernel_def m4 by (auto split: prod.splits sum.splits)
  have "entered F img f ke m'" unfolding entered_def using img load f fb(2) a n unfolding m4 by blast
  then show thesis by (rule that)
qed

text \<open>What the loader relies on: the documented behaviour of page allocation and of the final memory map.  \<open>owned\<close>
  gives the addresses that have been allocated in a firmware state.  An allocation returns the start of a page
  other than zero, the pages do not reach the end of the address space, all earlier allocations stay, and
  allocated pages are not conventional memory in the final map.\<close>

definition firmware_contract :: "'fw Firmware \<Rightarrow> ('fw \<Rightarrow> nat set) \<Rightarrow> bool" where
  "firmware_contract F owned \<longleftrightarrow>
     (\<forall>ty n fw a fw'. fw_allocate_pages F ty n fw = (Inr a, fw') \<longrightarrow>
        a \<noteq> 0 \<and> 4096 dvd unat a \<and> unat a + 4096 * n < 2 ^ 64 \<and> owned fw \<union> {unat a ..< unat a + 4096 * n} \<subseteq> owned fw')
     \<and> (\<forall>fw. disjnt (owned fw) (conventional_bytes (fw_final_map F fw)))"

lemma loader_pages:
  assumes "firmware_contract F owned" "allocate_loader_pages F n m = (Inr a, m')"
  shows "a \<noteq> 0" "4096 dvd unat a" "unat a + 4096 * n < 2 ^ 64" "owned (mc_firmware m) \<subseteq> owned (mc_firmware m')"
    "{unat a ..< unat a + 4096 * n} \<subseteq> owned (mc_firmware m')"
proof -
  obtain fw' where "fw_allocate_pages F AnyPages n (mc_firmware m) = (Inr a, fw')" "m' = m\<lparr>mc_firmware := fw'\<rparr>"
    using assms(2) by (auto simp: allocate_loader_pages_def firmware_call_def split: prod.splits sum.splits)
  moreover from this(1) assms(1) have "a \<noteq> 0 \<and> 4096 dvd unat a \<and> unat a + 4096 * n < 2 ^ 64
      \<and> owned (mc_firmware m) \<union> {unat a ..< unat a + 4096 * n} \<subseteq> owned fw'"
    unfolding firmware_contract_def by blast
  ultimately show "a \<noteq> 0" "4096 dvd unat a" "unat a + 4096 * n < 2 ^ 64" "owned (mc_firmware m) \<subseteq> owned (mc_firmware m')"
    "{unat a ..< unat a + 4096 * n} \<subseteq> owned (mc_firmware m')" by simp_all
qed

lemma override_kinds_loader: "r \<in> set (loader_overrides img f) \<Longrightarrow> ov_kind r \<noteq> MEMORY_USABLE"
  by (auto simp: loader_overrides_def segment_override_def framebuffer_override_def Let_def split: if_splits)

definition kernel_map :: "KernelEntry \<Rightarrow> MemoryRegionV1 list" where
  "kernel_map ke = take (unat (bh_memory_region_count (ke_handoff ke))) (ke_regions ke)"

text \<open>What is usable in the map that the kernel gets: the conventional memory of the firmware without the pages of the
  kernel and of the framebuffer.\<close>

lemma entered_map:
  assumes "entered F img f ke m"
  shows "map_ok (kernel_map ke)" "kernel_map ke \<noteq> []" "length (kernel_map ke) \<le> 1024"
    "unat (bh_memory_region_count (ke_handoff ke)) = length (kernel_map ke)"
    "usable_bytes (kernel_map ke) = conventional_bytes (fw_final_map F (mc_firmware m))
       - (\<Union>s \<in> set (image_segments img). segment_pages s) - framebuffer_pages f"
    "s \<in> set (image_segments img) \<Longrightarrow> segment_pages s \<times> {MEMORY_RESERVED} \<subseteq> kinds (kernel_map ke)"
proof -
  obtain bytes n where img: "image_parse bytes = Inr img"
    and fb: "framebuffer_is_zero f \<or> unat (fb_physical_start f) + unat (fb_byte_length f) + 4095 < 2 ^ 64"
    and n: "normalize_memory_regions (map descriptor_source (fw_final_map F (mc_firmware m))) (loader_overrides img f)
             (replicate MAX_MEMORY_REGIONS region_zero) = (Inr n, ke_regions ke)"
    and h: "ke_handoff ke = build_handoff f (ke_region_address ke) n"
    using assms unfolding entered_def by blast
  note c = normalize_sound [OF n]
  have "unat (of_nat n :: u32) = n" using c by (simp add: unsigned_of_nat take_bit_nat_eq_self)
  then have count: "unat (bh_memory_region_count (ke_handoff ke)) = n" by (simp add: h build_handoff_def)
  have km: "kernel_map ke = take n (ke_regions ke)" by (simp add: kernel_map_def count)
  have len: "length (kernel_map ke) = n" using c by (simp add: km)
  show "map_ok (kernel_map ke)" "kernel_map ke \<noteq> []" "length (kernel_map ke) \<le> 1024"
    "unat (bh_memory_region_count (ke_handoff ke)) = length (kernel_map ke)" using c len count km by auto
  have pages: "region_bytes (override_region (segment_override s)) = segment_pages s" if "s \<in> set (image_segments img)" for s
    by (rule segment_override_bytes [OF parsed_segments(1) [OF img that]])
  have "\<forall>r \<in> set (loader_overrides img f). ov_kind r \<noteq> MEMORY_USABLE" using override_kinds_loader by blast
  note u = normalized_usable [OF n this]
  have over: "(\<Union>r \<in> set (loader_overrides img f). region_bytes (override_region r)) =
      (\<Union>s \<in> set (image_segments img). segment_pages s) \<union> framebuffer_pages f"
    using pages framebuffer_override_pages [OF fb] by (simp add: loader_overrides_def)
  show "usable_bytes (kernel_map ke) = conventional_bytes (fw_final_map F (mc_firmware m))
       - (\<Union>s \<in> set (image_segments img). segment_pages s) - framebuffer_pages f"
    unfolding km u over by (simp only: Diff_eq Compl_Un Int_assoc)
  assume s: "s \<in> set (image_segments img)"
  then have "segment_override s \<in> set (loader_overrides img f)" by (simp add: loader_overrides_def)
  then have "kinds [override_region (segment_override s)] \<subseteq> kinds (kernel_map ke)"
    using c unfolding km by (elim conjE, elim ballE [of _ _ "segment_override s"]) (simp_all add: segment_override_def)
  then show "segment_pages s \<times> {MEMORY_RESERVED} \<subseteq> kinds (kernel_map ke)" using pages [OF s] by (simp add: segment_override_def)
qed


section \<open>The handoff passes validation\<close>

lemma unat_of_nat_u32: "n < 2 ^ 32 \<Longrightarrow> unat (of_nat n :: u32) = n"
  by (simp add: unsigned_of_nat take_bit_nat_eq_self)

lemma captured_shape:
  assumes "captured_framebuffer mode format = Inr f" "format = PIXEL_FORMAT_RGB \<or> format = PIXEL_FORMAT_BGR"
  shows "\<not> framebuffer_is_zero f \<and> validate_framebuffer_shape (build_handoff f a n) = Inr ()"
proof -
  let ?w = "gm_width mode" and ?h = "gm_height mode" and ?s = "gm_stride mode" and ?b = "of_nat (gm_frame_buffer_size mode) :: u64"
  obtain p l where d1: "\<not> (?w = 0 \<or> ?h = 0 \<or> ?s < ?w)" and d2: "checked_mul (of_nat ?s :: u64) (of_nat ?h) = Some p" "checked_mul p 4 = Some l"
    and d3: "\<not> (gm_frame_buffer mode = 0 \<or> ?b < l \<or> checked_add (gm_frame_buffer mode) ?b = None)"
    and d4: "\<not> (?w \<ge> 2 ^ 32 \<or> ?h \<ge> 2 ^ 32 \<or> ?s \<ge> 2 ^ 32)"
    and f': "Inr \<lparr>fb_physical_start = gm_frame_buffer mode, fb_byte_length = ?b, fb_width = of_nat ?w, fb_height = of_nat ?h,
      fb_stride_pixels = of_nat ?s, fb_pixel_format = format, fb_reserved = 0\<rparr> = (Inr f :: Stop + FramebufferV1)"
    using assms(1) unfolding captured_framebuffer_def Let_def if_Inl_eq_Inr and_then_eq_Inr ok_or_eq_Inr bind_eq_Some_conv
    by (elim conjE exE) (rule that)
  note f = f' [THEN sum.inject(2) [THEN iffD1], symmetric]
  have lt: "?w < 2 ^ 32" "?h < 2 ^ 32" "?s < 2 ^ 32" using d4 by linarith+
  note u = unat_of_nat_u32 [OF lt(1)] unat_of_nat_u32 [OF lt(2)] unat_of_nat_u32 [OF lt(3)]
  have uc: "ucast (of_nat ?s :: u32) = (of_nat ?s :: u64)" "ucast (of_nat ?h :: u32) = (of_nat ?h :: u64)"
    using u(2,3) by (metis of_nat_unat)+
  have pos: "0 < ?w" "0 < ?h" "0 < ?s" using d1 by linarith+
  have nz: "(of_nat ?w :: u32) \<noteq> 0" "(of_nat ?h :: u32) \<noteq> 0" "(of_nat ?s :: u32) \<noteq> 0" using u pos by (metis less_irrefl unat_0)+
  have "unat (of_nat ?s :: u64) = ?s" "unat (of_nat ?h :: u64) = ?h" by (rule unat_of_nat_u64; use lt in simp)+
  then have "unat p = ?s * ?h" using checked_mul_SomeD [OF d2(1), THEN conjunct2] by (simp only:)
  then have "unat l = ?s * ?h * 4" using checked_mul_SomeD [OF d2(2), THEN conjunct2] by simp
  then have "0 < unat l" using pos by simp
  then have bz: "?b \<noteq> 0" using d3 by (auto simp: word_less_nat_alt)
  have sw: "\<not> (of_nat ?s :: u32) < of_nat ?w" using u d1 by (simp add: word_less_nat_alt)
  obtain e where e: "checked_add (gm_frame_buffer mode) ?b = Some e" using d3 by blast
  have z: "\<not> framebuffer_is_zero f" using d3 by (simp add: framebuffer_is_zero_def f)
  show ?thesis
    using z nz bz d2 d3 e sw assms(2) uc
    by (simp add: validate_framebuffer_shape_def build_handoff_def f Let_def)
qed

lemma captured_valid:
  assumes "capture_framebuffer F fw = Inr f"
  shows "validate_framebuffer_shape (build_handoff f a n) = Inr ()"
proof -
  have "framebuffer_is_zero f \<or> \<not> framebuffer_is_zero f \<and> validate_framebuffer_shape (build_handoff f a n) = Inr ()"
    using assms captured_shape unfolding capture_framebuffer_def
    by (auto split: option.splits PixelFormat.splits simp: framebuffer_is_zero_def framebuffer_default_def)
  moreover have "validate_framebuffer_shape (build_handoff f a n) = Inr ()" if "framebuffer_is_zero f"
    using that by (simp add: validate_framebuffer_shape_def build_handoff_def header_new_def Let_def)
  ultimately show ?thesis by blast
qed

lemma built_flags: "hh_flags (bh_header (build_handoff f a n)) AND FRAMEBUFFER_PRESENT \<noteq> 0 \<longleftrightarrow> \<not> framebuffer_is_zero f"
  by (simp add: build_handoff_def header_new_def)

lemma built_header: "validate_header (bh_header (build_handoff f a n)) = Inr ()"
  by (simp add: build_handoff_def validate_header_def header_new_def)

lemma built_handoff_header:
  assumes "validate_framebuffer_shape (build_handoff f a n) = Inr ()" "0 < n" "n \<le> 1024" "a \<noteq> 0" "4096 dvd unat a" "unat a + 24576 < 2 ^ 64"
  shows "validate_handoff_header (build_handoff f a n) = Inr n"
proof -
  have n: "unat (of_nat n :: u32) = n" by (rule unat_of_nat_u32) (use assms(3) in simp)
  then have nz: "(of_nat n :: u32) \<noteq> 0" using assms(2) by (metis less_irrefl unat_0)
  have "unat (8 :: u64) dvd unat a" using assms(5) by (rule dvd_trans [rotated]) simp
  then have al: "is_multiple_of a 8" by (simp add: is_multiple_of_iff_dvd)
  have b: "unat (of_nat (n * 24) :: u64) = n * 24" by (rule unat_of_nat_u64) (use assms(3) in simp)
  have "unat a + unat (of_nat (n * 24) :: u64) < 2 ^ 64" unfolding b using assms(3,6) by simp
  note c = checked_add_ok(1) [OF this]
  show ?thesis
    using assms(1,3,4) built_header [of f a n] n nz al c
    unfolding validate_handoff_header_def by (simp add: build_handoff_def Let_def)
qed

lemma validate_handoff_intro:
  assumes hdr: "validate_handoff_header h = Inr (length rs)" and a: "address \<noteq> 0" "4096 dvd unat address" "unat address + 88 < 2 ^ 64"
    and s: "bh_memory_regions_address h = slice_address" and map: "map_ok rs" and ne: "rs \<noteq> []" "unat (bh_memory_region_count h) = length rs"
    and arr: "unat slice_address + 24 * length rs < 2 ^ 64" and disj: "disjnt (handoff_bytes h address) (usable_bytes rs)"
    and fb: "hh_flags (bh_header h) AND FRAMEBUFFER_PRESENT \<noteq> 0 \<Longrightarrow> validate_framebuffer_shape h = Inr ()"
  shows "validate_handoff h address slice_address rs = Inr ()"
proof -
  let ?f = "bh_framebuffer h"
  have ok: "list_all region_ok rs" using map by (simp add: map_ok_def)
  have "unat (8 :: u64) dvd unat address" using a(2) by (rule dvd_trans [rotated]) simp
  then have al: "is_multiple_of address 8" by (simp add: is_multiple_of_iff_dvd)
  have "unat address + unat (88 :: u64) < 2 ^ 64" using a(3) by simp
  note he = checked_add_ok [OF this]
  have n: "unat (of_nat (length rs * 24) :: u64) = length rs * 24" by (rule unat_of_nat_u64) (use arr in simp)
  have "unat slice_address + unat (of_nat (length rs * 24) :: u64) < 2 ^ 64" unfolding n using arr by (simp add: mult.commute)
  note ae = checked_add_ok [OF this, unfolded n]
  have v: "validate_regions None None rs = Inr ()" using map by (simp only: validate_regions_iff option.distinct simp_thms)
  have d: "disjnt {unat address ..< unat address + 88} (usable_bytes rs)"
      "disjnt {unat slice_address ..< unat slice_address + length rs * 24} (usable_bytes rs)"
    using disj s ne(2) unfolding handoff_bytes_def disjnt_Un1 by (simp_all add: mult.commute)
  have r1: "reject_usable Invalid_HandoffInUsableMemory address (address + 88) rs = Inr ()"
    by (subst reject_usable_iff [OF ok]) (use he(2) d(1) in \<open>simp_all add: word_less_nat_alt\<close>)
  have r2: "reject_usable Invalid_RegionArrayInUsableMemory slice_address (slice_address + of_nat (length rs * 24)) rs = Inr ()"
    by (subst reject_usable_iff [OF ok]) (use ae(2) d(2) ne(1) in \<open>simp_all add: word_less_nat_alt mult.commute\<close>)
  have r3: "checked_add (fb_physical_start ?f) (fb_byte_length ?f) = Some (fb_physical_start ?f + fb_byte_length ?f)
      \<and> reject_usable Invalid_FramebufferInUsableMemory (fb_physical_start ?f) (fb_physical_start ?f + fb_byte_length ?f) rs = Inr ()"
    if p: "hh_flags (bh_header h) AND FRAMEBUFFER_PRESENT \<noteq> 0"
  proof -
    note sh = framebuffer_shape [OF fb [OF p] p]
    note fe = checked_add_ok [OF sh(2)]
    have "disjnt {unat (fb_physical_start ?f) ..< unat (fb_physical_start ?f) + unat (fb_byte_length ?f)} (usable_bytes rs)"
      using disj p unfolding handoff_bytes_def disjnt_Un1 by simp
    moreover have "fb_physical_start ?f < fb_physical_start ?f + fb_byte_length ?f"
      using fe(2) sh(1) unat_gt_0 [of "fb_byte_length ?f"] by (simp add: word_less_nat_alt)
    ultimately show ?thesis using fe reject_usable_iff [OF ok] by simp
  qed
  show ?thesis
    unfolding validate_handoff_def hdr and_then_simps
    using a(1) al he(1) s v r1 ae(1) r2 r3 by (simp add: mult.commute)
qed

end
