(* ===== verification/Kernel_Entry.thy ===== *)
theory Kernel_Entry
  imports Frame_Pool
begin

text \<open>
  The kernel's entry path of \<open>src/kernel/src/main.rs\<close> up to the recovery context: the checks on the handoff, the
  initialization of the frame allocator and the probe that allocates, returns and reuses frames.  The reads
  through raw pointers are parameters.  Serial output and the exit through the emulator are not modelled: a
  failed check is an error value that says which message is printed.
\<close>


section \<open>The entry path\<close>

datatype BootError =
    Null_handoff | Invalid_handoff | Frame_allocator_init | Frame_allocation | Frame_recycle | Frame_reuse_mismatch
  | Frame_probe_restore

definition boot_step :: "('s, 'e, 'a) action \<Rightarrow> 'f \<Rightarrow> ('s, 'f, 'a) action" where
  "boot_step m error s = (case m s of (r, s') \<Rightarrow> (map_err (\<lambda>_. error) r, s'))"

text \<open>Two frames are allocated, the first is returned and must be the next one allocated, and both are returned.\<close>

definition frame_probe :: "(FrameAllocator, BootError, unit) action" where
  "frame_probe =
     act_bind (boot_step allocate_frame Frame_allocation) (\<lambda>frame_a.
     act_bind (boot_step allocate_frame Frame_allocation) (\<lambda>frame_b.
       if frame_b = frame_a then act_fail Frame_recycle
       else
         act_then (boot_step (free_frame frame_a) Frame_recycle)
         (act_bind (boot_step allocate_frame Frame_recycle) (\<lambda>reused.
            if reused \<noteq> frame_a then act_fail Frame_reuse_mismatch
            else
              act_then (boot_step (free_frame frame_b) Frame_probe_restore)
                (boot_step (free_frame reused) Frame_probe_restore)))))"

definition kernel_entry ::
  "(u64 \<Rightarrow> BootHandoffV1) \<Rightarrow> (u64 \<Rightarrow> nat \<Rightarrow> MemoryRegionV1 list) \<Rightarrow> u64 \<Rightarrow> (FrameAllocator, BootError, bool) action" where
  "kernel_entry read_handoff read_regions address =
     (if address = 0 \<or> \<not> is_multiple_of address STRUCT_ALIGN then act_fail Null_handoff
      else
        (let handoff = read_handoff address
         in case validate_handoff_header handoff of
              Inl _ \<Rightarrow> act_fail Invalid_handoff
            | Inr region_count \<Rightarrow>
                (let region_address = bh_memory_regions_address handoff; regions = read_regions region_address region_count
                 in if is_err (validate_handoff handoff address region_address regions) then act_fail Invalid_handoff
                    else
                      act_then (boot_step (allocator_initialize regions) Frame_allocator_init)
                      (act_then frame_probe
                      (act_return (hh_flags (bh_header handoff) AND FRAMEBUFFER_PRESENT \<noteq> 0))))))"


section \<open>Free extents are the runs of the free frames\<close>

definition run_starts :: "nat set \<Rightarrow> nat set" where
  "run_starts S = {f \<in> S. \<forall>g \<in> S. g + 4096 \<noteq> f}"

lemma extents_ordered:
  assumes "extents_ok es" "a \<in> set es" "b \<in> set es"
  shows "a = b \<or> ext_limit a < unat (ex_physical_start b) \<or> ext_limit b < unat (ex_physical_start a)"
  using assms by (induction es) (auto simp: extents_ok_Cons)

lemma extents_distinct: "extents_ok es \<Longrightarrow> distinct (map (\<lambda>e. unat (ex_physical_start e)) es)"
proof (induction es)
  case (Cons e es)
  have less: "unat (ex_physical_start e) < unat (ex_physical_start b)" if "b \<in> set es" for b
  proof -
    have "extent_ok e" "ext_limit e < unat (ex_physical_start b)" using Cons.prems that by (simp_all add: extents_ok_Cons)
    then show ?thesis using limit_above [of e] by linarith
  qed
  have "unat (ex_physical_start e) \<notin> (\<lambda>e. unat (ex_physical_start e)) ` set es"
  proof
    assume "unat (ex_physical_start e) \<in> (\<lambda>e. unat (ex_physical_start e)) ` set es"
    then obtain b where "b \<in> set es" "unat (ex_physical_start e) = unat (ex_physical_start b)" by (rule imageE)
    with less [of b] show False by simp
  qed
  then show ?case using Cons by (simp add: extents_ok_Cons)
qed simp

lemma frames_of_member: "f \<in> frames_of es \<longleftrightarrow> (\<exists>e \<in> set es. f \<in> extent_frames e)"
  by (auto simp: frames_of_def)

lemma run_starts_extents:
  assumes "extents_ok es"
  shows "run_starts (frames_of es) = (\<lambda>e. unat (ex_physical_start e)) ` set es"
proof (intro equalityI subsetI)
  have ok: "extent_ok e" if "e \<in> set es" for e using assms that by (simp add: extents_ok_def list_all_iff)
  fix f assume "f \<in> run_starts (frames_of es)"
  then obtain e where e: "e \<in> set es" "f \<in> extent_frames e" and pred: "\<And>g. g \<in> frames_of es \<Longrightarrow> g + 4096 \<noteq> f"
    by (auto simp: run_starts_def frames_of_member)
  have "\<not> unat (ex_physical_start e) + 4096 \<le> f"
  proof
    assume le: "unat (ex_physical_start e) + 4096 \<le> f"
    define g where "g = f - 4096"
    have g: "f = g + 4096" "unat (ex_physical_start e) \<le> g" using le by (simp_all add: g_def)
    have f: "4096 dvd f" "f < ext_limit e" using e(2) by (simp_all add: extent_frames_def)
    have "4096 dvd g" unfolding g_def using f(1) by (rule dvd_diff_nat) simp
    then have "g \<in> extent_frames e" using f(2) g by (simp add: extent_frames_def)
    then show False using pred g(1) e(1) by (auto simp: frames_of_member)
  qed
  then have "f = unat (ex_physical_start e)" using frame_cases [OF ok [OF e(1)], of f] e(2) unfolding extent_frames_def by blast
  then show "f \<in> (\<lambda>e. unat (ex_physical_start e)) ` set es" using e(1) by blast
next
  have ok: "extent_ok e" if "e \<in> set es" for e using assms that by (simp add: extents_ok_def list_all_iff)
  fix f assume "f \<in> (\<lambda>e. unat (ex_physical_start e)) ` set es"
  then obtain e where e: "e \<in> set es" "f = unat (ex_physical_start e)" by blast
  have "g + 4096 \<noteq> f" if gm: "g \<in> frames_of es" for g
  proof
    assume g: "g + 4096 = f"
    obtain a where a: "a \<in> set es" "g \<in> extent_frames a" using gm by (auto simp: frames_of_member)
    have g1: "unat (ex_physical_start a) \<le> g" "g < ext_limit a" "4096 dvd g" using a(2) by (simp_all add: extent_frames_def)
    have "g + 4096 \<le> ext_limit a" using g1(2) aligned_step [OF g1(3) limit_aligned [OF ok [OF a(1)]]] by blast
    then show False
      using extents_ordered [OF assms a(1) e(1)] g e(2) g1(1) limit_above [OF ok [OF e(1)]] by (elim disjE) simp_all
  qed
  then show "f \<in> run_starts (frames_of es)"
    using start_frame [OF ok [OF e(1)]] e by (auto simp: run_starts_def frames_of_member)
qed

lemma extent_count_runs:
  assumes "extents_ok es"
  shows "length es = card (run_starts (frames_of es))"
  by (simp only: run_starts_extents [OF assms] distinct_card [OF extents_distinct [OF assms], unfolded set_map length_map])

lemma free_extent_runs: "allocator_inv a \<Longrightarrow> free_extent_count a = card (run_starts (free_frames a))"
  using extent_count_runs [of "free_list a"] by (simp add: allocator_inv_def free_extent_count_def free_frames_def)

lemma run_starts_finite: "allocator_inv a \<Longrightarrow> finite (run_starts (free_frames a))"
  using run_starts_extents [of "free_list a"] by (simp add: allocator_inv_def free_frames_def)

text \<open>Taking the lowest frame does not add a run.\<close>

lemma run_starts_lowest:
  assumes "finite (run_starts S)" "m \<in> S" "\<And>g. g \<in> S \<Longrightarrow> m \<le> g"
  shows "card (run_starts (S - {m})) \<le> card (run_starts S)"
proof -
  have m: "m \<in> run_starts S" using assms(2,3) by (fastforce simp: run_starts_def)
  have "run_starts (S - {m}) \<subseteq> insert (m + 4096) (run_starts S - {m})" by (auto simp: run_starts_def)
  then have "card (run_starts (S - {m})) \<le> card (insert (m + 4096) (run_starts S - {m}))"
    by (rule card_mono [rotated]) (use assms(1) in simp)
  also have "\<dots> \<le> Suc (card (run_starts S - {m}))" using assms(1) by (simp add: card_insert_if)
  also have "\<dots> = card (run_starts S)" using card_Suc_Diff1 [OF assms(1) m] .
  finally show ?thesis .
qed


section \<open>The probe\<close>

lemma free_succeeds:
  assumes "allocator_inv a" "unat p \<in> managed_frames a - free_frames a" "card (run_starts (free_frames a)) < MAX_FRAME_EXTENTS"
  obtains b where "free_frame p a = (Inr (), b)" "allocator_inv b" "managed_frames b = managed_frames a"
    "free_frames b = insert (unat p) (free_frames a)"
proof -
  obtain x b where x: "free_frame p a = (x, b)" by fastforce
  note r = free_result [OF assms(1) x]
  show thesis
  proof (cases x)
    case (Inl e)
    then have "free_extent_count a = MAX_FRAME_EXTENTS" using r assms(2) by (cases "e = Free_CapacityExceeded") simp_all
    then show ?thesis using assms(3) free_extent_runs [OF assms(1)] by simp
  next
    case (Inr u)
    then show ?thesis using that [of b] x r by simp
  qed
qed

text \<open>With two free frames and a free slot in the table of extents, the probe succeeds and leaves the same frames free.\<close>

lemma frame_probe_ok:
  assumes inv: "allocator_inv a" and two: "f \<in> free_frames a" "g \<in> free_frames a" "f \<noteq> g"
    and room: "card (run_starts (free_frames a)) < MAX_FRAME_EXTENTS"
  obtains b where "frame_probe a = (Inr (), b)" "allocator_inv b" "managed_frames b = managed_frames a" "free_frames b = free_frames a"
proof -
  let ?S = "free_frames a"
  have ne: "?S \<noteq> {}" using two(1) by blast
  obtain x b where b: "allocate_frame a = (Inr x, b)" "unat x \<in> ?S" "\<And>g. g \<in> ?S \<Longrightarrow> unat x \<le> g" "free_frames b = ?S - {unat x}"
      "managed_frames b = managed_frames a" "allocator_inv b"
    by (rule allocate_lowest [OF inv ne]) (rule that)
  have ne: "free_frames b \<noteq> {}" using two unfolding b(4) by blast
  obtain y c where c: "allocate_frame b = (Inr y, c)" "unat y \<in> free_frames b" "\<And>g. g \<in> free_frames b \<Longrightarrow> unat y \<le> g"
      "free_frames c = free_frames b - {unat y}" "managed_frames c = managed_frames b" "allocator_inv c"
    by (rule allocate_lowest [OF b(6) ne]) (rule that)
  have man: "unat x \<in> managed_frames a" "unat y \<in> managed_frames a" using inv b(2) c(2) unfolding allocator_inv_def b(4) by blast+
  have xy: "unat x \<noteq> unat y" using c(2) unfolding b(4) by (auto simp del: word_unat_eq_iff)
  have r1: "card (run_starts (free_frames b)) < MAX_FRAME_EXTENTS"
    using run_starts_lowest [OF run_starts_finite [OF inv] b(2,3)] room unfolding b(4) by (rule le_less_trans)
  have r2: "card (run_starts (free_frames c)) < MAX_FRAME_EXTENTS"
    using run_starts_lowest [OF run_starts_finite [OF b(6)] c(2,3)] r1 unfolding c(4) by (rule le_less_trans)
  have "unat x \<in> managed_frames c - free_frames c" unfolding c(4,5) b(4,5) using man(1) by blast
  then obtain d where d: "free_frame x c = (Inr (), d)" "allocator_inv d" "managed_frames d = managed_frames c"
      "free_frames d = insert (unat x) (free_frames c)"
    by (rule free_succeeds [OF c(6) _ r2])
  have low: "unat x \<le> g" if "g \<in> free_frames d" for g using that b(3) unfolding d(4) c(4) b(4) by blast
  have ne: "free_frames d \<noteq> {}" unfolding d(4) by blast
  obtain z e where e: "allocate_frame d = (Inr z, e)" "unat z \<in> free_frames d" "\<And>g. g \<in> free_frames d \<Longrightarrow> unat z \<le> g"
      "free_frames e = free_frames d - {unat z}" "managed_frames e = managed_frames d" "allocator_inv e"
    by (rule allocate_lowest [OF d(2) ne]) (rule that)
  have "unat x \<in> free_frames d" unfolding d(4) by (rule insertI1)
  from antisym [OF e(3) [OF this] low [OF e(2)]] have z: "z = x" by (simp only: word_unat_eq_iff)
  have ec: "free_frames e = free_frames c" unfolding e(4) d(4) z c(4) b(4) by (rule Diff_insert_absorb) simp
  have "unat y \<in> managed_frames e - free_frames e" unfolding ec c(4) e(5) d(3) c(5) b(5) using man(2) by blast
  then obtain h where h: "free_frame y e = (Inr (), h)" "allocator_inv h" "managed_frames h = managed_frames e"
      "free_frames h = insert (unat y) (free_frames e)"
    by (rule free_succeeds [OF e(6) _ r2 [folded ec]])
  have hb: "free_frames h = free_frames b" unfolding h(4) ec c(4) using c(2) by (rule insert_Diff)
  have hm: "managed_frames h = managed_frames a" unfolding h(3) e(5) d(3) c(5) b(5) ..
  have "unat x \<in> managed_frames h - free_frames h" unfolding hb b(4) hm using man(1) by blast
  then obtain k where k: "free_frame x h = (Inr (), k)" "allocator_inv k" "managed_frames k = managed_frames h"
      "free_frames k = insert (unat x) (free_frames h)"
    by (rule free_succeeds [OF h(2) _ r1 [folded hb]])
  have "frame_probe a = (Inr (), k)"
    using xy unfolding frame_probe_def
    by (auto simp: boot_step_def act_bind_def act_then_def b(1) c(1) d(1) e(1) h(1) k(1) z)
  moreover have "free_frames k = ?S" unfolding k(4) hb b(4) using b(2) by (rule insert_Diff)
  ultimately show thesis using that [of k] k(2,3) hm by simp
qed


section \<open>Extents of a memory map\<close>

lemma count_extents_bound:
  assumes "count_extents ps pe pu n rs = Inr m"
  shows "m \<le> n + length (filter (\<lambda>r. mr_kind r = MEMORY_USABLE) rs)"
  using assms
proof (induction rs arbitrary: ps pe pu n)
  case (Cons r rs)
  from Cons.prems obtain e where e: "if mr_kind r = MEMORY_USABLE
     then (let n' = (if pu = Some (mr_physical_start r) then n else n + 1)
           in (pu = Some (mr_physical_start r) \<or> n' \<le> MAX_FRAME_EXTENTS)
              \<and> count_extents (Some (mr_physical_start r)) (Some e) (Some e) n' rs = Inr m)
     else count_extents (Some (mr_physical_start r)) (Some e) None n rs = Inr m"
    by (rule count_step) (rule that)
  show ?case
  proof (cases "mr_kind r = MEMORY_USABLE")
    case True
    let ?n = "if pu = Some (mr_physical_start r) then n else n + 1"
    have "count_extents (Some (mr_physical_start r)) (Some e) (Some e) ?n rs = Inr m" using e True by (simp add: Let_def)
    from Cons.IH [OF this] have "m \<le> ?n + length (filter (\<lambda>r. mr_kind r = MEMORY_USABLE) rs)" .
    moreover have "?n \<le> n + 1" by simp
    ultimately show ?thesis using True by simp
  next
    case False
    then show ?thesis using e Cons.IH by simp
  qed
qed simp

lemma validated_address:
  assumes "validate_handoff h address slice_address rs = Inr ()"
  shows "address \<noteq> 0" "is_multiple_of address STRUCT_ALIGN" "validate_handoff_header h = Inr (length rs)"
    "bh_memory_regions_address h = slice_address"
  using assms by (auto simp: validate_handoff_def and_then_eq_Inr simp del: STRUCT_ALIGN_def HANDOFF_SIZE_def split: if_split_asm)

text \<open>A validated handoff with a region that is not usable and two usable frames boots: the table of extents has room for
  the probe, which leaves exactly the usable frames free.\<close>

lemma kernel_entry_boots:
  assumes v: "validate_handoff h address slice_address rs = Inr ()"
    and reads: "read_handoff address = h" "read_regions slice_address (length rs) = rs"
    and two: "f \<in> usable_frames rs" "g \<in> usable_frames rs" "f \<noteq> g" and r: "r \<in> set rs" "mr_kind r \<noteq> MEMORY_USABLE"
  obtains b where "kernel_entry read_handoff read_regions address allocator_new =
      (Inr (hh_flags (bh_header h) AND FRAMEBUFFER_PRESENT \<noteq> 0), b)"
    "allocator_inv b" "managed_frames b = usable_frames rs" "free_frames b = usable_frames rs"
proof -
  note va = validated_address [OF v]
  obtain n where n: "validate_and_count_extents rs = Inr n"
    using count_validated [of None None rs 0 None] validated_handoff(1,2) [OF v]
    unfolding validate_and_count_extents_def by (auto simp only: validate_regions_iff option.distinct simp_thms add_0 MAX_FRAME_EXTENTS_def)
  obtain a where a: "allocator_initialize rs allocator_new = (Inr (), a)" "allocator_inv a" "managed_frames a = usable_frames rs"
      "free_frames a = usable_frames rs" "free_extent_count a = n"
    using allocator_new_inv(1) n by (cases rule: initialize_cases [of allocator_new rs]) auto
  have "length (filter (\<lambda>r. mr_kind r = MEMORY_USABLE) rs) < length rs" using r by (rule length_filter_less)
  then have "n < MAX_FRAME_EXTENTS"
    using count_extents_bound [OF n [unfolded validate_and_count_extents_def]] validated_handoff(2) [OF v] by simp
  then have room: "card (run_starts (free_frames a)) < MAX_FRAME_EXTENTS" using free_extent_runs [OF a(2)] a(5) by simp
  obtain b where b: "frame_probe a = (Inr (), b)" "allocator_inv b" "managed_frames b = managed_frames a" "free_frames b = free_frames a"
    using frame_probe_ok [OF a(2) two [folded a(4)] room] .
  have "kernel_entry read_handoff read_regions address allocator_new =
      (Inr (hh_flags (bh_header h) AND FRAMEBUFFER_PRESENT \<noteq> 0), b)"
    using va v reads a(1) b(1)
    by (simp add: kernel_entry_def boot_step_def act_then_def act_bind_def Let_def del: FRAMEBUFFER_PRESENT_def STRUCT_ALIGN_def)
  then show thesis using that b a(3,4) by simp
qed

end
