(* ===== verification/Boot.thy ===== *)
theory Boot
  imports Loader_Properties Kernel_Entry
begin

text \<open>
  The composition of loader, normalization, kernel image, handoff validation, kernel entry and frame allocator: under
  a contract of the firmware, a loader run that enters the kernel is accepted by the kernel, and the frame
  allocator never hands out memory of the kernel or of the handoff.  An example firmware satisfies the contract.
\<close>


section \<open>From the loader to the kernel\<close>

lemma allocate_keeps_memory: "allocate_loader_pages F n m = (Inr a, m') \<Longrightarrow> mc_memory m' = mc_memory m"
  by (auto simp: allocate_loader_pages_def firmware_call_def split: prod.splits sum.splits)

lemma main_entered:
  assumes "loader_main F m = (Inr ke, m')"
  obtains img f where "entered F img f ke m'"
  using assms load_entered unfolding loader_main_def act_then_eq_Inr by metis

lemma entered_loaded:
  assumes "entered F img f ke m"
  obtains bytes where "image_parse bytes = Inr img" "ke_entry ke = vi_entry img" "bh_framebuffer (ke_handoff ke) = f"
    "\<And>s. s \<in> set (image_segments img) \<Longrightarrow> segment_loaded bytes (mc_memory m) s"
proof -
  obtain bytes m1 m2 m3 n where e: "image_parse bytes = Inr img" "load_segments F img m1 = (Inr (), m2)"
      "allocate_loader_pages F 1 m2 = (Inr (ke_handoff_address ke), m3)" "allocate_loader_pages F 6 m3 = (Inr (ke_region_address ke), m)"
      "ke_entry ke = vi_entry img" "ke_handoff ke = build_handoff f (ke_region_address ke) n"
    using assms unfolding entered_def by blast
  note p = parsed_segments [OF e(1)]
  have "run_segments (load_segment F img) (image_segments img) m1 = (Inr (), m2)" using e(2) by (simp add: load_segments_def p(6))
  from run_segments_loaded [OF this _ p(4)] p(1,5) have "\<forall>s \<in> set (image_segments img). segment_loaded bytes (mc_memory m2) s" by simp
  moreover have "mc_memory m = mc_memory m2" using allocate_keeps_memory [OF e(3)] allocate_keeps_memory [OF e(4)] by simp
  ultimately show thesis using that [OF e(1,5)] e(6) by (simp add: build_handoff_def)
qed

lemma entered_validates:
  assumes c: "firmware_contract F owned" and e: "entered F img f ke m"
  shows "validate_handoff (ke_handoff ke) (ke_handoff_address ke) (ke_region_address ke) (kernel_map ke) = Inr ()"
proof -
  obtain m2 m3 n where a: "capture_framebuffer F (mc_firmware m2) = Inr f" "allocate_loader_pages F 1 m2 = (Inr (ke_handoff_address ke), m3)"
      "allocate_loader_pages F 6 m3 = (Inr (ke_region_address ke), m)" and h: "ke_handoff ke = build_handoff f (ke_region_address ke) n"
      and nm: "normalize_memory_regions (map descriptor_source (fw_final_map F (mc_firmware m))) (loader_overrides img f)
             (replicate MAX_MEMORY_REGIONS region_zero) = (Inr n, ke_regions ke)"
    using e unfolding entered_def by blast
  let ?ha = "unat (ke_handoff_address ke)" and ?ra = "unat (ke_region_address ke)"
  note hp = loader_pages [OF c a(2)] and rp = loader_pages [OF c a(3)] and km = entered_map [OF e]
  have n1: "0 < n" "n \<le> 1024" using normalize_sound [OF nm] by simp_all
  then have n: "length (kernel_map ke) = n" using km(4) h by (simp add: build_handoff_def unat_of_nat_u32)
  have usable: "usable_bytes (kernel_map ke) \<subseteq> conventional_bytes (fw_final_map F (mc_firmware m))" using km(5) by blast
  have own: "disjnt (owned (mc_firmware m)) (usable_bytes (kernel_map ke))"
    using c usable unfolding firmware_contract_def disjnt_iff by blast
  have "{?ha ..< ?ha + 88} \<subseteq> {?ha ..< ?ha + 4096 * 1}" "{?ra ..< ?ra + 24 * n} \<subseteq> {?ra ..< ?ra + 4096 * 6}" using n1(2) by auto
  then have inown: "{?ha ..< ?ha + 88} \<subseteq> owned (mc_firmware m)" "{?ra ..< ?ra + 24 * n} \<subseteq> owned (mc_firmware m)"
    using hp(5) rp(4,5) by blast+
  have fb: "disjnt {unat (fb_physical_start f) ..< unat (fb_physical_start f) + unat (fb_byte_length f)} (usable_bytes (kernel_map ke))"
    if "\<not> framebuffer_is_zero f"
    using framebuffer_in_pages [OF that] unfolding km(5) disjnt_iff by blast
  have "disjnt (handoff_bytes (ke_handoff ke) (ke_handoff_address ke)) (usable_bytes (kernel_map ke))"
    unfolding handoff_bytes_def disjnt_Un1
    using disjnt_subset1 [OF own inown(1)] disjnt_subset1 [OF own inown(2)] fb built_flags [of f "ke_region_address ke" n] km(4) n h
    by (simp add: build_handoff_def del: FRAMEBUFFER_PRESENT_def)
  moreover have "validate_handoff_header (ke_handoff ke) = Inr (length (kernel_map ke))"
    unfolding h n by (rule built_handoff_header [OF captured_valid [OF a(1)] n1 rp(1,2)]) (use rp(3) in simp)
  moreover have "validate_framebuffer_shape (ke_handoff ke) = Inr ()" unfolding h by (rule captured_valid [OF a(1)])
  moreover have "?ha + 88 < 2 ^ 64" "?ra + 24 * length (kernel_map ke) < 2 ^ 64" using hp(3) rp(3) n1(2) n by simp_all
  moreover have "bh_memory_regions_address (ke_handoff ke) = ke_region_address ke" by (simp add: h build_handoff_def)
  ultimately show ?thesis using hp(1,2) km(1,2,4) by (intro validate_handoff_intro)
qed


lemma kernel_region_reserved:
  assumes "entered F img f ke m"
  obtains r where "r \<in> set (kernel_map ke)" "mr_kind r \<noteq> MEMORY_USABLE"
proof -
  obtain bytes where b: "image_parse bytes = Inr img" using assms unfolding entered_def by blast
  obtain s where s: "s \<in> set (image_segments img)" using parsed_segments(3) [OF b] by (cases "image_segments img") auto
  have "unat (sg_physical_start s) \<in> segment_pages s" using page_count_pos [OF parsed_segments(1) [OF b s]] by (simp add: segment_pages_def)
  then have "(unat (sg_physical_start s), MEMORY_RESERVED) \<in> kinds (kernel_map ke)" using entered_map(6) [OF assms s] by blast
  then obtain r where "r \<in> set (kernel_map ke)" "mr_kind r = MEMORY_RESERVED" by (auto simp: kinds_def)
  then show thesis using that [of r] by simp
qed


section \<open>Properties\<close>




section \<open>An example\<close>

text \<open>A firmware with the kernel file of one segment, two mebibytes of loader data from one mebibyte on, two pages of
  conventional memory at four mebibytes and no graphics output.  Its state is trivial, since its answers do not
  depend on the calls before.\<close>

definition example_map :: "MemoryDescriptor list" where
  "example_map =
     [\<lparr>md_ty = LOADER_DATA, md_phys_start = 0x100000, md_page_count = 512\<rparr>,
      \<lparr>md_ty = CONVENTIONAL, md_phys_start = 0x400000, md_page_count = 2\<rparr>]"

definition example_allocate :: "AllocateType \<Rightarrow> nat \<Rightarrow> (unit, Status, u64) action" where
  "example_allocate ty n fw =
     (case ty of
        Address a \<Rightarrow> if a = 0x100000 \<and> n = 1 then (Inr a, fw) else (Inl OUT_OF_RESOURCES, fw)
      | AnyPages \<Rightarrow> if n = 1 then (Inr 0x200000, fw) else if n = 6 then (Inr 0x201000, fw) else (Inl OUT_OF_RESOURCES, fw))"

definition example_firmware :: "unit Firmware" where
  "example_firmware =
     \<lparr>fw_init = act_return (), fw_file_system = act_return (), fw_metadata = act_return 120, fw_read = act_return example_image,
      fw_allocate_pages = example_allocate, fw_graphics = (\<lambda>_. None), fw_final_map = (\<lambda>_. example_map)\<rparr>"

definition example_machine :: "unit Machine" where
  "example_machine = \<lparr>mc_firmware = (), mc_memory = (\<lambda>_. 0)\<rparr>"

lemma example_conventional: "conventional_bytes example_map = {0x400000 ..< 0x402000}"
proof -
  have "{d \<in> set example_map. md_ty d = CONVENTIONAL} = {\<lparr>md_ty = CONVENTIONAL, md_phys_start = 0x400000, md_page_count = 2\<rparr>}"
    by (auto simp: example_map_def)
  then have "conventional_bytes example_map = descriptor_bytes \<lparr>md_ty = CONVENTIONAL, md_phys_start = 0x400000, md_page_count = 2\<rparr>"
    by (simp add: conventional_bytes_def)
  then show ?thesis by (simp add: descriptor_bytes_def)
qed

lemma example_contract: "firmware_contract example_firmware (\<lambda>_. {0x100000 ..< 0x300000})"
  unfolding firmware_contract_def
proof (intro conjI allI impI)
  fix ty n fw a fw' assume "fw_allocate_pages example_firmware ty n fw = (Inr a, fw')"
  then have "(a = 0x100000 \<and> n = 1) \<or> (a = 0x200000 \<and> n = 1) \<or> (a = 0x201000 \<and> n = 6)"
    by (auto simp: example_firmware_def example_allocate_def split: AllocateType.splits if_split_asm)
  then consider "a = 0x100000" "n = 1" | "a = 0x200000" "n = 1" | "a = 0x201000" "n = 6" by blast
  then have all: "a \<noteq> 0 \<and> 4096 dvd unat a \<and> unat a + 4096 * n < 2 ^ 64 \<and> 0x100000 \<le> unat a \<and> unat a + 4096 * n \<le> 0x300000"
    by cases simp_all
  then show "a \<noteq> 0" "4096 dvd unat a" "unat a + 4096 * n < 2 ^ 64" by simp_all
  have "{unat a ..< unat a + 4096 * n} \<subseteq> {0x100000 ..< 0x300000}" using all by (intro ivl_subset [THEN iffD2]) simp
  then show "{0x100000 ..< 0x300000} \<union> {unat a ..< unat a + 4096 * n} \<subseteq> {0x100000 ..< 0x300000}" by (simp only: Un_least order_refl)
next
  have "disjnt {0x100000 ..< 0x300000} {0x400000 ..< (0x402000 :: nat)}" by (subst disjnt_intervals) simp_all
  then show "disjnt {0x100000 ..< 0x300000} (conventional_bytes (fw_final_map example_firmware fw))" for fw
    by (simp only: example_firmware_def Firmware.simps example_conventional)
qed

lemma example_segments: "image_segments example_parsed = [example_segment]"
  using example_segment_at by (simp add: example_parsed_def)

lemma example_segment_fields:
  "sg_file_offset example_segment = 0" "sg_file_size example_segment = 120" "sg_physical_start example_segment = 0x100000"
  "sg_memory_size example_segment = 4096" "segment_page_count example_segment = 1"
  by (simp_all add: segment_page_count_def example_segment_def)

definition example_loaded :: "unit Machine" where
  "example_loaded = example_machine\<lparr>mc_memory := copy_bytes example_image 0x100000 (write_bytes 0x100000 0 4096 (\<lambda>_. 0))\<rparr>"

lemma example_load: "load_segments example_firmware example_parsed example_machine = (Inr (), example_loaded)"
proof -
  have "file_bytes example_parsed example_segment = Some example_image"
    by (simp add: file_bytes_def get_bytes_def example_parsed_def example_segment_fields example_image_length)
  then have "load_segment example_firmware example_parsed example_segment example_machine = (Inr (), example_loaded)"
    by (simp add: load_segment_def example_segment_fields Let_def act_then_def act_bind_def firmware_call_def example_firmware_def
        example_allocate_def example_machine_def example_loaded_def)
  then show ?thesis by (simp add: load_segments_def parsed_segments(6) [OF example_image_parsed] example_segments)
qed

theorem segments_loaded_witness:
  "load_segments example_firmware example_parsed example_machine = (Inr (), example_loaded)
   \<and> mc_memory example_loaded 0x100000 = 0x7f \<and> mc_memory example_loaded 0x100fff = 0"
proof -
  have s: "example_segment \<in> set (image_segments example_parsed)" by (simp add: example_segments)
  note l = segments_loaded [OF example_image_parsed example_load, THEN conjunct1, rule_format, OF s]
  show ?thesis
    using example_load l [of 0] l [of 4095] by (simp add: example_segment_fields example_image_def)
qed

lemma example_override_maps:
  "map_ok (map source_region (map descriptor_source example_map))" "map_ok (map override_region [segment_override example_segment])"
  "region_bytes (override_region (segment_override example_segment)) \<subseteq>
     fst ` kinds (map source_region (map descriptor_source example_map))"
proof -
  show "map_ok (map source_region (map descriptor_source example_map))"
    by (simp add: map_ok_def example_map_def descriptor_source_def region_ok_def region_limit_def memory_kind_def is_known_memory_kind_def)
  show "map_ok (map override_region [segment_override example_segment])"
    by (simp add: map_ok_def segment_override_def example_segment_fields region_ok_def region_limit_def is_known_memory_kind_def)
  have "region_bytes (override_region (segment_override example_segment)) = {0x100000 ..< 0x101000}"
    by (simp add: region_bytes_def region_limit_def segment_override_def example_segment_fields)
  moreover have "fst ` ({0x100000 ..< 0x300000} \<times> {MEMORY_LOADER_RECLAIMABLE}) \<subseteq>
      fst ` kinds (map source_region (map descriptor_source example_map))"
    by (rule image_mono) (simp add: example_map_def descriptor_source_def region_bytes_def region_limit_def memory_kind_def)
  moreover have "{0x100000 ..< 0x101000} \<subseteq> {0x100000 ..< (0x300000 :: nat)}" by simp
  ultimately show "region_bytes (override_region (segment_override example_segment)) \<subseteq>
     fst ` kinds (map source_region (map descriptor_source example_map))" by (simp only: fst_image_times insert_not_empty if_False)
qed


definition example_entry :: "nat \<Rightarrow> MemoryRegionV1 list \<Rightarrow> KernelEntry" where
  "example_entry n regions =
     \<lparr>ke_entry = 0x100000, ke_handoff_address = 0x200000, ke_handoff = build_handoff framebuffer_default 0x201000 n,
      ke_region_address = 0x201000, ke_regions = regions\<rparr>"

text \<open>The whole run of the loader on the example.\<close>

lemma example_boot_run:
  obtains n regions where "loader_main example_firmware example_machine = (Inr (example_entry n regions), example_loaded)"
    "normalize_memory_regions (map descriptor_source example_map) [segment_override example_segment]
       (replicate MAX_MEMORY_REGIONS region_zero) = (Inr n, regions)"
proof -
  have cover: "\<forall>r \<in> set [segment_override example_segment]. ov_require_full_coverage r \<longrightarrow>
      region_bytes (override_region r) \<subseteq> fst ` kinds (map source_region (map descriptor_source example_map))"
    using example_override_maps(3) by (simp only: list.set ball_simps simp_thms)
  obtain n regions where n: "normalize_memory_regions (map descriptor_source example_map) [segment_override example_segment]
      (replicate MAX_MEMORY_REGIONS region_zero) = (Inr n, regions)"
    using normalize_complete [OF example_override_maps(1) _ example_override_maps(2) cover, of "replicate MAX_MEMORY_REGIONS region_zero"]
    by (auto simp: example_map_def)
  have read: "read_kernel example_firmware example_machine = (Inr example_image, example_machine)"
    by (simp add: read_kernel_def act_then_def act_bind_def firmware_call_def example_firmware_def example_machine_def)
  have table: "collect_kernel_overrides example_parsed (replicate MAX_REGION_OVERRIDES MemoryRegionOverride_EMPTY) =
      Inr (segment_override example_segment # replicate 16 MemoryRegionOverride_EMPTY, 1)"
    using collected [OF example_image_parsed] by (simp add: example_segments)
  have enter: "enter_kernel example_firmware 0x100000 framebuffer_default [segment_override example_segment] 0x200000 0x201000 example_loaded =
      (Inr (example_entry n regions), example_loaded)"
    using n by (simp add: enter_kernel_def example_firmware_def example_entry_def del: MAX_MEMORY_REGIONS_def)
  have alloc: "allocate_loader_pages example_firmware 1 example_loaded = (Inr 0x200000, example_loaded)"
    "allocate_loader_pages example_firmware REGION_STORAGE_PAGES example_loaded = (Inr 0x201000, example_loaded)"
    by (simp_all add: allocate_loader_pages_def firmware_call_def example_firmware_def example_allocate_def example_loaded_def example_machine_def)
  have entry: "vi_entry example_parsed = 0x100000" by (simp add: example_parsed_def)
  have fb: "capture_framebuffer example_firmware fw = Inr framebuffer_default" for fw
    by (simp add: capture_framebuffer_def example_firmware_def)
  have added: "add_framebuffer_override framebuffer_default t = Inr t" for t
    by (simp add: add_framebuffer_override_def framebuffer_is_zero_def framebuffer_default_def split: prod.splits)
  have "load_and_enter_kernel example_firmware example_machine = (Inr (example_entry n regions), example_loaded)"
    unfolding load_and_enter_kernel_def
    by (simp add: act_bind_Inr act_then_Inr read example_image_parsed table example_load fb added alloc [simplified] enter
        entry del: MAX_REGION_OVERRIDES_def)
  then show thesis using that n by (simp add: loader_main_def act_then_def act_bind_def firmware_call_def example_firmware_def example_machine_def)
qed


lemma example_frames:
  assumes "normalize_memory_regions (map descriptor_source example_map) [segment_override example_segment]
       (replicate MAX_MEMORY_REGIONS region_zero) = (Inr n, regions)"
  shows "kernel_map (example_entry n regions) = take n regions" "0x400000 \<in> usable_frames (take n regions)" "0x401000 \<in> usable_frames (take n regions)"
proof -
  have "unat (of_nat n :: u32) = n" using normalize_sound [OF assms] by (intro unat_of_nat_u32) simp
  then show "kernel_map (example_entry n regions) = take n regions" by (simp add: kernel_map_def example_entry_def build_handoff_def)
  have "region_bytes (override_region (segment_override example_segment)) = {0x100000 ..< 0x101000}"
    by (simp add: region_bytes_def region_limit_def segment_override_def example_segment_fields)
  moreover have "\<forall>r \<in> set [segment_override example_segment]. ov_kind r \<noteq> MEMORY_USABLE" by (simp add: segment_override_def)
  ultimately have "usable_bytes (take n regions) = {0x400000 ..< 0x402000} - {0x100000 ..< 0x101000}"
    using normalized_usable [OF assms] by (simp add: example_conventional)
  then show "0x400000 \<in> usable_frames (take n regions)" "0x401000 \<in> usable_frames (take n regions)"
    by (simp_all add: usable_frames_def)
qed



end
