(* ===== verification/Spec2Isabelle.thy ===== *)
theory Spec2Isabelle
  imports Journaled_Properties Boot
begin

text \<open>
  \<^bold>\<open>A verification development for MakopaOS.\<close>

  MakopaOS boots from UEFI and runs two user tasks under a small cooperative runtime.  Its parts, in the order in
  which control passes through them:

  \<^item> the loader (\<open>src/loader/src/main.rs\<close>) reads the kernel file, parses it (\<open>src/crates/kernel-image\<close>), copies its
    segments into memory, takes the final memory map from the firmware, normalizes it under overrides for the
    kernel and the framebuffer, and enters the kernel with a handoff (both \<open>src/crates/boot-contract\<close>);
  \<^item> the kernel (\<open>src/kernel/src/main.rs\<close>) validates the handoff, initializes the frame allocator
    (\<open>src/crates/frame-allocator\<close>) and probes it;
  \<^item> the task runtime (\<open>src/crates/task-runtime/src/lib.rs\<close>) schedules the tasks, passes messages, holds their
    capability tables, starts a workload from the registered manifest, and lets the workload change a single
    effect after the supervisor's approval; with a journal, every step of that protocol leaves a record.

  \<^bold>\<open>Reading the model.\<close>  \<open>Prelude\<close> fixes the conventions: unsigned integers are words, an index is a \<open>nat\<close>, a
  \<open>Result\<close> is a sum with the error on the left, and a method on \<open>&mut self\<close> is an action from a state to a result
  and a state.  Each definition keeps the name of the Rust item it models, with a prefix where two items share a
  name; record fields carry a short prefix.  Early returns are branches, \<open>?\<close> is \<open>and_then\<close> or \<open>act_bind\<close>, and the
  idiom that restores a copy of the state on an error is \<open>act_restoring\<close>.

  \<^bold>\<open>Theories and sources.\<close>

  \<^item> \<open>Runtime_Types\<close>: constants, enumerations and status codes of the task runtime.
  \<^item> \<open>Capability\<close>: handles and capability tables.  Closed handles never resolve again, rights are never
    amplified, tables stay valid, handles and their parts correspond.
  \<^item> \<open>Launch_Manifest\<close>, \<open>Effect_Journal\<close>, \<open>Task_Context\<close>: the manifest and its validator, the journal with
    reserved terminal records, and saved contexts with the register policy.
  \<^item> \<open>Runtime_State\<close>, \<open>Runtime_Ops\<close>: the runtime's state, its own validation, and its operations: construction
    and publication with rollback, dispatch, trap capture, the trap handler with all operations, and teardown.
  \<^item> \<open>Runtime_Inv\<close>, \<open>Runtime_Traps\<close>, \<open>Runtime_Teardown\<close>, \<open>Runtime_Construct\<close>: the invariant behind the validation and
    its preservation by every operation.  \<open>Action_Frames\<close>, \<open>Runtime_Frames\<close>, \<open>Runtime_Protocol\<close>,
    \<open>Runtime_Authority\<close>: what operations leave alone, the approval protocol, and who can hold which right.
    \<open>Runtime_Properties\<close> has the properties of the runtime over reachable states.
  \<^item> \<open>Journaled_Runtime\<close> to \<open>Journaled_Properties\<close>: the runtime together with its journal; the records are a run of
    the request life cycle, and no effect happens without its three records.
  \<^item> \<open>Boot_Contract\<close>, \<open>Normalize\<close>, \<open>Normalize_Properties\<close>: the handoff and its validation; the normalization of the
    memory map, read as an overlay of kinds on addresses.
  \<^item> \<open>Frame_Allocator\<close>, \<open>Frame_Extents\<close>, \<open>Frame_Pool\<close>: the allocator on two arrays of extents, the array lemmas, and
    its refinement to a set of frames through the interface \<open>frame_pool\<close>.
  \<^item> \<open>Kernel_Image\<close>, \<open>Kernel_Image_Segments\<close>: the ELF parser and its segment iterator.
  \<^item> \<open>Loader\<close>, \<open>Loader_Properties\<close>, \<open>Kernel_Entry\<close>, \<open>Boot\<close>: loader and kernel entry, and the composition of all boot
    components under a contract of the firmware.

  \<^bold>\<open>Parameters.\<close>  The \<open>uefi\<close> crate is a record of functions on a state of any type; \<open>firmware_contract\<close> states what
  the composition relies on (allocated pages are aligned, not null, do not wrap, stay allocated, and are not
  conventional memory in the final map), and an example firmware satisfies it.  What the kernel reads through
  raw pointers is a parameter of \<open>kernel_entry\<close>.

  \<^bold>\<open>Bounds and fuel.\<close>  All loops over arrays are recursions that end by construction.  The loop over the segment
  iterator takes fuel, because a Rust iterator may be endless: seventeen calls are enough for the at most sixteen
  segments of a parsed image, and the property on parsed images shows it.  Arrays keep the sizes of the sources
  (16 capability slots, 16 journal records, 1024 regions and extents, 17 overrides).

  \<^bold>\<open>Not modelled.\<close>  The machine-dependent rest of the kernel (\<open>src/kernel/src/arch_x86_64.rs\<close>) is assembly, descriptor
  tables and control registers, whose meaning is that of the processor.  Serial output, the exit through the
  emulator and panic handlers have no result.  \<open>src/crates/address-space\<close> and the host tool
  \<open>src/tools/component-admission\<close> are not modelled; build scripts and tests are not part of the running system.
\<close>

end
